theory Spec2Isabelle
  imports Complex_Main "HOL-Library.Word" "HOL-Library.Log_Nat"
begin

section \<open>Data: arrays, layers, symbolic tensors, models\<close>

text \<open>
  The two notebooks (\<^verbatim>\<open>cnn-mnist.ipynb\<close>, the Sequential stack, and the Y-Network
  notebook) are straight-line Python over numpy and Keras. A numpy array is its shape and
  its flat row-major buffer. MNIST images and labels are \<^verbatim>\<open>uint8\<close>; a \<^verbatim>\<open>float32\<close> is
  modelled by the rational it denotes (every value the notebooks produce is finite); the
  \<^verbatim>\<open>float64\<close> scores that \<^verbatim>\<open>evaluate\<close> returns are only forwarded to \<^verbatim>\<open>print\<close> and
  are kept as their 64 bits.
\<close>

type_synonym uint8 = "8 word"
type_synonym float32 = rat
type_synonym float64 = "64 word"

datatype 'a ndarray = NDArray (shape: "nat list") (data: "'a list")

datatype error = ValueError | IndexError | TypeError | Exception string

text \<open>
  A layer object is the constructor call that made it: the keyword arguments the source
  writes, with \<open>None\<close> for a keyword the source leaves out.
\<close>

datatype layer =
    Conv2D (conv_filters: nat) (conv_kernel_size: nat) (conv_padding: string)
      (conv_activation: string) (conv_dilation_rate: "nat option")
      (conv_input_shape: "(nat \<times> nat \<times> nat) option")
  | MaxPooling2D
  | Flatten
  | Dense (units: nat) (dense_activation: "string option")
  | Activation string

text \<open>
  A symbolic Keras tensor of the functional API: an \<^verbatim>\<open>Input\<close> (told apart from every
  other \<^verbatim>\<open>Input\<close> by the position of the call that created it), a layer applied to a
  tensor, or the concatenation of tensors.
\<close>

datatype tensor =
    InputT nat "nat \<times> nat \<times> nat"
  | Apply layer tensor
  | Concat "tensor list"

datatype model =
    Sequential "layer list"
  | Model "tensor list" tensor string

text \<open>The \<^verbatim>\<open>x\<close> argument of \<^verbatim>\<open>fit\<close> and \<^verbatim>\<open>evaluate\<close>: one array, or a Python list of arrays.\<close>

datatype inputs = Single "float32 ndarray" | Multi "float32 ndarray list"

section \<open>The numpy and Keras functions the notebooks call on data\<close>

text \<open>
  These functions belong to numpy and Keras, not to the repository; they are written
  here as their documentation describes them, for the arguments the notebooks pass.
\<close>

text \<open>\<^verbatim>\<open>np.unique(y)\<close>: the sorted distinct values of the flattened array.\<close>

definition np_unique :: "uint8 ndarray \<Rightarrow> uint8 ndarray" where
  "np_unique y = (let u = sort (remdups (data y)) in NDArray [length u] u)"

text \<open>\<^verbatim>\<open>len(a)\<close>: the first dimension; a 0-d array has no length.\<close>

definition len :: "'a ndarray \<Rightarrow> error + nat" where
  "len a = (case shape a of [] \<Rightarrow> Inl TypeError | n # _ \<Rightarrow> Inr n)"

text \<open>
  \<^verbatim>\<open>to_categorical(y)\<close> with \<^verbatim>\<open>num_classes\<close> left out: the labels are read as integers,
  \<^verbatim>\<open>num_classes = np.max(y) + 1\<close> (\<^verbatim>\<open>np.max\<close> raises on an empty array), and row \<open>i\<close>
  is all zeros but for a one at column \<open>y[i]\<close>. The result's shape is the input's
  (a trailing dimension of 1 dropped) followed by \<^verbatim>\<open>num_classes\<close>.
\<close>

definition one_hot :: "nat \<Rightarrow> nat \<Rightarrow> float32 list" where
  "one_hot num_classes c = map (\<lambda>j. if j = c then 1 else 0) [0..<num_classes]"

definition amax :: "nat list \<Rightarrow> nat" where
  "amax ys = fold max ys 0"

definition to_categorical :: "uint8 ndarray \<Rightarrow> error + float32 ndarray" where
  "to_categorical y =
     (if data y = [] then Inl ValueError
      else
        let ys = map unat (data y);
            num_classes = amax ys + 1;
            input_shape =
              (if 1 < length (shape y) \<and> last (shape y) = 1 then butlast (shape y)
               else shape y)
        in Inr (NDArray (input_shape @ [num_classes]) (concat (map (one_hot num_classes) ys))))"

text \<open>The rows of an array: its buffer cut at every multiple of the last dimension.\<close>

fun chunks :: "nat \<Rightarrow> 'a list \<Rightarrow> 'a list list" where
  "chunks w xs = (if w = 0 \<or> xs = [] then [] else take w xs # chunks w (drop w xs))"

declare chunks.simps [simp del]

definition rows :: "'a ndarray \<Rightarrow> 'a list list" where
  "rows a = chunks (last (shape a)) (data a)"

text \<open>\<^verbatim>\<open>x.shape[i]\<close>: a tuple subscript, \<^verbatim>\<open>IndexError\<close> out of range.\<close>

definition shape_subscript :: "'a ndarray \<Rightarrow> nat \<Rightarrow> error + nat" where
  "shape_subscript x i = (if i < length (shape x) then Inr (shape x ! i) else Inl IndexError)"

text \<open>
  \<^verbatim>\<open>np.reshape(x, newshape)\<close>: the buffer is kept; one dimension may be \<open>-1\<close> and is then
  inferred from the size, which the other dimensions must divide.
\<close>

definition np_reshape :: "'a ndarray \<Rightarrow> int list \<Rightarrow> error + 'a ndarray" where
  "np_reshape x newshape =
     (let size = int (length (data x));
          known = prod_list (filter (\<lambda>d. d \<noteq> - 1) newshape)
      in if 1 < count_list newshape (- 1) \<or> list_ex (\<lambda>d. d < - 1) newshape then Inl ValueError
         else if count_list newshape (- 1) = 1 then
           (if known \<le> 0 \<or> size mod known \<noteq> 0 then Inl ValueError
            else Inr (NDArray (map (\<lambda>d. nat (if d = - 1 then size div known else d)) newshape)
                        (data x)))
         else if known = size then Inr (NDArray (map nat newshape) (data x))
         else Inl ValueError)"

text \<open>\<^verbatim>\<open>x.astype('float32')\<close> of a \<^verbatim>\<open>uint8\<close> array: every byte 0..255 is a float32, exactly.\<close>

definition astype_float32 :: "uint8 ndarray \<Rightarrow> float32 ndarray" where
  "astype_float32 x = NDArray (shape x) (map (\<lambda>p. of_nat (unat p)) (data x))"

text \<open>
  Float32 arithmetic rounds the exact result to the nearest float32, ties to even:
  a float32 of magnitude in \<open>[2^e, 2^(e+1))\<close> is a multiple of \<open>2^(e-23)\<close> (of \<open>2^(-149)\<close>
  below the normal range). Overflow to infinity (magnitudes from \<open>2^128\<close> on) is outside
  this model; the notebooks divide values between 0 and 255 by 255.
\<close>

definition round_half_even :: "rat \<Rightarrow> int" where
  "round_half_even q =
     (let f = \<lfloor>q\<rfloor>; d = q - of_int f
      in if d < 1 / 2 then f else if 1 / 2 < d then f + 1 else if even f then f else f + 1)"

definition ilog2 :: "rat \<Rightarrow> int" where
  "ilog2 x =
     (let e0 = bitlen (fst (quotient_of x)) - bitlen (snd (quotient_of x))
      in if x < 2 powi e0 then e0 - 1 else e0)"

definition rn32 :: "rat \<Rightarrow> float32" where
  "rn32 x =
     (if x = 0 then 0
      else let u = 2 powi (max (ilog2 \<bar>x\<bar>) (- 126) - 23)
           in of_int (round_half_even (x / u)) * u)"

text \<open>\<^verbatim>\<open>a / d\<close> for a float32 array and a nonzero Python int: elementwise float32 division.\<close>

definition true_divide :: "float32 ndarray \<Rightarrow> int \<Rightarrow> float32 ndarray" where
  "true_divide a d = NDArray (shape a) (map (\<lambda>v. rn32 (v / of_int d)) (data a))"

text \<open>
  \<^verbatim>\<open>loss, acc = scores\<close> needs exactly two values; \<^verbatim>\<open>score[1]\<close> needs at least two.
\<close>

definition unpack2 :: "'a list \<Rightarrow> error + 'a \<times> 'a" where
  "unpack2 xs = (case xs of [a, b] \<Rightarrow> Inr (a, b) | _ \<Rightarrow> Inl ValueError)"

definition subscript :: "'a list \<Rightarrow> nat \<Rightarrow> error + 'a" where
  "subscript xs i = (if i < length xs then Inr (xs ! i) else Inl IndexError)"

section \<open>Framework calls, their outcomes, and the run of a notebook\<close>

text \<open>
  Every call a notebook makes into numpy, Keras or the Python runtime, with the
  arguments it is made with. \<open>Plot_model\<close> is \<^verbatim>\<open>plot_model(model, to_file=..., show_shapes=...)\<close>,
  which both notebooks have only in a comment. \<open>Print_percent fmt v\<close> is
  \<^verbatim>\<open>print(fmt % (100.0 * v))\<close>.
\<close>

datatype call =
    Mnist_load_data
  | Np_unique "uint8 ndarray"
  | Len "uint8 ndarray"
  | To_categorical "uint8 ndarray"
  | Shape_subscript "uint8 ndarray" nat
  | Np_reshape "uint8 ndarray" "int list"
  | Astype_float32 "uint8 ndarray"
  | True_divide "float32 ndarray" int
  | New_Sequential
  | New_layer layer
  | Model_add model layer
  | New_Input "nat \<times> nat \<times> nat"
  | Call_layer layer tensor
  | Concatenate "tensor list"
  | New_Model "tensor list" tensor string
  | Model_summary model
  | Model_compile model (loss: string) (optimizer: string) (metrics: "string list")
  | Model_fit model inputs "float32 ndarray" "(inputs \<times> float32 ndarray) option" nat nat
  | Model_evaluate model inputs "float32 ndarray" nat
  | Unpack2 "float64 list"
  | Subscript "float64 list" nat
  | Print_percent string float64
  | Plot_model model string bool

datatype event = Returned call | Raised call error

fun call_of :: "event \<Rightarrow> call" where
  "call_of (Returned c) = c"
| "call_of (Raised c e) = c"

text \<open>
  What lies outside the notebooks: whether the call made at a given position of the run
  raises (and what), the four arrays \<^verbatim>\<open>mnist.load_data()\<close> returns, and the scores
  \<^verbatim>\<open>model.evaluate\<close> returns.
\<close>

record framework =
  raises :: "nat \<Rightarrow> call \<Rightarrow> error option"
  train_images :: "uint8 ndarray"
  train_labels :: "uint8 ndarray"
  test_images :: "uint8 ndarray"
  test_labels :: "uint8 ndarray"
  evaluate_scores :: "float64 list"

text \<open>
  A notebook is a computation over the trace of calls made so far that ends in a value
  or in the exception that reached the top level. Neither notebook has a \<^verbatim>\<open>try\<close>
  statement, so sequencing (\<open>io_bind\<close>) is the only way two statements are combined:
  the second runs only if the first returned.
\<close>

type_synonym 'a io = "event list \<Rightarrow> (error + 'a) \<times> event list"

definition io_return :: "'a \<Rightarrow> 'a io" where
  "io_return x tr = (Inr x, tr)"

definition io_bind :: "'a io \<Rightarrow> ('a \<Rightarrow> 'b io) \<Rightarrow> 'b io" where
  "io_bind m f tr = (case m tr of (Inl e, tr') \<Rightarrow> (Inl e, tr') | (Inr x, tr') \<Rightarrow> f x tr')"

text \<open>
  \<open>invoke fw c r\<close> makes the call \<open>c\<close>, whose own outcome is \<open>r\<close>: the call raises what the
  framework raises there, or else what \<open>r\<close> raises, or else returns \<open>r\<close>'s value.
\<close>

definition invoke :: "framework \<Rightarrow> call \<Rightarrow> error + 'a \<Rightarrow> 'a io" where
  "invoke fw c r tr =
     (case raises fw (length tr) c of
        Some e \<Rightarrow> (Inl e, tr @ [Raised c e])
      | None \<Rightarrow>
          (case r of
             Inl e \<Rightarrow> (Inl e, tr @ [Raised c e])
           | Inr v \<Rightarrow> (Inr v, tr @ [Returned c])))"

definition run :: "(framework \<Rightarrow> 'a io) \<Rightarrow> framework \<Rightarrow> (error + 'a) \<times> event list" where
  "run notebook fw = notebook fw []"

text \<open>\<^verbatim>\<open>model.add(l)\<close> appends to a Sequential model; a functional Model has no \<^verbatim>\<open>add\<close>.\<close>

definition add :: "model \<Rightarrow> layer \<Rightarrow> error + model" where
  "add m l = (case m of Sequential ls \<Rightarrow> Inr (Sequential (ls @ [l]))
              | Model _ _ _ \<Rightarrow> Inl (Exception ''AttributeError''))"

text \<open>The calls of the two notebooks, each with the result it has when it returns.\<close>

abbreviation do_load_data :: "framework \<Rightarrow>
    ((uint8 ndarray \<times> uint8 ndarray) \<times> (uint8 ndarray \<times> uint8 ndarray)) io" where
  "do_load_data fw \<equiv> invoke fw Mnist_load_data
     (Inr ((train_images fw, train_labels fw), (test_images fw, test_labels fw)))"

abbreviation do_unique :: "framework \<Rightarrow> uint8 ndarray \<Rightarrow> uint8 ndarray io" where
  "do_unique fw y \<equiv> invoke fw (Np_unique y) (Inr (np_unique y))"

abbreviation do_len :: "framework \<Rightarrow> uint8 ndarray \<Rightarrow> nat io" where
  "do_len fw a \<equiv> invoke fw (Len a) (len a)"

abbreviation do_to_categorical :: "framework \<Rightarrow> uint8 ndarray \<Rightarrow> float32 ndarray io" where
  "do_to_categorical fw y \<equiv> invoke fw (To_categorical y) (to_categorical y)"

abbreviation do_shape_subscript :: "framework \<Rightarrow> uint8 ndarray \<Rightarrow> nat \<Rightarrow> nat io" where
  "do_shape_subscript fw x i \<equiv> invoke fw (Shape_subscript x i) (shape_subscript x i)"

abbreviation do_reshape :: "framework \<Rightarrow> uint8 ndarray \<Rightarrow> int list \<Rightarrow> uint8 ndarray io" where
  "do_reshape fw x s \<equiv> invoke fw (Np_reshape x s) (np_reshape x s)"

abbreviation do_astype_float32 :: "framework \<Rightarrow> uint8 ndarray \<Rightarrow> float32 ndarray io" where
  "do_astype_float32 fw x \<equiv> invoke fw (Astype_float32 x) (Inr (astype_float32 x))"

abbreviation do_divide :: "framework \<Rightarrow> float32 ndarray \<Rightarrow> int \<Rightarrow> float32 ndarray io" where
  "do_divide fw a d \<equiv> invoke fw (True_divide a d) (Inr (true_divide a d))"

abbreviation do_Sequential :: "framework \<Rightarrow> model io" where
  "do_Sequential fw \<equiv> invoke fw New_Sequential (Inr (Sequential []))"

abbreviation do_layer :: "framework \<Rightarrow> layer \<Rightarrow> layer io" where
  "do_layer fw l \<equiv> invoke fw (New_layer l) (Inr l)"

abbreviation do_add :: "framework \<Rightarrow> model \<Rightarrow> layer \<Rightarrow> model io" where
  "do_add fw m l \<equiv> invoke fw (Model_add m l) (add m l)"

definition do_Input :: "framework \<Rightarrow> nat \<times> nat \<times> nat \<Rightarrow> tensor io" where
  "do_Input fw s tr = invoke fw (New_Input s) (Inr (InputT (length tr) s)) tr"

abbreviation do_apply :: "framework \<Rightarrow> layer \<Rightarrow> tensor \<Rightarrow> tensor io" where
  "do_apply fw l x \<equiv> invoke fw (Call_layer l x) (Inr (Apply l x))"

abbreviation do_concatenate :: "framework \<Rightarrow> tensor list \<Rightarrow> tensor io" where
  "do_concatenate fw xs \<equiv> invoke fw (Concatenate xs) (Inr (Concat xs))"

abbreviation do_Model :: "framework \<Rightarrow> tensor list \<Rightarrow> tensor \<Rightarrow> string \<Rightarrow> model io" where
  "do_Model fw ins out name \<equiv> invoke fw (New_Model ins out name) (Inr (Model ins out name))"

abbreviation do_summary :: "framework \<Rightarrow> model \<Rightarrow> unit io" where
  "do_summary fw m \<equiv> invoke fw (Model_summary m) (Inr ())"

abbreviation do_compile :: "framework \<Rightarrow> model \<Rightarrow> string \<Rightarrow> string \<Rightarrow> string list \<Rightarrow> unit io" where
  "do_compile fw m l opt ms \<equiv> invoke fw (Model_compile m l opt ms) (Inr ())"

abbreviation do_fit :: "framework \<Rightarrow> model \<Rightarrow> inputs \<Rightarrow> float32 ndarray \<Rightarrow>
    (inputs \<times> float32 ndarray) option \<Rightarrow> nat \<Rightarrow> nat \<Rightarrow> unit io" where
  "do_fit fw m x y v epochs batch_size \<equiv> invoke fw (Model_fit m x y v epochs batch_size) (Inr ())"

abbreviation do_evaluate :: "framework \<Rightarrow> model \<Rightarrow> inputs \<Rightarrow> float32 ndarray \<Rightarrow> nat \<Rightarrow>
    float64 list io" where
  "do_evaluate fw m x y batch_size \<equiv>
     invoke fw (Model_evaluate m x y batch_size) (Inr (evaluate_scores fw))"

abbreviation do_unpack2 :: "framework \<Rightarrow> float64 list \<Rightarrow> (float64 \<times> float64) io" where
  "do_unpack2 fw xs \<equiv> invoke fw (Unpack2 xs) (unpack2 xs)"

abbreviation do_subscript :: "framework \<Rightarrow> float64 list \<Rightarrow> nat \<Rightarrow> float64 io" where
  "do_subscript fw xs i \<equiv> invoke fw (Subscript xs i) (subscript xs i)"

abbreviation do_print_percent :: "framework \<Rightarrow> string \<Rightarrow> float64 \<Rightarrow> unit io" where
  "do_print_percent fw fmt v \<equiv> invoke fw (Print_percent fmt v) (Inr ())"

section \<open>The Sequential-stack notebook\<close>

text \<open>
  \<^verbatim>\<open>cnn-mnist.ipynb\<close>, its four code cells in order, one line per statement. A lambda
  binds the Python variable its statement assigns.
\<close>

definition cnn_mnist :: "framework \<Rightarrow> unit io" where
  "cnn_mnist fw =
    io_bind (do_load_data fw) (\<lambda>((x_train, y_train), (x_test, y_test)).
    io_bind (do_unique fw y_train) (\<lambda>u.
    io_bind (do_len fw u) (\<lambda>num_labels.
    io_bind (do_to_categorical fw y_train) (\<lambda>y_train.
    io_bind (do_to_categorical fw y_test) (\<lambda>y_test.
    io_bind (do_shape_subscript fw x_train 1) (\<lambda>image_size.
    io_bind (do_reshape fw x_train [- 1, int image_size, int image_size, 1]) (\<lambda>x_train.
    io_bind (do_reshape fw x_test [- 1, int image_size, int image_size, 1]) (\<lambda>x_test.
    io_bind (do_astype_float32 fw x_train) (\<lambda>a.
    io_bind (do_divide fw a 255) (\<lambda>x_train.
    io_bind (do_astype_float32 fw x_test) (\<lambda>a.
    io_bind (do_divide fw a 255) (\<lambda>x_test.
    io_bind (io_return (image_size, image_size, 1)) (\<lambda>input_shape.
    io_bind (io_return 128) (\<lambda>batch_size.
    io_bind (io_return 3) (\<lambda>kernel_size.
    io_bind (io_return 64) (\<lambda>filters.
    io_bind (do_Sequential fw) (\<lambda>model.
    io_bind (do_layer fw (Conv2D filters kernel_size ''same'' ''relu'' None (Some input_shape))) (\<lambda>l.
    io_bind (do_add fw model l) (\<lambda>model.
    io_bind (do_layer fw MaxPooling2D) (\<lambda>l.
    io_bind (do_add fw model l) (\<lambda>model.
    io_bind (do_layer fw (Conv2D filters kernel_size ''same'' ''relu'' None None)) (\<lambda>l.
    io_bind (do_add fw model l) (\<lambda>model.
    io_bind (do_layer fw MaxPooling2D) (\<lambda>l.
    io_bind (do_add fw model l) (\<lambda>model.
    io_bind (do_layer fw (Conv2D filters kernel_size ''same'' ''relu'' None None)) (\<lambda>l.
    io_bind (do_add fw model l) (\<lambda>model.
    io_bind (do_layer fw Flatten) (\<lambda>l.
    io_bind (do_add fw model l) (\<lambda>model.
    io_bind (do_layer fw (Dense num_labels None)) (\<lambda>l.
    io_bind (do_add fw model l) (\<lambda>model.
    io_bind (do_layer fw (Activation ''softmax'')) (\<lambda>l.
    io_bind (do_add fw model l) (\<lambda>model.
    io_bind (do_summary fw model) (\<lambda>_.
    io_bind (do_compile fw model ''categorical_crossentropy'' ''sgd'' [''accuracy'']) (\<lambda>_.
    io_bind (do_fit fw model (Single x_train) y_train None 20 batch_size) (\<lambda>_.
    io_bind (do_evaluate fw model (Single x_test) y_test batch_size) (\<lambda>scores.
    io_bind (do_unpack2 fw scores) (\<lambda>(loss, acc).
    do_print_percent fw (CHR 0x0A # ''Test accuracy: %.1f%%'') acc
    ))))))))))))))))))))))))))))))))))))))"

section \<open>The Y-Network notebook\<close>

text \<open>
  The two construction loops, \<^verbatim>\<open>for i in range(depth)\<close>, as a recursion over the
  values \<open>i\<close> has still to take. The body rebinds the branch's tensor: a \<^verbatim>\<open>Conv2D\<close> is made and applied, and
  \<^verbatim>\<open>if i < (depth - 1)\<close> a \<^verbatim>\<open>MaxPooling2D\<close> is made and applied. The right loop is the
  left loop with \<^verbatim>\<open>dilation_rate=2\<close> added to the \<^verbatim>\<open>Conv2D\<close> call.
\<close>

fun left_branch :: "framework \<Rightarrow> nat \<Rightarrow> nat \<Rightarrow> nat \<Rightarrow> nat list \<Rightarrow> tensor \<Rightarrow> tensor io" where
  "left_branch fw filters kernel_size depth [] x = io_return x"
| "left_branch fw filters kernel_size depth (i # rest) x =
     io_bind (do_layer fw (Conv2D filters kernel_size ''same'' ''relu'' None None)) (\<lambda>l.
     io_bind (do_apply fw l x) (\<lambda>x.
     io_bind (if i < depth - 1
              then io_bind (do_layer fw MaxPooling2D) (\<lambda>l. do_apply fw l x)
              else io_return x) (\<lambda>x.
     left_branch fw filters kernel_size depth rest x)))"

fun right_branch :: "framework \<Rightarrow> nat \<Rightarrow> nat \<Rightarrow> nat \<Rightarrow> nat list \<Rightarrow> tensor \<Rightarrow> tensor io" where
  "right_branch fw filters kernel_size depth [] y = io_return y"
| "right_branch fw filters kernel_size depth (i # rest) y =
     io_bind (do_layer fw (Conv2D filters kernel_size ''same'' ''relu'' (Some 2) None)) (\<lambda>l.
     io_bind (do_apply fw l y) (\<lambda>y.
     io_bind (if i < depth - 1
              then io_bind (do_layer fw MaxPooling2D) (\<lambda>l. do_apply fw l y)
              else io_return y) (\<lambda>y.
     right_branch fw filters kernel_size depth rest y)))"

text \<open>The notebook's five code cells in order, one line per statement.\<close>

definition y_network :: "framework \<Rightarrow> unit io" where
  "y_network fw =
    io_bind (do_load_data fw) (\<lambda>((x_train, y_train), (x_test, y_test)).
    io_bind (do_unique fw y_train) (\<lambda>u.
    io_bind (do_len fw u) (\<lambda>num_labels.
    io_bind (do_to_categorical fw y_train) (\<lambda>y_train.
    io_bind (do_to_categorical fw y_test) (\<lambda>y_test.
    io_bind (do_shape_subscript fw x_train 1) (\<lambda>image_size.
    io_bind (do_reshape fw x_train [- 1, int image_size, int image_size, 1]) (\<lambda>x_train.
    io_bind (do_reshape fw x_test [- 1, int image_size, int image_size, 1]) (\<lambda>x_test.
    io_bind (do_astype_float32 fw x_train) (\<lambda>a.
    io_bind (do_divide fw a 255) (\<lambda>x_train.
    io_bind (do_astype_float32 fw x_test) (\<lambda>a.
    io_bind (do_divide fw a 255) (\<lambda>x_test.
    io_bind (io_return (image_size, image_size, 1)) (\<lambda>input_shape.
    io_bind (io_return 128) (\<lambda>batch_size.
    io_bind (io_return 3) (\<lambda>kernel_size.
    io_bind (io_return 64) (\<lambda>filters.
    io_bind (do_Input fw input_shape) (\<lambda>left_inputs.
    io_bind (io_return left_inputs) (\<lambda>x.
    io_bind (io_return 3) (\<lambda>depth.
    io_bind (left_branch fw filters kernel_size depth [0..<depth] x) (\<lambda>x.
    io_bind (do_Input fw input_shape) (\<lambda>right_inputs.
    io_bind (io_return right_inputs) (\<lambda>y.
    io_bind (right_branch fw filters kernel_size depth [0..<depth] y) (\<lambda>y.
    io_bind (do_concatenate fw [x, y]) (\<lambda>y.
    io_bind (do_layer fw Flatten) (\<lambda>l.
    io_bind (do_apply fw l y) (\<lambda>y.
    io_bind (do_layer fw (Dense num_labels (Some ''softmax''))) (\<lambda>l.
    io_bind (do_apply fw l y) (\<lambda>outputs.
    io_bind (do_Model fw [left_inputs, right_inputs] outputs ''Y_Network'') (\<lambda>model.
    io_bind (do_summary fw model) (\<lambda>_.
    io_bind (do_compile fw model ''categorical_crossentropy'' ''sgd'' [''accuracy'']) (\<lambda>_.
    io_bind (do_fit fw model (Multi [x_train, x_train]) y_train
               (Some (Multi [x_test, x_test], y_test)) 20 batch_size) (\<lambda>_.
    io_bind (do_evaluate fw model (Multi [x_test, x_test]) y_test batch_size) (\<lambda>score.
    io_bind (do_subscript fw score 1) (\<lambda>acc.
    do_print_percent fw (CHR 0x0A # ''Test accuracy: %.1f%%'') acc
    ))))))))))))))))))))))))))))))))))"

section \<open>What a notebook's run looks like\<close>

text \<open>
  The exception a call raises by itself on the arguments it is made with, if any:
  the outcome of the function it calls.
\<close>

definition error_of :: "error + 'a \<Rightarrow> error option" where
  "error_of r = (case r of Inl e \<Rightarrow> Some e | Inr _ \<Rightarrow> None)"

fun own_error :: "call \<Rightarrow> error option" where
  "own_error (Len a) = error_of (len a)"
| "own_error (To_categorical y) = error_of (to_categorical y)"
| "own_error (Shape_subscript x i) = error_of (shape_subscript x i)"
| "own_error (Np_reshape x s) = error_of (np_reshape x s)"
| "own_error (Model_add m l) = error_of (add m l)"
| "own_error (Unpack2 xs) = error_of (unpack2 xs)"
| "own_error (Subscript xs i) = error_of (subscript xs i)"
| "own_error _ = None"

text \<open>What the call \<open>c\<close>, made at position \<open>i\<close> of a run, raises there, if anything.\<close>

definition raised_by :: "framework \<Rightarrow> nat \<Rightarrow> call \<Rightarrow> error option" where
  "raised_by fw i c = (case raises fw i c of Some e \<Rightarrow> Some e | None \<Rightarrow> own_error c)"

text \<open>
  \<open>emits fw n m v cs\<close>: started after \<open>n\<close> calls, the computation \<open>m\<close> makes the calls \<open>cs\<close>
  in this order for as long as they return. If all of them return, \<open>m\<close> returns \<open>v\<close> and the
  trace has grown by \<open>cs\<close>. Otherwise \<open>m\<close> ends in the exception of the first call that
  raised, and that call is the last of the trace.
\<close>

definition outcome :: "framework \<Rightarrow> nat \<Rightarrow> 'a \<Rightarrow> call list \<Rightarrow> event list \<Rightarrow>
    error + 'a \<Rightarrow> event list \<Rightarrow> bool" where
  "outcome fw n v cs tr r tr' =
     (case r of
        Inr x \<Rightarrow>
          x = v \<and> tr' = tr @ map Returned cs \<and>
          (\<forall>k<length cs. raised_by fw (n + k) (cs ! k) = None)
      | Inl e \<Rightarrow>
          (\<exists>k<length cs.
             tr' = tr @ map Returned (take k cs) @ [Raised (cs ! k) e] \<and>
             (\<forall>j<k. raised_by fw (n + j) (cs ! j) = None) \<and>
             raised_by fw (n + k) (cs ! k) = Some e))"

definition emits :: "framework \<Rightarrow> nat \<Rightarrow> 'a io \<Rightarrow> 'a \<Rightarrow> call list \<Rightarrow> bool" where
  "emits fw n m v cs \<longleftrightarrow>
     (\<forall>tr. length tr = n \<longrightarrow> outcome fw n v cs tr (fst (m tr)) (snd (m tr)))"

text \<open>
  The values of the notebooks' variables once the first cell has run; both notebooks
  preprocess the data with the same statements.
\<close>

definition image_size_of :: "framework \<Rightarrow> nat" where
  "image_size_of fw = projr (shape_subscript (train_images fw) 1)"

definition reshaped :: "framework \<Rightarrow> uint8 ndarray \<Rightarrow> uint8 ndarray" where
  "reshaped fw x =
     projr (np_reshape x [- 1, int (image_size_of fw), int (image_size_of fw), 1])"

definition x_train_of :: "framework \<Rightarrow> float32 ndarray" where
  "x_train_of fw = true_divide (astype_float32 (reshaped fw (train_images fw))) 255"

definition x_test_of :: "framework \<Rightarrow> float32 ndarray" where
  "x_test_of fw = true_divide (astype_float32 (reshaped fw (test_images fw))) 255"

definition y_train_of :: "framework \<Rightarrow> float32 ndarray" where
  "y_train_of fw = projr (to_categorical (train_labels fw))"

definition y_test_of :: "framework \<Rightarrow> float32 ndarray" where
  "y_test_of fw = projr (to_categorical (test_labels fw))"

definition num_labels_of :: "framework \<Rightarrow> nat" where
  "num_labels_of fw = projr (len (np_unique (train_labels fw)))"

definition input_shape_of :: "framework \<Rightarrow> nat \<times> nat \<times> nat" where
  "input_shape_of fw = (image_size_of fw, image_size_of fw, 1)"

definition preprocessing_calls :: "framework \<Rightarrow> call list" where
  "preprocessing_calls fw =
     [Mnist_load_data,
      Np_unique (train_labels fw),
      Len (np_unique (train_labels fw)),
      To_categorical (train_labels fw),
      To_categorical (test_labels fw),
      Shape_subscript (train_images fw) 1,
      Np_reshape (train_images fw) [- 1, int (image_size_of fw), int (image_size_of fw), 1],
      Np_reshape (test_images fw) [- 1, int (image_size_of fw), int (image_size_of fw), 1],
      Astype_float32 (reshaped fw (train_images fw)),
      True_divide (astype_float32 (reshaped fw (train_images fw))) 255,
      Astype_float32 (reshaped fw (test_images fw)),
      True_divide (astype_float32 (reshaped fw (test_images fw))) 255]"

definition sequential_layers :: "framework \<Rightarrow> layer list" where
  "sequential_layers fw =
     [Conv2D 64 3 ''same'' ''relu'' None (Some (input_shape_of fw)),
      MaxPooling2D,
      Conv2D 64 3 ''same'' ''relu'' None None,
      MaxPooling2D,
      Conv2D 64 3 ''same'' ''relu'' None None,
      Flatten,
      Dense (num_labels_of fw) None,
      Activation ''softmax'']"

definition add_calls :: "layer list \<Rightarrow> nat \<Rightarrow> call list" where
  "add_calls ls k = [New_layer (ls ! k), Model_add (Sequential (take k ls)) (ls ! k)]"

definition accuracy_format :: string where
  "accuracy_format = CHR 0x0A # ''Test accuracy: %.1f%%''"

definition cnn_mnist_calls :: "framework \<Rightarrow> call list" where
  "cnn_mnist_calls fw =
     preprocessing_calls fw @
     [New_Sequential] @
     concat (map (add_calls (sequential_layers fw)) [0..<8]) @
     [Model_summary (Sequential (sequential_layers fw)),
      Model_compile (Sequential (sequential_layers fw))
        ''categorical_crossentropy'' ''sgd'' [''accuracy''],
      Model_fit (Sequential (sequential_layers fw)) (Single (x_train_of fw)) (y_train_of fw)
        None 20 128,
      Model_evaluate (Sequential (sequential_layers fw)) (Single (x_test_of fw)) (y_test_of fw) 128,
      Unpack2 (evaluate_scores fw),
      Print_percent accuracy_format (snd (projr (unpack2 (evaluate_scores fw))))]"

text \<open>
  The Y-Network notebook: the two \<^verbatim>\<open>Conv2D\<close> configurations, the tensor a branch of
  depth 3 builds on its input and the calls it makes, and the model.
\<close>

definition left_conv :: layer where
  "left_conv = Conv2D 64 3 ''same'' ''relu'' None None"

definition right_conv :: layer where
  "right_conv = Conv2D 64 3 ''same'' ''relu'' (Some 2) None"

definition branch_tensor :: "layer \<Rightarrow> tensor \<Rightarrow> tensor" where
  "branch_tensor conv x =
     Apply conv (Apply MaxPooling2D (Apply conv (Apply MaxPooling2D (Apply conv x))))"

definition branch_calls :: "layer \<Rightarrow> tensor \<Rightarrow> call list" where
  "branch_calls conv x =
     [New_layer conv, Call_layer conv x,
      New_layer MaxPooling2D, Call_layer MaxPooling2D (Apply conv x),
      New_layer conv, Call_layer conv (Apply MaxPooling2D (Apply conv x)),
      New_layer MaxPooling2D,
      Call_layer MaxPooling2D (Apply conv (Apply MaxPooling2D (Apply conv x))),
      New_layer conv,
      Call_layer conv (Apply MaxPooling2D (Apply conv (Apply MaxPooling2D (Apply conv x))))]"

definition left_inputs_of :: "framework \<Rightarrow> tensor" where
  "left_inputs_of fw = InputT 12 (input_shape_of fw)"

definition right_inputs_of :: "framework \<Rightarrow> tensor" where
  "right_inputs_of fw = InputT 23 (input_shape_of fw)"

definition merged_of :: "framework \<Rightarrow> tensor" where
  "merged_of fw =
     Concat [branch_tensor left_conv (left_inputs_of fw),
             branch_tensor right_conv (right_inputs_of fw)]"

definition outputs_of :: "framework \<Rightarrow> tensor" where
  "outputs_of fw =
     Apply (Dense (num_labels_of fw) (Some ''softmax'')) (Apply Flatten (merged_of fw))"

definition y_model :: "framework \<Rightarrow> model" where
  "y_model fw = Model [left_inputs_of fw, right_inputs_of fw] (outputs_of fw) ''Y_Network''"

definition y_network_calls :: "framework \<Rightarrow> call list" where
  "y_network_calls fw =
     preprocessing_calls fw @
     [New_Input (input_shape_of fw)] @
     branch_calls left_conv (left_inputs_of fw) @
     [New_Input (input_shape_of fw)] @
     branch_calls right_conv (right_inputs_of fw) @
     [Concatenate [branch_tensor left_conv (left_inputs_of fw),
                   branch_tensor right_conv (right_inputs_of fw)],
      New_layer Flatten,
      Call_layer Flatten (merged_of fw),
      New_layer (Dense (num_labels_of fw) (Some ''softmax'')),
      Call_layer (Dense (num_labels_of fw) (Some ''softmax'')) (Apply Flatten (merged_of fw)),
      New_Model [left_inputs_of fw, right_inputs_of fw] (outputs_of fw) ''Y_Network'',
      Model_summary (y_model fw),
      Model_compile (y_model fw) ''categorical_crossentropy'' ''sgd'' [''accuracy''],
      Model_fit (y_model fw) (Multi [x_train_of fw, x_train_of fw]) (y_train_of fw)
        (Some (Multi [x_test_of fw, x_test_of fw], y_test_of fw)) 20 128,
      Model_evaluate (y_model fw) (Multi [x_test_of fw, x_test_of fw]) (y_test_of fw) 128,
      Subscript (evaluate_scores fw) 1,
      Print_percent accuracy_format (projr (subscript (evaluate_scores fw) 1))]"

section \<open>Observations on a run\<close>

text \<open>
  The stages of the pipeline. Each call belongs to one: loading covers
  \<^verbatim>\<open>mnist.load_data()\<close> and the preprocessing of its arrays; building covers the layer
  and model constructors, \<^verbatim>\<open>model.add\<close>, applying a layer, \<^verbatim>\<open>concatenate\<close> and
  \<^verbatim>\<open>model.summary()\<close>; reading the accuracy out of the scores belongs to printing it.
\<close>

datatype stage = Load_data | Build_graph | Compile | Fit | Evaluate | Print_accuracy

fun stage_of :: "call \<Rightarrow> stage" where
  "stage_of Mnist_load_data = Load_data"
| "stage_of (Np_unique y) = Load_data"
| "stage_of (Len a) = Load_data"
| "stage_of (To_categorical y) = Load_data"
| "stage_of (Shape_subscript x i) = Load_data"
| "stage_of (Np_reshape x s) = Load_data"
| "stage_of (Astype_float32 x) = Load_data"
| "stage_of (True_divide a d) = Load_data"
| "stage_of New_Sequential = Build_graph"
| "stage_of (New_layer l) = Build_graph"
| "stage_of (Model_add m l) = Build_graph"
| "stage_of (New_Input s) = Build_graph"
| "stage_of (Call_layer l x) = Build_graph"
| "stage_of (Concatenate xs) = Build_graph"
| "stage_of (New_Model ins out name) = Build_graph"
| "stage_of (Model_summary m) = Build_graph"
| "stage_of (Plot_model m to_file show_shapes) = Build_graph"
| "stage_of (Model_compile m l opt ms) = Compile"
| "stage_of (Model_fit m x y v epochs batch_size) = Fit"
| "stage_of (Model_evaluate m x y batch_size) = Evaluate"
| "stage_of (Unpack2 xs) = Print_accuracy"
| "stage_of (Subscript xs i) = Print_accuracy"
| "stage_of (Print_percent fmt v) = Print_accuracy"

fun rank :: "stage \<Rightarrow> nat" where
  "rank Load_data = 0"
| "rank Build_graph = 1"
| "rank Compile = 2"
| "rank Fit = 3"
| "rank Evaluate = 4"
| "rank Print_accuracy = 5"

definition stages :: "event list \<Rightarrow> stage list" where
  "stages tr = map (\<lambda>ev. stage_of (call_of ev)) tr"

definition times :: "stage \<Rightarrow> event list \<Rightarrow> nat" where
  "times s tr = count_list (stages tr) s"

text \<open>
  The layers a symbolic tensor has passed through since the \<^verbatim>\<open>Input\<close> (or the concatenation)
  it started from, in the order they were applied, and that starting point.
\<close>

fun chain :: "tensor \<Rightarrow> layer list" where
  "chain (Apply l x) = chain x @ [l]"
| "chain x = []"

fun origin :: "tensor \<Rightarrow> tensor" where
  "origin (Apply l x) = origin x"
| "origin x = x"

text \<open>The layers a construction loop applies for the values \<open>rest\<close> of \<open>i\<close>: a convolution,
  followed by a pooling layer except at the last value.\<close>

definition conv_pool :: "layer \<Rightarrow> nat \<Rightarrow> nat list \<Rightarrow> layer list" where
  "conv_pool conv depth rest =
     concat (map (\<lambda>i. if i < depth - 1 then [conv, MaxPooling2D] else [conv]) rest)"

text \<open>A \<^verbatim>\<open>Conv2D\<close> with its \<^verbatim>\<open>dilation_rate\<close> keyword replaced; any other layer unchanged.\<close>

fun with_dilation :: "nat option \<Rightarrow> layer \<Rightarrow> layer" where
  "with_dilation d (Conv2D f k p a d' s) = Conv2D f k p a d s"
| "with_dilation d l = l"

text \<open>
  Two layers have the same configuration: the same kind, and for \<^verbatim>\<open>Conv2D\<close> the same
  filters, kernel size, padding, activation and dilation (where the layer gets its input
  shape from is not part of it); for \<^verbatim>\<open>Dense\<close> the same units and activation.
\<close>

fun same_config :: "layer \<Rightarrow> layer \<Rightarrow> bool" where
  "same_config (Conv2D f k p a d s) (Conv2D f' k' p' a' d' s') =
     (f = f' \<and> k = k' \<and> p = p' \<and> a = a' \<and> d = d')"
| "same_config MaxPooling2D MaxPooling2D = True"
| "same_config Flatten Flatten = True"
| "same_config (Dense u a) (Dense u' a') = (u = u' \<and> a = a')"
| "same_config (Activation a) (Activation a') = (a = a')"
| "same_config l l' = False"

text \<open>The models a run passes to \<^verbatim>\<open>fit\<close>; the layers of a Sequential model; the branches
  a functional model concatenates under its two-layer head.\<close>

fun fitted_model :: "call \<Rightarrow> model list" where
  "fitted_model (Model_fit m x y v epochs batch_size) = [m]"
| "fitted_model c = []"

definition fitted :: "event list \<Rightarrow> model list" where
  "fitted tr = concat (map (\<lambda>ev. fitted_model (call_of ev)) tr)"

fun model_layers :: "model \<Rightarrow> layer list" where
  "model_layers (Sequential ls) = ls"
| "model_layers m = []"

fun model_branches :: "model \<Rightarrow> tensor list" where
  "model_branches (Model ins (Apply d (Apply f (Concat xs))) name) = xs"
| "model_branches m = []"

text \<open>The calls that make a model, and how many of them a run has made.\<close>

fun makes_model :: "call \<Rightarrow> bool" where
  "makes_model New_Sequential = True"
| "makes_model (New_Model ins out name) = True"
| "makes_model c = False"

definition models_made :: "event list \<Rightarrow> nat" where
  "models_made tr = length (filter (\<lambda>ev. makes_model (call_of ev)) tr)"

text \<open>A list of stages that goes through the whole pipeline, in order.\<close>

definition pipeline :: "stage list \<Rightarrow> bool" where
  "pipeline S \<longleftrightarrow> sorted (map rank S) \<and> count_list S Compile = 1 \<and> count_list S Fit = 1 \<and>
     count_list S Evaluate = 1 \<and> remdups S = [Load_data, Build_graph, Compile, Fit, Evaluate, Print_accuracy]
     \<and> last S = Print_accuracy"

text \<open>
  Small frameworks to run the notebooks on: two training and two test images of 4 by 4
  pixels (the smallest size the two poolings leave a pixel of), labelled 0 and 1.
\<close>

definition example_framework :: framework where
  "example_framework =
     \<lparr>raises = (\<lambda>i c. None),
      train_images = NDArray [2, 4, 4]
        [0, 128, 255, 1, 2, 3, 4, 5, 17, 34, 51, 68, 85, 102, 119, 136,
         255, 254, 253, 252, 9, 8, 7, 6, 200, 100, 50, 25, 12, 6, 3, 1],
      train_labels = NDArray [2] [0, 1],
      test_images = NDArray [2, 4, 4]
        [255, 0, 7, 9, 11, 13, 17, 19, 23, 29, 31, 37, 41, 43, 47, 53,
         1, 2, 4, 8, 16, 32, 64, 128, 128, 64, 32, 16, 8, 4, 2, 1],
      test_labels = NDArray [2] [1, 0],
      evaluate_scores = [0x3FA70A3D70A3D70A, 0x3FEF851EB851EB85]\<rparr>"

text \<open>The same, but \<^verbatim>\<open>model.fit\<close> runs out of memory.\<close>

fun fit_raises :: "nat \<Rightarrow> call \<Rightarrow> error option" where
  "fit_raises i (Model_fit m x y v epochs batch_size) = Some (Exception ''ResourceExhaustedError'')"
| "fit_raises i c = None"

definition failing_framework :: framework where
  "failing_framework = example_framework\<lparr>raises := fit_raises\<rparr>"



text \<open>The arrays of an \<^verbatim>\<open>x\<close> argument.\<close>

fun arrays :: "inputs \<Rightarrow> float32 ndarray list" where
  "arrays (Single a) = [a]"
| "arrays (Multi as) = as"

text \<open>
  A \<^verbatim>\<open>Dense\<close> layer without activation followed by an \<^verbatim>\<open>Activation\<close> layer computes what
  the \<^verbatim>\<open>Dense\<close> layer with that activation computes; the Y-Network notebook says of the
  two ways to write it, "Both are the same". \<open>fuse_activation\<close> rewrites the first form
  into the second.
\<close>

fun fuse_activation :: "layer list \<Rightarrow> layer list" where
  "fuse_activation (Dense u None # Activation a # ls) = Dense u (Some a) # fuse_activation ls"
| "fuse_activation (l # ls) = l # fuse_activation ls"
| "fuse_activation [] = []"

text \<open>
  The classes of a label array: its distinct values in increasing order. An array \<open>a\<close>
  is the one-hot encoding of the labels when row \<open>i\<close> of \<open>a\<close> is all zeros but for a one
  at column \<open>labels[i]\<close>; then every row has exactly one entry equal to 1 and all its
  other entries equal to 0.
\<close>

definition label_classes :: "uint8 ndarray \<Rightarrow> nat list" where
  "label_classes y = sort (remdups (map unat (data y)))"

definition one_hot_encoding :: "uint8 ndarray \<Rightarrow> float32 ndarray \<Rightarrow> bool" where
  "one_hot_encoding labels a \<longleftrightarrow>
     rows a = map (\<lambda>c. one_hot (last (shape a)) (unat c)) (data labels) \<and>
     list_all (\<lambda>c. unat c < last (shape a)) (data labels) \<and>
     list_all (\<lambda>row. length row = last (shape a) \<and> count_list row 1 = 1 \<and>
                 count_list row 0 = length row - 1) (rows a)"

section \<open>The calls of a run, in order\<close>

lemma emits_return: "emits fw n (io_return x) x []"
  by (simp add: emits_def outcome_def io_return_def)

lemma emits_invoke:
  assumes "own_error c = error_of r"
  shows "emits fw n (invoke fw c r) (projr r) [c]"
  using assms
  by (auto simp: emits_def outcome_def invoke_def raised_by_def error_of_def
      split: option.splits sum.splits)

lemma emits_Input: "emits fw n (do_Input fw s) (InputT n s) [New_Input s]"
  by (auto simp: emits_def outcome_def do_Input_def invoke_def raised_by_def
      split: option.splits sum.splits)

lemma emitsD:
  assumes "emits fw n m v cs" and "length tr = n" and "m tr = (r, tr')"
  shows "outcome fw n v cs tr r tr'"
  using assms(1)[unfolded emits_def, rule_format, OF assms(2)] by (simp add: assms(3))

lemma emitsI:
  assumes "\<And>tr r tr'. length tr = n \<Longrightarrow> m tr = (r, tr') \<Longrightarrow> outcome fw n v cs tr r tr'"
  shows "emits fw n m v cs"
  unfolding emits_def
proof (intro allI impI)
  fix tr :: "event list" assume len: "length tr = n"
  show "outcome fw n v cs tr (fst (m tr)) (snd (m tr))"
    by (rule assms[OF len]) simp
qed

lemma outcome_InlI:
  assumes "k < length cs"
    and "tr' = tr @ map Returned (take k cs) @ [Raised (cs ! k) e]"
    and "\<forall>j<k. raised_by fw (n + j) (cs ! j) = None"
    and "raised_by fw (n + k) (cs ! k) = Some e"
  shows "outcome fw n v cs tr (Inl e) tr'"
  unfolding outcome_def using assms by (simp only: sum.case) blast

lemma outcome_InlE:
  assumes "outcome fw n v cs tr (Inl e) tr'"
  obtains k where "k < length cs"
    and "tr' = tr @ map Returned (take k cs) @ [Raised (cs ! k) e]"
    and "\<forall>j<k. raised_by fw (n + j) (cs ! j) = None"
    and "raised_by fw (n + k) (cs ! k) = Some e"
  using assms unfolding outcome_def by (simp only: sum.case) blast

lemma outcome_Inr:
  "outcome fw n v cs tr (Inr x) tr' \<longleftrightarrow>
     x = v \<and> tr' = tr @ map Returned cs \<and>
     (\<forall>k<length cs. raised_by fw (n + k) (cs ! k) = None)"
  by (simp add: outcome_def)

lemma none_append:
  assumes "\<forall>j<length cs1. raised_by fw (n + j) (cs1 ! j) = None"
    and "\<forall>j<k. raised_by fw (n + length cs1 + j) (cs2 ! j) = None"
    and "k \<le> length cs2"
  shows "\<forall>j<length cs1 + k. raised_by fw (n + j) ((cs1 @ cs2) ! j) = None"
proof (intro allI impI)
  fix j assume jl: "j < length cs1 + k"
  show "raised_by fw (n + j) ((cs1 @ cs2) ! j) = None"
  proof (cases "j < length cs1")
    case True
    then show ?thesis using assms(1) by (simp add: nth_append)
  next
    case False
    then have "j - length cs1 < k" using jl by simp
    with assms(2)
    have "raised_by fw (n + length cs1 + (j - length cs1)) (cs2 ! (j - length cs1)) = None"
      by blast
    with False show ?thesis by (simp add: nth_append)
  qed
qed

lemma emits_bind:
  assumes m: "emits fw n m v cs1" and f: "emits fw (n + length cs1) (f v) w cs2"
  shows "emits fw n (io_bind m f) w (cs1 @ cs2)"
proof (rule emitsI)
  fix tr :: "event list" and r tr'
  assume len: "length tr = n" and bt: "io_bind m f tr = (r, tr')"
  obtain r1 tr1 where mt: "m tr = (r1, tr1)" by (cases "m tr")
  note d1 = emitsD[OF m len mt]
  show "outcome fw n w (cs1 @ cs2) tr r tr'"
  proof (cases r1)
    case (Inl e)
    from d1[unfolded Inl] obtain k where k: "k < length cs1"
        "tr1 = tr @ map Returned (take k cs1) @ [Raised (cs1 ! k) e]"
        "\<forall>j<k. raised_by fw (n + j) (cs1 ! j) = None"
        "raised_by fw (n + k) (cs1 ! k) = Some e"
      by (rule outcome_InlE)
    from bt have r: "r = Inl e" "tr' = tr1" by (simp_all add: io_bind_def mt Inl)
    show ?thesis unfolding r(1)
    proof (rule outcome_InlI)
      show "k < length (cs1 @ cs2)" using k(1) by simp
      show "tr' = tr @ map Returned (take k (cs1 @ cs2)) @ [Raised ((cs1 @ cs2) ! k) e]"
        using k(1,2) r by (simp add: nth_append)
      show "\<forall>j<k. raised_by fw (n + j) ((cs1 @ cs2) ! j) = None"
        using k(1,3) by (simp add: nth_append)
      show "raised_by fw (n + k) ((cs1 @ cs2) ! k) = Some e"
        using k(1,4) by (simp add: nth_append)
    qed
  next
    case (Inr x)
    from d1[unfolded Inr outcome_Inr] have x: "x = v" "tr1 = tr @ map Returned cs1"
        "\<forall>k<length cs1. raised_by fw (n + k) (cs1 ! k) = None"
      by simp_all
    have len1: "length tr1 = n + length cs1" using x len by simp
    from bt have ft: "f v tr1 = (r, tr')" by (simp add: io_bind_def mt Inr x)
    note d2 = emitsD[OF f len1 ft]
    show ?thesis
    proof (cases r)
      case r: (Inr y)
      from d2[unfolded r outcome_Inr] have y: "y = w" "tr' = tr1 @ map Returned cs2"
          "\<forall>k<length cs2. raised_by fw (n + length cs1 + k) (cs2 ! k) = None"
        by simp_all
      have "\<forall>j<length cs1 + length cs2. raised_by fw (n + j) ((cs1 @ cs2) ! j) = None"
        by (rule none_append[OF x(3) y(3)]) simp
      then show ?thesis unfolding r outcome_Inr using y x by simp
    next
      case r: (Inl e)
      from d2[unfolded r] obtain k where k: "k < length cs2"
          "tr' = tr1 @ map Returned (take k cs2) @ [Raised (cs2 ! k) e]"
          "\<forall>j<k. raised_by fw (n + length cs1 + j) (cs2 ! j) = None"
          "raised_by fw (n + length cs1 + k) (cs2 ! k) = Some e"
        by (rule outcome_InlE)
      show ?thesis unfolding r
      proof (rule outcome_InlI)
        show "length cs1 + k < length (cs1 @ cs2)" using k(1) by simp
        show "tr' = tr @ map Returned (take (length cs1 + k) (cs1 @ cs2)) @
                         [Raised ((cs1 @ cs2) ! (length cs1 + k)) e]"
          using k(2) x(2) by (simp add: nth_append)
        show "\<forall>j<length cs1 + k. raised_by fw (n + j) ((cs1 @ cs2) ! j) = None"
          by (rule none_append[OF x(3) k(3)]) (use k(1) in simp)
        show "raised_by fw (n + (length cs1 + k)) ((cs1 @ cs2) ! (length cs1 + k)) = Some e"
          using k(4) by (simp add: nth_append add.assoc)
      qed
    qed
  qed
qed

lemma emits_invoke_bind:
  assumes "emits fw (Suc n) (f (projr r)) w cs" and "own_error c = error_of r"
  shows "emits fw n (io_bind (invoke fw c r) f) w (c # cs)"
proof -
  have "emits fw n (io_bind (invoke fw c r) f) w ([c] @ cs)"
    by (rule emits_bind[OF emits_invoke]) (simp_all add: assms)
  then show ?thesis by simp
qed

lemma emits_invoke_Inr_bind:
  assumes "emits fw (Suc n) (f a) w cs" and "own_error c = None"
  shows "emits fw n (io_bind (invoke fw c (Inr a)) f) w (c # cs)"
  by (rule emits_invoke_bind) (simp_all add: assms error_of_def)

lemma emits_invoke_Inr:
  assumes "own_error c = None"
  shows "emits fw n (invoke fw c (Inr a)) a [c]"
  using emits_invoke[of c "Inr a" fw n] assms by (simp add: error_of_def)

lemma emits_return_bind:
  assumes "emits fw n (f x) w cs"
  shows "emits fw n (io_bind (io_return x) f) w cs"
proof -
  have "emits fw n (io_bind (io_return x) f) w ([] @ cs)"
    by (rule emits_bind[OF emits_return]) (simp add: assms)
  then show ?thesis by simp
qed

lemma emits_Input_bind:
  assumes "emits fw (Suc n) (f (InputT n s)) w cs"
  shows "emits fw n (io_bind (do_Input fw s) f) w (New_Input s # cs)"
proof -
  have "emits fw n (io_bind (do_Input fw s) f) w ([New_Input s] @ cs)"
    by (rule emits_bind[OF emits_Input]) (simp add: assms)
  then show ?thesis by simp
qed

lemmas emits_steps = emits_invoke_Inr_bind emits_invoke_bind emits_return_bind emits_Input_bind
  emits_invoke_Inr emits_invoke emits_return

lemma upt8: "[0..<8] = [0, 1, 2, 3, 4, 5, 6, 7::nat]"
  by (simp add: upt_rec)

lemma add_Sequential: "add (Sequential ls) l = Inr (Sequential (ls @ [l]))"
  by (simp add: add_def)



lemma cnn_mnist_emits: "emits fw 0 (cnn_mnist fw) () (cnn_mnist_calls fw)"
proof -
  have "\<exists>cs. emits fw 0 (cnn_mnist fw) () cs \<and> cs = cnn_mnist_calls fw"
    unfolding cnn_mnist_def
    apply (rule exI, rule conjI)
     apply (rule emits_steps | simp only: prod.case | simp only: case_prod_beta)+
    apply (simp_all add: error_of_def cnn_mnist_calls_def preprocessing_calls_def sequential_layers_def
        add_calls_def add_def upt8 image_size_of_def reshaped_def x_train_of_def x_test_of_def
        y_train_of_def y_test_of_def num_labels_of_def input_shape_of_def accuracy_format_def)
    done
  then show ?thesis by simp
qed

lemma upt3: "[0..<3] = [0, 1, 2::nat]"
  by (simp add: upt_rec)

lemma io_bind_assoc: "io_bind (io_bind m f) g = io_bind m (\<lambda>x. io_bind (f x) g)"
  by (rule ext) (simp add: io_bind_def split: prod.splits sum.splits)

lemma io_return_bind: "io_bind (io_return x) f = f x"
  by (rule ext) (simp add: io_bind_def io_return_def)

lemma io_bind_return: "io_bind m io_return = m"
  by (rule ext) (simp add: io_bind_def io_return_def split: prod.splits sum.splits)

lemma left_branch_Nil: "left_branch fw filters kernel_size depth [] = io_return"
  by (rule ext) simp

lemma left_branch_Cons:
  "left_branch fw filters kernel_size depth (i # rest) = (\<lambda>x.
     io_bind (do_layer fw (Conv2D filters kernel_size ''same'' ''relu'' None None)) (\<lambda>l.
     io_bind (do_apply fw l x) (\<lambda>x.
     io_bind (if i < depth - 1
              then io_bind (do_layer fw MaxPooling2D) (\<lambda>l. do_apply fw l x)
              else io_return x)
       (left_branch fw filters kernel_size depth rest))))"
  by (rule ext) simp

lemma right_branch_Nil: "right_branch fw filters kernel_size depth [] = io_return"
  by (rule ext) simp

lemma right_branch_Cons:
  "right_branch fw filters kernel_size depth (i # rest) = (\<lambda>y.
     io_bind (do_layer fw (Conv2D filters kernel_size ''same'' ''relu'' (Some 2) None)) (\<lambda>l.
     io_bind (do_apply fw l y) (\<lambda>y.
     io_bind (if i < depth - 1
              then io_bind (do_layer fw MaxPooling2D) (\<lambda>l. do_apply fw l y)
              else io_return y)
       (right_branch fw filters kernel_size depth rest))))"
  by (rule ext) simp

lemma left_branch_3:
  "left_branch fw filters kernel_size 3 [0..<3] x =
     io_bind (do_layer fw (Conv2D filters kernel_size ''same'' ''relu'' None None)) (\<lambda>l.
     io_bind (do_apply fw l x) (\<lambda>x.
     io_bind (do_layer fw MaxPooling2D) (\<lambda>l.
     io_bind (do_apply fw l x) (\<lambda>x.
     io_bind (do_layer fw (Conv2D filters kernel_size ''same'' ''relu'' None None)) (\<lambda>l.
     io_bind (do_apply fw l x) (\<lambda>x.
     io_bind (do_layer fw MaxPooling2D) (\<lambda>l.
     io_bind (do_apply fw l x) (\<lambda>x.
     io_bind (do_layer fw (Conv2D filters kernel_size ''same'' ''relu'' None None)) (\<lambda>l.
     do_apply fw l x)))))))))"
  by (simp add: upt3 left_branch_Nil left_branch_Cons right_branch_Nil right_branch_Cons
      io_bind_assoc io_return_bind io_bind_return del: left_branch.simps right_branch.simps)

lemma right_branch_3:
  "right_branch fw filters kernel_size 3 [0..<3] y =
     io_bind (do_layer fw (Conv2D filters kernel_size ''same'' ''relu'' (Some 2) None)) (\<lambda>l.
     io_bind (do_apply fw l y) (\<lambda>y.
     io_bind (do_layer fw MaxPooling2D) (\<lambda>l.
     io_bind (do_apply fw l y) (\<lambda>y.
     io_bind (do_layer fw (Conv2D filters kernel_size ''same'' ''relu'' (Some 2) None)) (\<lambda>l.
     io_bind (do_apply fw l y) (\<lambda>y.
     io_bind (do_layer fw MaxPooling2D) (\<lambda>l.
     io_bind (do_apply fw l y) (\<lambda>y.
     io_bind (do_layer fw (Conv2D filters kernel_size ''same'' ''relu'' (Some 2) None)) (\<lambda>l.
     do_apply fw l y)))))))))"
  by (simp add: upt3 left_branch_Nil left_branch_Cons right_branch_Nil right_branch_Cons
      io_bind_assoc io_return_bind io_bind_return del: left_branch.simps right_branch.simps)

lemma y_network_emits: "emits fw 0 (y_network fw) () (y_network_calls fw)"
proof -
  have "\<exists>cs. emits fw 0 (y_network fw) () cs \<and> cs = y_network_calls fw"
    unfolding y_network_def
    apply (rule exI, rule conjI)
     apply (rule emits_steps | simp only: prod.case | simp only: case_prod_beta
        | simp only: left_branch_3 right_branch_3 io_bind_assoc)+
    apply (simp_all add: error_of_def y_network_calls_def preprocessing_calls_def branch_calls_def
        branch_tensor_def left_conv_def right_conv_def left_inputs_of_def right_inputs_of_def
        merged_of_def outputs_of_def y_model_def image_size_of_def reshaped_def
        x_train_of_def x_test_of_def y_train_of_def y_test_of_def num_labels_of_def
        input_shape_of_def accuracy_format_def)
    done
  then show ?thesis by simp
qed


section \<open>Any run of a notebook\<close>

lemma run_outcome:
  assumes "emits fw 0 (notebook fw) v cs" and "run notebook fw = (r, tr)"
  shows "outcome fw 0 v cs [] r tr"
  using emitsD[OF assms(1), of "[]" r tr] assms(2) by (simp add: run_def)

lemma notebook_emits:
  assumes "notebook = cnn_mnist \<or> notebook = y_network"
  obtains cs where "emits fw 0 (notebook fw) () cs"
    and "cs = cnn_mnist_calls fw \<or> cs = y_network_calls fw"
  using assms cnn_mnist_emits y_network_emits by blast

lemma outcome_calls:
  assumes "outcome fw 0 v cs [] r tr"
  shows "map call_of tr = take (length tr) cs" and "length tr \<le> length cs"
proof -
  have "map call_of tr = take (length tr) cs \<and> length tr \<le> length cs"
  proof (cases r)
    case (Inr x)
    with assms have "tr = map Returned cs" by (simp add: outcome_Inr)
    then show ?thesis by (simp add: comp_def)
  next
    case (Inl e)
    from assms[unfolded Inl] obtain k where k: "k < length cs"
      "tr = [] @ map Returned (take k cs) @ [Raised (cs ! k) e]"
      by (rule outcome_InlE)
    then show ?thesis by (simp add: comp_def take_Suc_conv_app_nth)
  qed
  then show "map call_of tr = take (length tr) cs" and "length tr \<le> length cs" by simp_all
qed

lemma outcome_nth_call:
  assumes "outcome fw 0 v cs [] r tr" and "i < length tr"
  shows "call_of (tr ! i) = cs ! i"
proof -
  have "map call_of tr ! i = take (length tr) cs ! i"
    using outcome_calls(1)[OF assms(1)] by simp
  then show ?thesis using assms(2) by simp
qed

lemma outcome_call_in:
  assumes "outcome fw 0 v cs [] r tr" and "ev \<in> set tr"
  shows "call_of ev \<in> set cs"
proof -
  have "call_of ev \<in> set (map call_of tr)" using assms(2) by simp
  then have "call_of ev \<in> set (take (length tr) cs)"
    using outcome_calls(1)[OF assms(1)] by simp
  then show ?thesis by (rule in_set_takeD)
qed

lemma outcome_errors:
  assumes "outcome fw 0 v cs [] r tr"
  shows "(\<forall>i<length tr. \<forall>e. raised_by fw i (call_of (tr ! i)) = Some e \<longrightarrow>
            tr ! i = Raised (call_of (tr ! i)) e \<and> r = Inl e \<and> Suc i = length tr) \<and>
        (\<forall>i<length tr. \<forall>c e. tr ! i = Raised c e \<longrightarrow>
            raised_by fw i c = Some e \<and> r = Inl e \<and> Suc i = length tr) \<and>
        (\<forall>e. r = Inl e \<longrightarrow> tr \<noteq> [] \<and> last tr = Raised (call_of (last tr)) e)"
proof (cases r)
  case (Inr x)
  with assms have tr: "tr = map Returned cs"
    and none: "\<forall>k<length cs. raised_by fw k (cs ! k) = None"
    by (simp_all add: outcome_Inr)
  show ?thesis using none by (simp add: tr Inr)
next
  case (Inl e)
  from assms[unfolded Inl] obtain k where k: "k < length cs"
    "tr = [] @ map Returned (take k cs) @ [Raised (cs ! k) e]"
    "\<forall>j<k. raised_by fw (0 + j) (cs ! j) = None"
    "raised_by fw (0 + k) (cs ! k) = Some e"
    by (rule outcome_InlE)
  have len: "length tr = Suc k" using k(1,2) by simp
  have nth_lt: "tr ! i = Returned (cs ! i)" if "i < k" for i
    using that k(1) by (simp add: k(2) nth_append)
  have nth_k: "tr ! k = Raised (cs ! k) e"
    using k(1) by (simp add: k(2) nth_append)
  have 1: "\<forall>i<length tr. \<forall>e'. raised_by fw i (call_of (tr ! i)) = Some e' \<longrightarrow>
          tr ! i = Raised (call_of (tr ! i)) e' \<and> r = Inl e' \<and> Suc i = length tr"
  proof (intro allI impI)
    fix i e' assume i: "i < length tr" and r: "raised_by fw i (call_of (tr ! i)) = Some e'"
    have "\<not> i < k"
    proof
      assume "i < k"
      with nth_lt[of i] k(3) r show False by simp
    qed
    then have ik: "i = k" using i len by simp
    show "tr ! i = Raised (call_of (tr ! i)) e' \<and> r = Inl e' \<and> Suc i = length tr"
      using r k(4) nth_k len Inl unfolding ik by simp
  qed
  have 2: "\<forall>i<length tr. \<forall>c e'. tr ! i = Raised c e' \<longrightarrow>
          raised_by fw i c = Some e' \<and> r = Inl e' \<and> Suc i = length tr"
  proof (intro allI impI)
    fix i c e' assume i: "i < length tr" and r: "tr ! i = Raised c e'"
    have "\<not> i < k"
    proof
      assume "i < k"
      with nth_lt[of i] r show False by simp
    qed
    then have ik: "i = k" using i len by simp
    show "raised_by fw i c = Some e' \<and> r = Inl e' \<and> Suc i = length tr"
      using r k(4) nth_k len Inl unfolding ik by simp
  qed
  have 3: "\<forall>e'. r = Inl e' \<longrightarrow> tr \<noteq> [] \<and> last tr = Raised (call_of (last tr)) e'"
    using Inl k(2) by simp
  from 1 2 3 show ?thesis by (intro conjI)
qed

text \<open>
  C6. Neither notebook catches an exception: in every run of either notebook, whatever a
  call raises (the framework there, or the called function on its arguments) is the
  result of the whole run, unchanged, and that call is the last the run makes.
  Conversely a run that ends in an exception ends with the call that raised it.
\<close>

theorem exceptions_propagate:
  assumes "notebook = cnn_mnist \<or> notebook = y_network"
    and "run notebook fw = (r, tr)"
  shows "(\<forall>i<length tr. \<forall>e. raised_by fw i (call_of (tr ! i)) = Some e \<longrightarrow>
            tr ! i = Raised (call_of (tr ! i)) e \<and> r = Inl e \<and> Suc i = length tr) \<and>
         (\<forall>i<length tr. \<forall>c e. tr ! i = Raised c e \<longrightarrow>
            raised_by fw i c = Some e \<and> r = Inl e \<and> Suc i = length tr) \<and>
         (\<forall>e. r = Inl e \<longrightarrow> tr \<noteq> [] \<and> last tr = Raised (call_of (last tr)) e)"
proof -
  from assms(1) obtain cs where "emits fw 0 (notebook fw) () cs"
    by (rule notebook_emits)
  then have "outcome fw 0 () cs [] r tr" using assms(2) by (rule run_outcome)
  then show ?thesis by (rule outcome_errors)
qed

lemma failing_run_length: "length (snd (run y_network failing_framework)) = 43"
  by code_simp

lemma failing_run_fit:
  "raised_by failing_framework 42 (call_of (snd (run y_network failing_framework) ! 42)) =
     Some (Exception ''ResourceExhaustedError'')"
  by code_simp

theorem exceptions_propagate_witness:
  "fst (run y_network failing_framework) = Inl (Exception ''ResourceExhaustedError'') \<and>
   length (snd (run y_network failing_framework)) = 43 \<and>
   snd (run y_network failing_framework) ! 42 =
     Raised (call_of (snd (run y_network failing_framework) ! 42))
       (Exception ''ResourceExhaustedError'')"
proof -
  let ?r = "fst (run y_network failing_framework)"
  let ?tr = "snd (run y_network failing_framework)"
  have run: "run y_network failing_framework = (?r, ?tr)" by simp
  have "42 < length ?tr" by (simp add: failing_run_length)
  with exceptions_propagate[OF disjI2[OF refl] run] failing_run_fit
  have "?tr ! 42 = Raised (call_of (?tr ! 42)) (Exception ''ResourceExhaustedError'') \<and>
      ?r = Inl (Exception ''ResourceExhaustedError'')"
    by blast
  then show ?thesis using failing_run_length by simp
qed

lemmas calls_defs = cnn_mnist_calls_def y_network_calls_def preprocessing_calls_def
  add_calls_def branch_calls_def upt8

lemma cnn_call_in:
  assumes "run cnn_mnist fw = (r, tr)" and "ev \<in> set tr"
  shows "call_of ev \<in> set (cnn_mnist_calls fw)"
  using outcome_call_in[OF run_outcome[OF cnn_mnist_emits assms(1)] assms(2)] .

lemma y_call_in:
  assumes "run y_network fw = (r, tr)" and "ev \<in> set tr"
  shows "call_of ev \<in> set (y_network_calls fw)"
  using outcome_call_in[OF run_outcome[OF y_network_emits assms(1)] assms(2)] .

lemma run_success:
  assumes "emits fw 0 (notebook fw) v cs" and "run notebook fw = (Inr x, tr)"
  shows "tr = map Returned cs"
  using run_outcome[OF assms] by (simp add: outcome_Inr)

lemma stages_prefix:
  assumes "outcome fw 0 v cs [] r tr"
  shows "stages tr = take (length tr) (map stage_of cs)"
proof -
  have "stages tr = map stage_of (map call_of tr)" by (simp add: stages_def)
  also have "\<dots> = map stage_of (take (length tr) cs)"
    using outcome_calls(1)[OF assms] by simp
  finally show ?thesis by (simp add: take_map)
qed

lemma count_list_take_le: "count_list (take n xs) x \<le> count_list xs x"
proof -
  have "count_list (take n xs @ drop n xs) x = count_list (take n xs) x + count_list (drop n xs) x"
    by (rule count_list_append)
  then show ?thesis by simp
qed

lemma cnn_stage_list:
  "map stage_of (cnn_mnist_calls fw) =
     replicate 12 Load_data @ replicate 18 Build_graph @
     [Compile, Fit, Evaluate, Print_accuracy, Print_accuracy]"
  by (simp add: calls_defs numeral_eq_Suc)

lemma y_stage_list:
  "map stage_of (y_network_calls fw) =
     replicate 12 Load_data @ replicate 29 Build_graph @
     [Compile, Fit, Evaluate, Print_accuracy, Print_accuracy]"
  by (simp add: calls_defs numeral_eq_Suc)

lemma pipeline_stage_lists:
  "pipeline (replicate 12 Load_data @ replicate 18 Build_graph @
     [Compile, Fit, Evaluate, Print_accuracy, Print_accuracy])"
  "pipeline (replicate 12 Load_data @ replicate 29 Build_graph @
     [Compile, Fit, Evaluate, Print_accuracy, Print_accuracy])"
  by (simp_all add: pipeline_def numeral_eq_Suc sorted_append)

lemma pipeline_prefix:
  assumes "pipeline S" and "stages tr = take (length tr) S"
  shows "sorted (map rank (stages tr)) \<and>
         times Compile tr \<le> 1 \<and> times Fit tr \<le> 1 \<and> times Evaluate tr \<le> 1"
proof -
  have "sorted (map rank (take (length tr) S))"
    using assms(1) by (simp add: pipeline_def take_map[symmetric] sorted_wrt_take)
  moreover have "count_list (take (length tr) S) s \<le> count_list S s" for s
    by (rule count_list_take_le)
  ultimately show ?thesis
    using assms by (metis pipeline_def times_def)
qed

lemma pipeline_order_outcome:
  assumes o: "outcome fw 0 () cs [] r tr" and p: "pipeline (map stage_of cs)"
  shows "sorted (map rank (stages tr)) \<and>
         times Compile tr \<le> 1 \<and> times Fit tr \<le> 1 \<and> times Evaluate tr \<le> 1 \<and>
         (r = Inr () \<longrightarrow>
            times Compile tr = 1 \<and> times Fit tr = 1 \<and> times Evaluate tr = 1 \<and>
            remdups (stages tr) =
              [Load_data, Build_graph, Compile, Fit, Evaluate, Print_accuracy] \<and>
            last (stages tr) = Print_accuracy)"
proof -
  note pre = stages_prefix[OF o]
  have full: "stages tr = map stage_of cs" if "r = Inr ()"
    using o that by (simp add: outcome_Inr stages_def comp_def)
  show ?thesis
    using pipeline_prefix[OF p pre] p full by (simp add: pipeline_def times_def)
qed

lemma example_cnn_run: "fst (run cnn_mnist example_framework) = Inr ()"
  by code_simp

lemma example_y_run: "fst (run y_network example_framework) = Inr ()"
  by code_simp

lemma cnn_compiles:
  "\<forall>c\<in>set (cnn_mnist_calls fw). \<forall>m l opt ms. c = Model_compile m l opt ms \<longrightarrow>
      m = Sequential (sequential_layers fw) \<and> l = ''categorical_crossentropy'' \<and>
      opt = ''sgd'' \<and> ms = [''accuracy'']"
  by (simp add: calls_defs)

lemma y_compiles:
  "\<forall>c\<in>set (y_network_calls fw). \<forall>m l opt ms. c = Model_compile m l opt ms \<longrightarrow>
      m = y_model fw \<and> l = ''categorical_crossentropy'' \<and>
      opt = ''sgd'' \<and> ms = [''accuracy'']"
  by (simp add: calls_defs)

lemma io_bind_InrE:
  assumes "io_bind m f tr = (Inr t, tr')"
  obtains x tr1 where "m tr = (Inr x, tr1)" and "f x tr1 = (Inr t, tr')"
proof -
  obtain r1 tr1 where mt: "m tr = (r1, tr1)" by (cases "m tr")
  show thesis
  proof (cases r1)
    case (Inl e)
    with assms mt show ?thesis by (simp add: io_bind_def)
  next
    case (Inr x)
    with assms mt have "f x tr1 = (Inr t, tr')" by (simp add: io_bind_def)
    with mt Inr show ?thesis by (rule_tac that) simp_all
  qed
qed

lemma invoke_InrD:
  assumes "invoke fw c (Inr v) tr = (Inr t, tr')"
  shows "t = v"
proof (cases "raises fw (length tr) c")
  case None
  with assms show ?thesis by (simp add: invoke_def)
next
  case (Some e)
  with assms show ?thesis by (simp add: invoke_def)
qed

lemma io_return_InrD:
  assumes "io_return v tr = (Inr t, tr')"
  shows "t = v"
  using assms by (simp add: io_return_def)

lemma left_branch_chain:
  assumes "left_branch fw filters kernel_size depth rest x tr = (Inr t, tr')"
  shows "chain t = chain x @
           conv_pool (Conv2D filters kernel_size ''same'' ''relu'' None None) depth rest \<and>
         origin t = origin x"
  using assms
proof (induction rest arbitrary: x tr)
  case Nil
  then show ?case by (simp add: io_return_def conv_pool_def)
next
  case (Cons i rest)
  let ?c = "Conv2D filters kernel_size ''same'' ''relu'' None None"
  from Cons.prems have "io_bind (do_layer fw ?c) (\<lambda>l.
       io_bind (do_apply fw l x) (\<lambda>x.
       io_bind (if i < depth - 1
                then io_bind (do_layer fw MaxPooling2D) (\<lambda>l. do_apply fw l x)
                else io_return x) (\<lambda>x.
       left_branch fw filters kernel_size depth rest x))) tr = (Inr t, tr')"
    by simp
  then obtain l tr1 where 1: "do_layer fw ?c tr = (Inr l, tr1)"
    and r1: "io_bind (do_apply fw l x) (\<lambda>x.
       io_bind (if i < depth - 1
                then io_bind (do_layer fw MaxPooling2D) (\<lambda>l. do_apply fw l x)
                else io_return x) (\<lambda>x.
       left_branch fw filters kernel_size depth rest x)) tr1 = (Inr t, tr')"
    by (rule io_bind_InrE)
  have l: "l = ?c" using 1 by (rule invoke_InrD)
  from r1 obtain x1 tr2 where 2: "do_apply fw l x tr1 = (Inr x1, tr2)"
    and r2: "io_bind (if i < depth - 1
                then io_bind (do_layer fw MaxPooling2D) (\<lambda>l. do_apply fw l x1)
                else io_return x1) (\<lambda>x.
       left_branch fw filters kernel_size depth rest x) tr2 = (Inr t, tr')"
    by (rule io_bind_InrE)
  have x1: "x1 = Apply ?c x" using invoke_InrD[OF 2] l by simp
  from r2 obtain x2 tr3 where 3: "(if i < depth - 1
                then io_bind (do_layer fw MaxPooling2D) (\<lambda>l. do_apply fw l x1)
                else io_return x1) tr2 = (Inr x2, tr3)"
    and r3: "left_branch fw filters kernel_size depth rest x2 tr3 = (Inr t, tr')"
    by (rule io_bind_InrE)
  have x2: "x2 = (if i < depth - 1 then Apply MaxPooling2D x1 else x1)"
  proof (cases "i < depth - 1")
    case True
    with 3 have "io_bind (do_layer fw MaxPooling2D) (\<lambda>l. do_apply fw l x1) tr2 = (Inr x2, tr3)"
      by simp
    then obtain p tr4 where p: "do_layer fw MaxPooling2D tr2 = (Inr p, tr4)"
      and a: "do_apply fw p x1 tr4 = (Inr x2, tr3)"
      by (rule io_bind_InrE)
    have "p = MaxPooling2D" using p by (rule invoke_InrD)
    with invoke_InrD[OF a] have "x2 = Apply MaxPooling2D x1" by simp
    with True show ?thesis by simp
  next
    case False
    with 3 have "io_return x1 tr2 = (Inr x2, tr3)" by simp
    then have "x2 = x1" by (rule io_return_InrD)
    with False show ?thesis by simp
  qed
  from Cons.IH[OF r3] show ?case
    by (simp add: x2 x1 conv_pool_def)
qed

lemma right_branch_chain:
  assumes "right_branch fw filters kernel_size depth rest x tr = (Inr t, tr')"
  shows "chain t = chain x @
           conv_pool (Conv2D filters kernel_size ''same'' ''relu'' (Some 2) None) depth rest \<and>
         origin t = origin x"
  using assms
proof (induction rest arbitrary: x tr)
  case Nil
  then show ?case by (simp add: io_return_def conv_pool_def)
next
  case (Cons i rest)
  let ?c = "Conv2D filters kernel_size ''same'' ''relu'' (Some 2) None"
  from Cons.prems have "io_bind (do_layer fw ?c) (\<lambda>l.
       io_bind (do_apply fw l x) (\<lambda>x.
       io_bind (if i < depth - 1
                then io_bind (do_layer fw MaxPooling2D) (\<lambda>l. do_apply fw l x)
                else io_return x) (\<lambda>x.
       right_branch fw filters kernel_size depth rest x))) tr = (Inr t, tr')"
    by simp
  then obtain l tr1 where 1: "do_layer fw ?c tr = (Inr l, tr1)"
    and r1: "io_bind (do_apply fw l x) (\<lambda>x.
       io_bind (if i < depth - 1
                then io_bind (do_layer fw MaxPooling2D) (\<lambda>l. do_apply fw l x)
                else io_return x) (\<lambda>x.
       right_branch fw filters kernel_size depth rest x)) tr1 = (Inr t, tr')"
    by (rule io_bind_InrE)
  have l: "l = ?c" using 1 by (rule invoke_InrD)
  from r1 obtain x1 tr2 where 2: "do_apply fw l x tr1 = (Inr x1, tr2)"
    and r2: "io_bind (if i < depth - 1
                then io_bind (do_layer fw MaxPooling2D) (\<lambda>l. do_apply fw l x1)
                else io_return x1) (\<lambda>x.
       right_branch fw filters kernel_size depth rest x) tr2 = (Inr t, tr')"
    by (rule io_bind_InrE)
  have x1: "x1 = Apply ?c x" using invoke_InrD[OF 2] l by simp
  from r2 obtain x2 tr3 where 3: "(if i < depth - 1
                then io_bind (do_layer fw MaxPooling2D) (\<lambda>l. do_apply fw l x1)
                else io_return x1) tr2 = (Inr x2, tr3)"
    and r3: "right_branch fw filters kernel_size depth rest x2 tr3 = (Inr t, tr')"
    by (rule io_bind_InrE)
  have x2: "x2 = (if i < depth - 1 then Apply MaxPooling2D x1 else x1)"
  proof (cases "i < depth - 1")
    case True
    with 3 have "io_bind (do_layer fw MaxPooling2D) (\<lambda>l. do_apply fw l x1) tr2 = (Inr x2, tr3)"
      by simp
    then obtain p tr4 where p: "do_layer fw MaxPooling2D tr2 = (Inr p, tr4)"
      and a: "do_apply fw p x1 tr4 = (Inr x2, tr3)"
      by (rule io_bind_InrE)
    have "p = MaxPooling2D" using p by (rule invoke_InrD)
    with invoke_InrD[OF a] have "x2 = Apply MaxPooling2D x1" by simp
    with True show ?thesis by simp
  next
    case False
    with 3 have "io_return x1 tr2 = (Inr x2, tr3)" by simp
    then have "x2 = x1" by (rule io_return_InrD)
    with False show ?thesis by simp
  qed
  from Cons.IH[OF r3] show ?case
    by (simp add: x2 x1 conv_pool_def)
qed

lemma conv_pool_3: "conv_pool c 3 [0..<3] = [c, MaxPooling2D, c, MaxPooling2D, c]"
  by (simp add: conv_pool_def upt3)

lemma y_model_calls:
  "\<forall>c\<in>set (y_network_calls fw). \<forall>ins out name. c = New_Model ins out name \<longrightarrow>
      ins = [left_inputs_of fw, right_inputs_of fw] \<and> out = outputs_of fw \<and>
      name = ''Y_Network''"
  by (simp add: calls_defs)

lemma branch_tensor_chain:
  "chain (branch_tensor c x) = chain x @ [c, MaxPooling2D, c, MaxPooling2D, c]"
  "origin (branch_tensor c x) = origin x"
  by (simp_all add: branch_tensor_def)

lemma cnn_model_uses:
  "\<forall>c\<in>set (cnn_mnist_calls fw).
     (\<forall>m x y v epochs batch_size. c = Model_fit m x y v epochs batch_size \<longrightarrow>
        m = Sequential (sequential_layers fw) \<and> x = Single (x_train_of fw) \<and>
        y = y_train_of fw \<and> v = None) \<and>
     (\<forall>m x y batch_size. c = Model_evaluate m x y batch_size \<longrightarrow>
        m = Sequential (sequential_layers fw) \<and> x = Single (x_test_of fw) \<and>
        y = y_test_of fw)"
  by (simp add: calls_defs)

lemma y_model_uses:
  "\<forall>c\<in>set (y_network_calls fw).
     (\<forall>m x y v epochs batch_size. c = Model_fit m x y v epochs batch_size \<longrightarrow>
        m = y_model fw \<and> x = Multi [x_train_of fw, x_train_of fw] \<and>
        y = y_train_of fw \<and> v = Some (Multi [x_test_of fw, x_test_of fw], y_test_of fw)) \<and>
     (\<forall>m x y batch_size. c = Model_evaluate m x y batch_size \<longrightarrow>
        m = y_model fw \<and> x = Multi [x_test_of fw, x_test_of fw] \<and>
        y = y_test_of fw)"
  by (simp add: calls_defs)

lemma length_filter_take_le: "length (filter P (take n xs)) \<le> length (filter P xs)"
proof -
  have "filter P (take n xs @ drop n xs) = filter P (take n xs) @ filter P (drop n xs)"
    by (rule filter_append)
  then have "length (filter P xs) =
      length (filter P (take n xs)) + length (filter P (drop n xs))"
    by (simp only: append_take_drop_id length_append)
  then show ?thesis by simp
qed

lemma models_made_outcome:
  assumes "outcome fw 0 v cs [] r tr"
  shows "models_made tr \<le> length (filter makes_model cs)"
    and "r = Inr x \<Longrightarrow> models_made tr = length (filter makes_model cs)"
proof -
  have "models_made tr = length (filter makes_model (map call_of tr))"
    by (simp add: models_made_def filter_map comp_def)
  then have eq: "models_made tr = length (filter makes_model (take (length tr) cs))"
    using outcome_calls(1)[OF assms] by simp
  show "models_made tr \<le> length (filter makes_model cs)"
    unfolding eq by (rule length_filter_take_le)
  show "models_made tr = length (filter makes_model cs)" if "r = Inr x"
  proof -
    from assms that have "tr = map Returned cs" by (simp add: outcome_Inr)
    then show ?thesis by (simp add: models_made_def filter_map comp_def)
  qed
qed

lemma cnn_makes_one: "length (filter makes_model (cnn_mnist_calls fw)) = 1"
  by (simp add: calls_defs)

lemma y_makes_one: "length (filter makes_model (y_network_calls fw)) = 1"
  by (simp add: calls_defs)

lemma cnn_fitted: "fitted (map Returned (cnn_mnist_calls fw)) = [Sequential (sequential_layers fw)]"
  by (simp add: fitted_def calls_defs)

lemma y_fitted: "fitted (map Returned (y_network_calls fw)) = [y_model fw]"
  by (simp add: fitted_def calls_defs)

text \<open>
  C3. The repository's two notebooks each make, train and evaluate one model. The first
  is a Sequential stack of three \<^verbatim>\<open>Conv2D\<close> with a \<^verbatim>\<open>MaxPooling2D\<close> after the first two,
  then \<^verbatim>\<open>Flatten\<close>, \<^verbatim>\<open>Dense(num_labels)\<close> and a softmax \<^verbatim>\<open>Activation\<close>, trained and
  evaluated on a single input array. The second is the functional model
  \<^verbatim>\<open>Y_Network\<close> over two \<^verbatim>\<open>Input\<close>s whose branches are concatenated, flattened and given a
  softmax \<^verbatim>\<open>Dense\<close> head, trained and evaluated on a list of two input arrays.
\<close>

theorem two_models:
  assumes "run cnn_mnist fw = (r1, tr1)" and "run y_network fw = (r2, tr2)"
  shows "models_made tr1 \<le> 1 \<and> models_made tr2 \<le> 1 \<and>
    (r1 = Inr () \<longrightarrow> models_made tr1 = 1 \<and> times Fit tr1 = 1 \<and> times Evaluate tr1 = 1 \<and>
       fitted tr1 = [Sequential (sequential_layers fw)]) \<and>
    (r2 = Inr () \<longrightarrow> models_made tr2 = 1 \<and> times Fit tr2 = 1 \<and> times Evaluate tr2 = 1 \<and>
       fitted tr2 = [y_model fw]) \<and>
    (\<forall>ev\<in>set tr1.
       (\<forall>m x y v epochs batch_size. call_of ev = Model_fit m x y v epochs batch_size \<longrightarrow>
          m = Sequential (sequential_layers fw) \<and> x = Single (x_train_of fw)) \<and>
       (\<forall>m x y batch_size. call_of ev = Model_evaluate m x y batch_size \<longrightarrow>
          m = Sequential (sequential_layers fw) \<and> x = Single (x_test_of fw))) \<and>
    (\<forall>ev\<in>set tr2.
       (\<forall>m x y v epochs batch_size. call_of ev = Model_fit m x y v epochs batch_size \<longrightarrow>
          m = y_model fw \<and> x = Multi [x_train_of fw, x_train_of fw]) \<and>
       (\<forall>m x y batch_size. call_of ev = Model_evaluate m x y batch_size \<longrightarrow>
          m = y_model fw \<and> x = Multi [x_test_of fw, x_test_of fw])) \<and>
    sequential_layers fw =
      [Conv2D 64 3 ''same'' ''relu'' None (Some (input_shape_of fw)), MaxPooling2D,
       Conv2D 64 3 ''same'' ''relu'' None None, MaxPooling2D,
       Conv2D 64 3 ''same'' ''relu'' None None,
       Flatten, Dense (num_labels_of fw) None, Activation ''softmax''] \<and>
    y_model fw =
      Model [InputT 12 (input_shape_of fw), InputT 23 (input_shape_of fw)]
        (Apply (Dense (num_labels_of fw) (Some ''softmax''))
          (Apply Flatten
            (Concat
              [branch_tensor (Conv2D 64 3 ''same'' ''relu'' None None)
                 (InputT 12 (input_shape_of fw)),
               branch_tensor (Conv2D 64 3 ''same'' ''relu'' (Some 2) None)
                 (InputT 23 (input_shape_of fw))])))
        ''Y_Network''"
proof -
  note o1 = run_outcome[OF cnn_mnist_emits assms(1)]
  note o2 = run_outcome[OF y_network_emits assms(2)]
  have m1: "models_made tr1 \<le> 1" using models_made_outcome(1)[OF o1] cnn_makes_one by simp
  have m2: "models_made tr2 \<le> 1" using models_made_outcome(1)[OF o2] y_makes_one by simp
  have s1: "r1 = Inr () \<longrightarrow> models_made tr1 = 1 \<and> times Fit tr1 = 1 \<and>
      times Evaluate tr1 = 1 \<and> fitted tr1 = [Sequential (sequential_layers fw)]"
  proof
    assume r: "r1 = Inr ()"
    have tr: "tr1 = map Returned (cnn_mnist_calls fw)"
      using o1 r by (simp add: outcome_Inr)
    have "models_made tr1 = 1" using models_made_outcome(2)[OF o1 r] cnn_makes_one by simp
    moreover have "times Fit tr1 = 1 \<and> times Evaluate tr1 = 1"
      using pipeline_order_outcome[OF o1] r by (simp add: cnn_stage_list pipeline_stage_lists)
    moreover have "fitted tr1 = [Sequential (sequential_layers fw)]"
      unfolding tr by (rule cnn_fitted)
    ultimately show "models_made tr1 = 1 \<and> times Fit tr1 = 1 \<and>
      times Evaluate tr1 = 1 \<and> fitted tr1 = [Sequential (sequential_layers fw)]" by simp
  qed
  have s2: "r2 = Inr () \<longrightarrow> models_made tr2 = 1 \<and> times Fit tr2 = 1 \<and>
      times Evaluate tr2 = 1 \<and> fitted tr2 = [y_model fw]"
  proof
    assume r: "r2 = Inr ()"
    have tr: "tr2 = map Returned (y_network_calls fw)"
      using o2 r by (simp add: outcome_Inr)
    have "models_made tr2 = 1" using models_made_outcome(2)[OF o2 r] y_makes_one by simp
    moreover have "times Fit tr2 = 1 \<and> times Evaluate tr2 = 1"
      using pipeline_order_outcome[OF o2] r by (simp add: y_stage_list pipeline_stage_lists)
    moreover have "fitted tr2 = [y_model fw]"
      unfolding tr by (rule y_fitted)
    ultimately show "models_made tr2 = 1 \<and> times Fit tr2 = 1 \<and>
      times Evaluate tr2 = 1 \<and> fitted tr2 = [y_model fw]" by simp
  qed
  have u1: "\<forall>ev\<in>set tr1.
       (\<forall>m x y v epochs batch_size. call_of ev = Model_fit m x y v epochs batch_size \<longrightarrow>
          m = Sequential (sequential_layers fw) \<and> x = Single (x_train_of fw)) \<and>
       (\<forall>m x y batch_size. call_of ev = Model_evaluate m x y batch_size \<longrightarrow>
          m = Sequential (sequential_layers fw) \<and> x = Single (x_test_of fw))"
    using cnn_call_in[OF assms(1)] cnn_model_uses[of fw] by fastforce
  have u2: "\<forall>ev\<in>set tr2.
       (\<forall>m x y v epochs batch_size. call_of ev = Model_fit m x y v epochs batch_size \<longrightarrow>
          m = y_model fw \<and> x = Multi [x_train_of fw, x_train_of fw]) \<and>
       (\<forall>m x y batch_size. call_of ev = Model_evaluate m x y batch_size \<longrightarrow>
          m = y_model fw \<and> x = Multi [x_test_of fw, x_test_of fw])"
    using y_call_in[OF assms(2)] y_model_uses[of fw] by fastforce
  have d1: "sequential_layers fw =
      [Conv2D 64 3 ''same'' ''relu'' None (Some (input_shape_of fw)), MaxPooling2D,
       Conv2D 64 3 ''same'' ''relu'' None None, MaxPooling2D,
       Conv2D 64 3 ''same'' ''relu'' None None,
       Flatten, Dense (num_labels_of fw) None, Activation ''softmax'']"
    by (simp add: sequential_layers_def)
  have d2: "y_model fw =
      Model [InputT 12 (input_shape_of fw), InputT 23 (input_shape_of fw)]
        (Apply (Dense (num_labels_of fw) (Some ''softmax''))
          (Apply Flatten
            (Concat
              [branch_tensor (Conv2D 64 3 ''same'' ''relu'' None None)
                 (InputT 12 (input_shape_of fw)),
               branch_tensor (Conv2D 64 3 ''same'' ''relu'' (Some 2) None)
                 (InputT 23 (input_shape_of fw))])))
        ''Y_Network''"
    by (simp add: y_model_def outputs_of_def merged_of_def left_inputs_of_def
        right_inputs_of_def left_conv_def right_conv_def)
  from m1 m2 s1 s2 u1 u2 d1 d2 show ?thesis by (intro conjI)
qed

theorem two_models_witness:
  "fst (run cnn_mnist example_framework) = Inr () \<and>
   fst (run y_network example_framework) = Inr () \<and>
   models_made (snd (run cnn_mnist example_framework)) = 1 \<and>
   models_made (snd (run y_network example_framework)) = 1 \<and>
   fitted (snd (run cnn_mnist example_framework)) =
     [Sequential (sequential_layers example_framework)] \<and>
   fitted (snd (run y_network example_framework)) = [y_model example_framework]"
proof -
  have r1: "run cnn_mnist example_framework = (Inr (), snd (run cnn_mnist example_framework))"
    using example_cnn_run by (simp add: prod_eq_iff)
  have r2: "run y_network example_framework = (Inr (), snd (run y_network example_framework))"
    using example_y_run by (simp add: prod_eq_iff)
  from two_models[OF r1 r2] show ?thesis using example_cnn_run example_y_run by simp
qed

lemma y_model_branches:
  "model_branches (y_model fw) =
     [branch_tensor left_conv (left_inputs_of fw), branch_tensor right_conv (right_inputs_of fw)]"
  by (simp add: y_model_def outputs_of_def merged_of_def)

lemma y_branch_inputs:
  "length (model_branches (y_model fw)) = 2"
  "origin (model_branches (y_model fw) ! 0) = InputT 12 (input_shape_of fw)"
  "origin (model_branches (y_model fw) ! 1) = InputT 23 (input_shape_of fw)"
  by (simp_all add: y_model_branches branch_tensor_chain left_inputs_of_def right_inputs_of_def)

lemma y_branch_chains:
  "chain (model_branches (y_model fw) ! 1) =
      map (with_dilation (Some 2)) (chain (model_branches (y_model fw) ! 0))"
  "chain (model_branches (y_model fw) ! 0) =
      map (with_dilation None) (chain (model_branches (y_model fw) ! 1))"
  by (simp_all add: y_model_branches branch_tensor_chain left_inputs_of_def right_inputs_of_def
      left_conv_def right_conv_def)

lemma stack_like_left:
  "list_all2 same_config
     (chain (model_branches (y_model fw) ! 0)) (take 5 (sequential_layers fw))"
  "list_all2 same_config
     (map (with_dilation None) (chain (model_branches (y_model fw) ! 1)))
     (take 5 (sequential_layers fw))"
  by (simp_all add: y_model_branches branch_tensor_chain left_inputs_of_def right_inputs_of_def
      left_conv_def right_conv_def sequential_layers_def)

lemma stack_and_head:
  "drop 5 (sequential_layers fw) =
     [Flatten, Dense (num_labels_of fw) None, Activation ''softmax'']"
  "chain (outputs_of fw) = [Flatten, Dense (num_labels_of fw) (Some ''softmax'')]"
  "origin (outputs_of fw) = Concat (model_branches (y_model fw))"
  by (simp_all add: y_model_branches sequential_layers_def outputs_of_def merged_of_def)

text \<open>
  C10. Whenever a run of the Y-Network notebook calls \<^verbatim>\<open>fit\<close> or \<^verbatim>\<open>evaluate\<close>, the list
  of inputs holds the same array twice: \<^verbatim>\<open>[x_train, x_train]\<close> for training,
  \<^verbatim>\<open>[x_test, x_test]\<close> for validation and for evaluation. The model has two branches on
  two distinct \<^verbatim>\<open>Input\<close>s, and the right branch is the left branch with
  \<^verbatim>\<open>dilation_rate=2\<close> on its \<^verbatim>\<open>Conv2D\<close> layers: the branches differ in that parameter (and
  in the weights each layer holds), not in the data they are fed.
\<close>

theorem branches_fed_same_data:
  assumes "run y_network fw = (r, tr)"
  shows "(\<forall>ev\<in>set tr.
       (\<forall>m x y v epochs batch_size. call_of ev = Model_fit m x y v epochs batch_size \<longrightarrow>
          m = y_model fw \<and> x = Multi [x_train_of fw, x_train_of fw] \<and>
          v = Some (Multi [x_test_of fw, x_test_of fw], y_test_of fw)) \<and>
       (\<forall>m x y batch_size. call_of ev = Model_evaluate m x y batch_size \<longrightarrow>
          m = y_model fw \<and> x = Multi [x_test_of fw, x_test_of fw])) \<and>
    length (model_branches (y_model fw)) = 2 \<and>
    origin (model_branches (y_model fw) ! 0) = InputT 12 (input_shape_of fw) \<and>
    origin (model_branches (y_model fw) ! 1) = InputT 23 (input_shape_of fw) \<and>
    chain (model_branches (y_model fw) ! 1) =
      map (with_dilation (Some 2)) (chain (model_branches (y_model fw) ! 0)) \<and>
    chain (model_branches (y_model fw) ! 0) =
      map (with_dilation None) (chain (model_branches (y_model fw) ! 1))"
proof -
  have u: "\<forall>ev\<in>set tr.
       (\<forall>m x y v epochs batch_size. call_of ev = Model_fit m x y v epochs batch_size \<longrightarrow>
          m = y_model fw \<and> x = Multi [x_train_of fw, x_train_of fw] \<and>
          v = Some (Multi [x_test_of fw, x_test_of fw], y_test_of fw)) \<and>
       (\<forall>m x y batch_size. call_of ev = Model_evaluate m x y batch_size \<longrightarrow>
          m = y_model fw \<and> x = Multi [x_test_of fw, x_test_of fw])"
    using y_call_in[OF assms] y_model_uses[of fw] by fastforce
  from u y_branch_inputs[of fw] y_branch_chains[of fw] show ?thesis
    by (intro conjI)
qed

theorem branches_fed_same_data_witness:
  "fst (run y_network example_framework) = Inr () \<and>
   list_all (\<lambda>ev. \<forall>m x y v epochs batch_size.
       call_of ev = Model_fit m x y v epochs batch_size \<longrightarrow>
         x = Multi [x_train_of example_framework, x_train_of example_framework])
     (snd (run y_network example_framework)) \<and>
   times Fit (snd (run y_network example_framework)) = 1"
proof -
  let ?tr = "snd (run y_network example_framework)"
  have run: "run y_network example_framework = (Inr (), ?tr)"
    using example_y_run by (simp add: prod_eq_iff)
  note t = branches_fed_same_data[OF run]
  have "list_all (\<lambda>ev. \<forall>m x y v epochs batch_size.
       call_of ev = Model_fit m x y v epochs batch_size \<longrightarrow>
         x = Multi [x_train_of example_framework, x_train_of example_framework]) ?tr"
    unfolding list_all_iff using t by blast
  moreover have "times Fit ?tr = 1"
    using pipeline_order_outcome[OF run_outcome[OF y_network_emits run]]
    by (simp add: y_stage_list pipeline_stage_lists)
  ultimately show ?thesis using example_y_run by simp
qed

section \<open>Rounding to float32 and the unit interval\<close>

lemma round_half_even_le:
  assumes "q \<le> of_int N"
  shows "round_half_even q \<le> N"
proof -
  have f: "\<lfloor>q\<rfloor> \<le> N" using assms by (simp add: floor_le_iff)
  show ?thesis
  proof (cases "\<lfloor>q\<rfloor> = N")
    case True
    then have "q - of_int \<lfloor>q\<rfloor> \<le> 0" using assms by simp
    then have "q - of_int \<lfloor>q\<rfloor> < 1 / 2" by simp
    then show ?thesis using True by (simp add: round_half_even_def Let_def)
  next
    case False
    with f have "\<lfloor>q\<rfloor> + 1 \<le> N" by simp
    then show ?thesis using f by (simp add: round_half_even_def Let_def)
  qed
qed

lemma round_half_even_nonneg:
  assumes "0 \<le> q"
  shows "0 \<le> round_half_even q"
proof -
  have "0 \<le> \<lfloor>q\<rfloor>" using assms by simp
  then show ?thesis by (simp add: round_half_even_def Let_def)
qed

lemma bitlen_mono: "a \<le> b \<Longrightarrow> bitlen a \<le> bitlen b"
  by (simp add: bitlen_def floorlog_mono nat_mono)

lemma ilog2_le_0:
  assumes "0 < x" and "x \<le> 1"
  shows "ilog2 x \<le> 0"
proof -
  obtain a b where q: "quotient_of x = (a, b)" by (cases "quotient_of x")
  have b: "0 < b" using q by (rule quotient_of_denom_pos)
  have x: "x = of_int a / of_int b" using q by (rule quotient_of_div)
  have "of_int a \<le> (of_int b :: rat)"
    using assms(2) b unfolding x by (simp add: divide_le_eq)
  then have "a \<le> b" by simp
  then have "bitlen a - bitlen b \<le> 0" using bitlen_mono[of a b] by simp
  then show ?thesis by (simp add: ilog2_def q Let_def)
qed

lemma rn32_unit_interval:
  assumes "0 \<le> x" and "x \<le> 1"
  shows "0 \<le> rn32 x \<and> rn32 x \<le> 1"
proof (cases "x = 0")
  case True
  then show ?thesis by (simp add: rn32_def)
next
  case False
  with assms have pos: "0 < x" by simp
  define e where "e = max (ilog2 \<bar>x\<bar>) (- 126) - 23"
  define k where "k = nat (- e)"
  define u :: rat where "u = 2 powi e"
  have "ilog2 \<bar>x\<bar> \<le> 0" using ilog2_le_0[of "\<bar>x\<bar>"] pos assms(2) by simp
  then have e: "e < 0" by (simp add: e_def)
  have "u = inverse 2 ^ k"
    using e by (simp add: u_def k_def power_int_def)
  then have u: "u = 1 / 2 ^ k"
    by (simp add: inverse_eq_divide power_one_over)
  have upos: "0 < u" by (simp add: u)
  have q: "x / u = x * 2 ^ k" by (simp add: u)
  have "x / u \<le> of_int (2 ^ k)"
    unfolding q using assms(2) by (simp add: mult_le_cancel_right1)
  then have hi: "round_half_even (x / u) \<le> 2 ^ k" by (rule round_half_even_le)
  have "0 \<le> x / u" unfolding q using assms(1) by simp
  then have lo: "0 \<le> round_half_even (x / u)" by (rule round_half_even_nonneg)
  have r: "rn32 x = of_int (round_half_even (x / u)) * u"
    using False by (simp add: rn32_def u_def e_def Let_def)
  have "of_int (round_half_even (x / u)) * u \<le> of_int (2 ^ k) * u"
    using hi upos by (simp add: mult_le_cancel_right)
  also have "\<dots> = 1" by (simp add: u)
  finally have "rn32 x \<le> 1" by (simp add: r)
  moreover have "0 \<le> rn32 x" unfolding r using lo upos by simp
  ultimately show ?thesis by simp
qed

lemma byte_over_255:
  fixes a :: rat
  assumes "0 \<le> a" and "a \<le> 255"
  shows "0 \<le> a / of_int 255" and "a / of_int 255 \<le> 1"
  using assms by simp_all

lemma pixel_unit_interval:
  fixes p :: uint8
  shows "0 \<le> rn32 (of_nat (unat p) / of_int 255) \<and> rn32 (of_nat (unat p) / of_int 255) \<le> 1"
proof -
  have "unat p < 2 ^ 8" using unsigned_less[of p] by simp
  then have "unat p \<le> 255" by simp
  then have hi: "(of_nat (unat p) :: rat) \<le> 255" by (metis of_nat_le_iff of_nat_numeral)
  have lo: "(0::rat) \<le> of_nat (unat p)" by (rule of_nat_0_le_iff)
  show ?thesis
    by (rule rn32_unit_interval) (rule byte_over_255[OF lo hi])+
qed

lemma normalized_data:
  "data (true_divide (astype_float32 x) 255) =
     map (\<lambda>p. rn32 (of_nat (unat p) / of_int 255)) (data x)"
  by (simp add: true_divide_def astype_float32_def comp_def)

lemma normalized_unit_interval:
  "\<forall>e\<in>set (data (true_divide (astype_float32 x) 255)). 0 \<le> e \<and> e \<le> 1"
  unfolding normalized_data using pixel_unit_interval by auto

section \<open>Runs in which no call raises\<close>

lemma outcome_no_raise:
  assumes "outcome fw 0 v cs [] r tr"
    and "\<forall>i<length tr. raised_by fw i (call_of (tr ! i)) = None"
  shows "r = Inr v \<and> tr = map Returned cs"
proof (cases r)
  case (Inr x)
  with assms(1) show ?thesis by (simp add: outcome_Inr)
next
  case (Inl e)
  from assms(1)[unfolded Inl] obtain k where k: "k < length cs"
    "tr = [] @ map Returned (take k cs) @ [Raised (cs ! k) e]"
    "raised_by fw (0 + k) (cs ! k) = Some e"
    by (rule outcome_InlE)
  have len: "length tr = Suc k" using k(1,2) by simp
  have nth: "tr ! k = Raised (cs ! k) e" using k(1) by (simp add: k(2) nth_append)
  from assms(2) len have "raised_by fw k (call_of (tr ! k)) = None" by simp
  with nth k(3) show ?thesis by simp
qed

lemma outcome_nonempty:
  assumes "outcome fw 0 v cs [] r tr" and "cs \<noteq> []"
  shows "tr \<noteq> [] \<and> call_of (hd tr) = hd cs"
proof (cases r)
  case (Inr x)
  with assms(1) have "tr = map Returned cs" by (simp add: outcome_Inr)
  with assms(2) show ?thesis by (cases cs) simp_all
next
  case (Inl e)
  from assms(1)[unfolded Inl] obtain k where k: "k < length cs"
    "tr = [] @ map Returned (take k cs) @ [Raised (cs ! k) e]"
    by (rule outcome_InlE)
  show ?thesis
  proof (cases k)
    case 0
    with k assms(2) show ?thesis by (cases cs) simp_all
  next
    case (Suc k')
    with k assms(2) show ?thesis by (cases cs) simp_all
  qed
qed

lemma outcome_before_returned:
  assumes "outcome fw 0 v cs [] r tr" and "i < length tr" and "j < i"
  shows "raised_by fw j (cs ! j) = None"
proof (cases r)
  case (Inr x)
  with assms(1) have "tr = map Returned cs"
    and none: "\<forall>k<length cs. raised_by fw k (cs ! k) = None"
    by (simp_all add: outcome_Inr)
  with assms(2,3) show ?thesis by simp
next
  case (Inl e)
  from assms(1)[unfolded Inl] obtain k where k: "k < length cs"
    "tr = [] @ map Returned (take k cs) @ [Raised (cs ! k) e]"
    "\<forall>j<k. raised_by fw (0 + j) (cs ! j) = None"
    by (rule outcome_InlE)
  have "length tr = Suc k" using k(1,2) by simp
  with assms(2,3) have "j < k" by simp
  with k(3) show ?thesis by simp
qed

lemma nth_not_in_take:
  assumes "i < length cs" and "cs ! i \<notin> set (take n cs)"
  shows "n \<le> i"
proof (rule ccontr)
  assume "\<not> n \<le> i"
  then have "i < n" by simp
  with assms(1) have "cs ! i \<in> set (take n cs)"
    by (metis in_set_conv_nth length_take min_less_iff_conj nth_take)
  with assms(2) show False by simp
qed

lemma outcome_earlier:
  assumes o: "outcome fw 0 v cs [] r tr" and ev: "ev \<in> set tr"
    and notin: "call_of ev \<notin> set (take n cs)" and j: "j < n"
  shows "raised_by fw j (cs ! j) = None" and "own_error (cs ! j) = None"
proof -
  from ev obtain i where i: "i < length tr" "tr ! i = ev" by (auto simp: in_set_conv_nth)
  have ilen: "i < length cs" using i(1) outcome_calls(2)[OF o] by simp
  have "call_of ev = cs ! i" using outcome_nth_call[OF o i(1)] i(2) by simp
  with notin have "cs ! i \<notin> set (take n cs)" by simp
  with ilen have "n \<le> i" by (rule nth_not_in_take)
  with j have "j < i" by simp
  with o i(1) show none: "raised_by fw j (cs ! j) = None" by (rule outcome_before_returned)
  then show "own_error (cs ! j) = None"
    by (simp add: raised_by_def split: option.splits)
qed

lemma error_of_None: "error_of r = None \<Longrightarrow> r = Inr (projr r)"
  by (cases r) (simp_all add: error_of_def)

lemma unpack2_Inr:
  assumes "error_of (unpack2 xs) = None"
  shows "length xs = 2 \<and> snd (projr (unpack2 xs)) = xs ! 1"
proof -
  from assms have "\<exists>p. unpack2 xs = Inr p" by (cases "unpack2 xs") (simp_all add: error_of_def)
  then obtain a b where "xs = [a, b]"
    by (auto simp: unpack2_def split: list.splits)
  then show ?thesis by (simp add: unpack2_def)
qed

lemma subscript_Inr:
  assumes "error_of (subscript xs i) = None"
  shows "i < length xs \<and> projr (subscript xs i) = xs ! i"
  using assms by (simp add: subscript_def error_of_def split: if_splits)

lemma cnn_last_calls:
  "take 34 (cnn_mnist_calls fw) ! 33 = Unpack2 (evaluate_scores fw)"
  "length (cnn_mnist_calls fw) = 35"
  "\<forall>c\<in>set (take 34 (cnn_mnist_calls fw)). \<forall>fmt v. c \<noteq> Print_percent fmt v"
  "\<forall>c\<in>set (cnn_mnist_calls fw). \<forall>fmt v. c = Print_percent fmt v \<longrightarrow>
      fmt = accuracy_format \<and> v = snd (projr (unpack2 (evaluate_scores fw)))"
  "hd (cnn_mnist_calls fw) = Mnist_load_data"
  by (simp_all add: calls_defs)

lemma y_last_calls:
  "take 45 (y_network_calls fw) ! 44 = Subscript (evaluate_scores fw) 1"
  "length (y_network_calls fw) = 46"
  "\<forall>c\<in>set (take 45 (y_network_calls fw)). \<forall>fmt v. c \<noteq> Print_percent fmt v"
  "\<forall>c\<in>set (y_network_calls fw). \<forall>fmt v. c = Print_percent fmt v \<longrightarrow>
      fmt = accuracy_format \<and> v = projr (subscript (evaluate_scores fw) 1)"
  "hd (y_network_calls fw) = Mnist_load_data"
  by (simp_all add: calls_defs)

lemma cnn_print_pinned:
  assumes run: "run cnn_mnist fw = (r, tr)" and ev: "ev \<in> set tr"
    and c: "call_of ev = Print_percent fmt v"
  shows "fmt = accuracy_format \<and> 1 < length (evaluate_scores fw) \<and> v = evaluate_scores fw ! 1"
proof -
  note o = run_outcome[OF cnn_mnist_emits run]
  from cnn_call_in[OF run ev] c cnn_last_calls(4)[of fw]
  have fv: "fmt = accuracy_format" "v = snd (projr (unpack2 (evaluate_scores fw)))" by auto
  have "call_of ev \<notin> set (take 34 (cnn_mnist_calls fw))"
    using c cnn_last_calls(3)[of fw] by auto
  from outcome_earlier(2)[OF o ev this, of 33]
  have "own_error (cnn_mnist_calls fw ! 33) = None" by simp
  moreover have "cnn_mnist_calls fw ! 33 = Unpack2 (evaluate_scores fw)"
    using cnn_last_calls(1)[of fw] by simp
  ultimately have "error_of (unpack2 (evaluate_scores fw)) = None" by simp
  from unpack2_Inr[OF this] fv show ?thesis by simp
qed

lemma y_print_pinned:
  assumes run: "run y_network fw = (r, tr)" and ev: "ev \<in> set tr"
    and c: "call_of ev = Print_percent fmt v"
  shows "fmt = accuracy_format \<and> 1 < length (evaluate_scores fw) \<and> v = evaluate_scores fw ! 1"
proof -
  note o = run_outcome[OF y_network_emits run]
  from y_call_in[OF run ev] c y_last_calls(4)[of fw]
  have fv: "fmt = accuracy_format" "v = projr (subscript (evaluate_scores fw) 1)" by auto
  have "call_of ev \<notin> set (take 45 (y_network_calls fw))"
    using c y_last_calls(3)[of fw] by auto
  from outcome_earlier(2)[OF o ev this, of 44]
  have "own_error (y_network_calls fw ! 44) = None" by simp
  moreover have "y_network_calls fw ! 44 = Subscript (evaluate_scores fw) 1"
    using y_last_calls(1)[of fw] by simp
  ultimately have "error_of (subscript (evaluate_scores fw) 1) = None" by simp
  from subscript_Inr[OF this] fv show ?thesis by simp
qed

lemma cnn_data_uses:
  assumes run: "run cnn_mnist fw = (r, tr)" and ev: "ev \<in> set tr"
  shows "(\<forall>m x y v epochs batch_size. call_of ev = Model_fit m x y v epochs batch_size \<longrightarrow>
            set (arrays x) = {x_train_of fw} \<and> y = y_train_of fw) \<and>
         (\<forall>m x y batch_size. call_of ev = Model_evaluate m x y batch_size \<longrightarrow>
            set (arrays x) = {x_test_of fw} \<and> y = y_test_of fw)"
  using cnn_call_in[OF run ev] cnn_model_uses[of fw] by fastforce

lemma y_data_uses:
  assumes run: "run y_network fw = (r, tr)" and ev: "ev \<in> set tr"
  shows "(\<forall>m x y v epochs batch_size. call_of ev = Model_fit m x y v epochs batch_size \<longrightarrow>
            set (arrays x) = {x_train_of fw} \<and> y = y_train_of fw) \<and>
         (\<forall>m x y batch_size. call_of ev = Model_evaluate m x y batch_size \<longrightarrow>
            set (arrays x) = {x_test_of fw} \<and> y = y_test_of fw)"
  using y_call_in[OF run ev] y_model_uses[of fw] by fastforce

lemma notebook_outcome:
  assumes "notebook = cnn_mnist \<or> notebook = y_network" and "run notebook fw = (r, tr)"
  obtains cs where "outcome fw 0 () cs [] r tr" and "cs \<noteq> []" and "hd cs = Mnist_load_data"
    and "pipeline (map stage_of cs)"
  using assms(1)
proof
  assume nb: "notebook = cnn_mnist"
  show thesis
  proof (rule that)
    show "outcome fw 0 () (cnn_mnist_calls fw) [] r tr"
      by (rule run_outcome[OF cnn_mnist_emits assms(2)[unfolded nb]])
    show "cnn_mnist_calls fw \<noteq> []" using cnn_last_calls(2)[of fw] by auto
    show "hd (cnn_mnist_calls fw) = Mnist_load_data" by (rule cnn_last_calls(5))
    show "pipeline (map stage_of (cnn_mnist_calls fw))"
      by (simp add: cnn_stage_list pipeline_stage_lists)
  qed
next
  assume nb: "notebook = y_network"
  show thesis
  proof (rule that)
    show "outcome fw 0 () (y_network_calls fw) [] r tr"
      by (rule run_outcome[OF y_network_emits assms(2)[unfolded nb]])
    show "y_network_calls fw \<noteq> []" using y_last_calls(2)[of fw] by auto
    show "hd (y_network_calls fw) = Mnist_load_data" by (rule y_last_calls(5))
    show "pipeline (map stage_of (y_network_calls fw))"
      by (simp add: y_stage_list pipeline_stage_lists)
  qed
qed

lemma run_ends_normally:
  assumes "notebook = cnn_mnist \<or> notebook = y_network" and "run notebook fw = (r, tr)"
    and "\<forall>i<length tr. raised_by fw i (call_of (tr ! i)) = None"
  shows "r = Inr ()"
proof -
  from assms(1,2) obtain cs where "outcome fw 0 () cs [] r tr" by (rule notebook_outcome)
  from outcome_no_raise[OF this assms(3)] show ?thesis by simp
qed

lemma run_starts_loading:
  assumes "notebook = cnn_mnist \<or> notebook = y_network" and "run notebook fw = (r, tr)"
  shows "tr \<noteq> [] \<and> call_of (hd tr) = Mnist_load_data"
proof -
  from assms obtain cs where o: "outcome fw 0 () cs [] r tr" and ne: "cs \<noteq> []"
    and hd: "hd cs = Mnist_load_data"
    by (rule notebook_outcome)
  from outcome_nonempty[OF o ne] hd show ?thesis by simp
qed

text \<open>
  C2. Each notebook is a linear pipeline. Every run starts with \<^verbatim>\<open>mnist.load_data()\<close>, and
  its calls come stage by stage in the order load, build, compile, fit, evaluate, print:
  a call of an earlier stage is never made after a call of a later one, and \<^verbatim>\<open>compile\<close>,
  \<^verbatim>\<open>fit\<close> and \<^verbatim>\<open>evaluate\<close> are each called at most once. A run in which no call raises
  ends normally, and a run that ends normally has gone through all six stages, called
  each of the three exactly once and ended by printing. \<^verbatim>\<open>fit\<close> is given the training
  images and labels, \<^verbatim>\<open>evaluate\<close> the test images and labels, and what is printed is the
  second score \<^verbatim>\<open>evaluate\<close> returned, the accuracy.
\<close>

theorem pipeline_order:
  assumes "notebook = cnn_mnist \<or> notebook = y_network"
    and "run notebook fw = (r, tr)"
  shows "sorted (map rank (stages tr)) \<and>
         times Compile tr \<le> 1 \<and> times Fit tr \<le> 1 \<and> times Evaluate tr \<le> 1 \<and>
         (r = Inr () \<longrightarrow>
            times Compile tr = 1 \<and> times Fit tr = 1 \<and> times Evaluate tr = 1 \<and>
            remdups (stages tr) =
              [Load_data, Build_graph, Compile, Fit, Evaluate, Print_accuracy] \<and>
            last (stages tr) = Print_accuracy) \<and>
         ((\<forall>i<length tr. raised_by fw i (call_of (tr ! i)) = None) \<longrightarrow> r = Inr ()) \<and>
         (tr \<noteq> [] \<and> call_of (hd tr) = Mnist_load_data) \<and>
         (\<forall>ev\<in>set tr.
            (\<forall>m x y v epochs batch_size. call_of ev = Model_fit m x y v epochs batch_size \<longrightarrow>
               set (arrays x) = {x_train_of fw} \<and> y = y_train_of fw) \<and>
            (\<forall>m x y batch_size. call_of ev = Model_evaluate m x y batch_size \<longrightarrow>
               set (arrays x) = {x_test_of fw} \<and> y = y_test_of fw) \<and>
            (\<forall>fmt v. call_of ev = Print_percent fmt v \<longrightarrow>
               fmt = accuracy_format \<and> 1 < length (evaluate_scores fw) \<and>
               v = evaluate_scores fw ! 1))"
proof -
  from assms obtain cs where o: "outcome fw 0 () cs [] r tr"
    and p: "pipeline (map stage_of cs)"
    by (rule notebook_outcome)
  note a = pipeline_order_outcome[OF o p]
  have b: "(\<forall>i<length tr. raised_by fw i (call_of (tr ! i)) = None) \<longrightarrow> r = Inr ()"
    using run_ends_normally[OF assms] by blast
  note c = run_starts_loading[OF assms]
  have d: "\<forall>ev\<in>set tr.
            (\<forall>m x y v epochs batch_size. call_of ev = Model_fit m x y v epochs batch_size \<longrightarrow>
               set (arrays x) = {x_train_of fw} \<and> y = y_train_of fw) \<and>
            (\<forall>m x y batch_size. call_of ev = Model_evaluate m x y batch_size \<longrightarrow>
               set (arrays x) = {x_test_of fw} \<and> y = y_test_of fw) \<and>
            (\<forall>fmt v. call_of ev = Print_percent fmt v \<longrightarrow>
               fmt = accuracy_format \<and> 1 < length (evaluate_scores fw) \<and>
               v = evaluate_scores fw ! 1)"
    using assms(1)
  proof
    assume nb: "notebook = cnn_mnist"
    note run = assms(2)[unfolded nb]
    show ?thesis
    proof (intro ballI conjI allI impI)
      fix ev m x y v epochs batch_size
      assume "ev \<in> set tr" "call_of ev = Model_fit m x y v epochs batch_size"
      with cnn_data_uses[OF run] show "set (arrays x) = {x_train_of fw}" "y = y_train_of fw"
        by blast+
    next
      fix ev m x y batch_size
      assume "ev \<in> set tr" "call_of ev = Model_evaluate m x y batch_size"
      with cnn_data_uses[OF run] show "set (arrays x) = {x_test_of fw}" "y = y_test_of fw"
        by blast+
    next
      fix ev fmt v
      assume "ev \<in> set tr" "call_of ev = Print_percent fmt v"
      from cnn_print_pinned[OF run this]
      show "fmt = accuracy_format" "1 < length (evaluate_scores fw)" "v = evaluate_scores fw ! 1"
        by simp_all
    qed
  next
    assume nb: "notebook = y_network"
    note run = assms(2)[unfolded nb]
    show ?thesis
    proof (intro ballI conjI allI impI)
      fix ev m x y v epochs batch_size
      assume "ev \<in> set tr" "call_of ev = Model_fit m x y v epochs batch_size"
      with y_data_uses[OF run] show "set (arrays x) = {x_train_of fw}" "y = y_train_of fw"
        by blast+
    next
      fix ev m x y batch_size
      assume "ev \<in> set tr" "call_of ev = Model_evaluate m x y batch_size"
      with y_data_uses[OF run] show "set (arrays x) = {x_test_of fw}" "y = y_test_of fw"
        by blast+
    next
      fix ev fmt v
      assume "ev \<in> set tr" "call_of ev = Print_percent fmt v"
      from y_print_pinned[OF run this]
      show "fmt = accuracy_format" "1 < length (evaluate_scores fw)" "v = evaluate_scores fw ! 1"
        by simp_all
    qed
  qed
  from a b c d show ?thesis by (intro conjI) simp_all
qed

lemma example_runs:
  "run cnn_mnist example_framework = (Inr (), map Returned (cnn_mnist_calls example_framework))"
  "run y_network example_framework = (Inr (), map Returned (y_network_calls example_framework))"
proof -
  have 1: "run cnn_mnist example_framework = (Inr (), snd (run cnn_mnist example_framework))"
    using example_cnn_run by (simp add: prod_eq_iff)
  have 2: "run y_network example_framework = (Inr (), snd (run y_network example_framework))"
    using example_y_run by (simp add: prod_eq_iff)
  show "run cnn_mnist example_framework =
      (Inr (), map Returned (cnn_mnist_calls example_framework))"
    using run_success[OF cnn_mnist_emits 1] 1 by simp
  show "run y_network example_framework =
      (Inr (), map Returned (y_network_calls example_framework))"
    using run_success[OF y_network_emits 2] 2 by simp
qed

theorem pipeline_order_witness:
  "run cnn_mnist example_framework =
     (Inr (), map Returned (cnn_mnist_calls example_framework)) \<and>
   run y_network example_framework =
     (Inr (), map Returned (y_network_calls example_framework)) \<and>
   times Compile (map Returned (cnn_mnist_calls example_framework)) = 1 \<and>
   times Fit (map Returned (cnn_mnist_calls example_framework)) = 1 \<and>
   times Evaluate (map Returned (cnn_mnist_calls example_framework)) = 1 \<and>
   remdups (stages (map Returned (cnn_mnist_calls example_framework))) =
     [Load_data, Build_graph, Compile, Fit, Evaluate, Print_accuracy] \<and>
   times Compile (map Returned (y_network_calls example_framework)) = 1 \<and>
   times Fit (map Returned (y_network_calls example_framework)) = 1 \<and>
   times Evaluate (map Returned (y_network_calls example_framework)) = 1 \<and>
   remdups (stages (map Returned (y_network_calls example_framework))) =
     [Load_data, Build_graph, Compile, Fit, Evaluate, Print_accuracy]"
  using pipeline_order[OF disjI1[OF refl] example_runs(1)]
    pipeline_order[OF disjI2[OF refl] example_runs(2)] example_runs
  by (intro conjI) simp_all

lemma compile_calls_in:
  "Model_compile (Sequential (sequential_layers fw)) ''categorical_crossentropy'' ''sgd''
     [''accuracy''] \<in> set (cnn_mnist_calls fw)"
  "Model_compile (y_model fw) ''categorical_crossentropy'' ''sgd''
     [''accuracy''] \<in> set (y_network_calls fw)"
  by (simp_all add: calls_defs)

text \<open>
  C8. Whenever a run of either notebook calls \<^verbatim>\<open>compile\<close>, the loss is
  \<^verbatim>\<open>'categorical_crossentropy'\<close>, the optimizer is \<^verbatim>\<open>'sgd'\<close> (so it is not Adam) and the
  metric is accuracy. A run in which no call raises ends normally, and a run that ends
  normally has compiled its model, the Sequential stack or the Y-Network, exactly once
  in this way. (The comments that mention Adam are not code and have no counterpart
  here.)
\<close>

theorem compiled_with_sgd:
  assumes "notebook = cnn_mnist \<or> notebook = y_network"
    and "run notebook fw = (r, tr)"
  shows "(\<forall>ev\<in>set tr. \<forall>m l opt ms. call_of ev = Model_compile m l opt ms \<longrightarrow>
            l = ''categorical_crossentropy'' \<and> opt = ''sgd'' \<and>
            opt \<noteq> ''adam'' \<and> opt \<noteq> ''Adam'' \<and> ms = [''accuracy'']) \<and>
         times Compile tr \<le> 1 \<and>
         (r = Inr () \<longrightarrow> times Compile tr = 1) \<and>
         ((\<forall>i<length tr. raised_by fw i (call_of (tr ! i)) = None) \<longrightarrow> r = Inr ()) \<and>
         (notebook = cnn_mnist \<and> r = Inr () \<longrightarrow>
            Returned (Model_compile (Sequential (sequential_layers fw))
              ''categorical_crossentropy'' ''sgd'' [''accuracy'']) \<in> set tr) \<and>
         (notebook = y_network \<and> r = Inr () \<longrightarrow>
            Returned (Model_compile (y_model fw)
              ''categorical_crossentropy'' ''sgd'' [''accuracy'']) \<in> set tr)"
proof -
  from assms obtain cs where o: "outcome fw 0 () cs [] r tr"
    and p: "pipeline (map stage_of cs)"
    by (rule notebook_outcome)
  note a = pipeline_order_outcome[OF o p]
  have 1: "\<forall>ev\<in>set tr. \<forall>m l opt ms. call_of ev = Model_compile m l opt ms \<longrightarrow>
            l = ''categorical_crossentropy'' \<and> opt = ''sgd'' \<and>
            opt \<noteq> ''adam'' \<and> opt \<noteq> ''Adam'' \<and> ms = [''accuracy'']"
    using assms(1)
  proof
    assume nb: "notebook = cnn_mnist"
    show ?thesis using cnn_call_in[OF assms(2)[unfolded nb]] cnn_compiles by fastforce
  next
    assume nb: "notebook = y_network"
    show ?thesis using y_call_in[OF assms(2)[unfolded nb]] y_compiles by fastforce
  qed
  have 2: "times Compile tr \<le> 1" using a by simp
  have 3: "r = Inr () \<longrightarrow> times Compile tr = 1" using a by simp
  have 4: "(\<forall>i<length tr. raised_by fw i (call_of (tr ! i)) = None) \<longrightarrow> r = Inr ()"
    using run_ends_normally[OF assms] by blast
  have 5: "notebook = cnn_mnist \<and> r = Inr () \<longrightarrow>
            Returned (Model_compile (Sequential (sequential_layers fw))
              ''categorical_crossentropy'' ''sgd'' [''accuracy'']) \<in> set tr"
  proof
    assume h: "notebook = cnn_mnist \<and> r = Inr ()"
    with assms(2) have "run cnn_mnist fw = (Inr (), tr)" by simp
    from run_success[OF cnn_mnist_emits this] compile_calls_in(1)[of fw]
    show "Returned (Model_compile (Sequential (sequential_layers fw))
              ''categorical_crossentropy'' ''sgd'' [''accuracy'']) \<in> set tr"
      by simp
  qed
  have 6: "notebook = y_network \<and> r = Inr () \<longrightarrow>
            Returned (Model_compile (y_model fw)
              ''categorical_crossentropy'' ''sgd'' [''accuracy'']) \<in> set tr"
  proof
    assume h: "notebook = y_network \<and> r = Inr ()"
    with assms(2) have "run y_network fw = (Inr (), tr)" by simp
    from run_success[OF y_network_emits this] compile_calls_in(2)[of fw]
    show "Returned (Model_compile (y_model fw)
              ''categorical_crossentropy'' ''sgd'' [''accuracy'']) \<in> set tr"
      by simp
  qed
  from 1 2 3 4 5 6 show ?thesis by (intro conjI)
qed

theorem compiled_with_sgd_witness:
  "run cnn_mnist example_framework =
     (Inr (), map Returned (cnn_mnist_calls example_framework)) \<and>
   run y_network example_framework =
     (Inr (), map Returned (y_network_calls example_framework)) \<and>
   times Compile (map Returned (cnn_mnist_calls example_framework)) = 1 \<and>
   times Compile (map Returned (y_network_calls example_framework)) = 1 \<and>
   Returned (Model_compile (Sequential (sequential_layers example_framework))
     ''categorical_crossentropy'' ''sgd'' [''accuracy''])
     \<in> set (map Returned (cnn_mnist_calls example_framework)) \<and>
   Returned (Model_compile (y_model example_framework)
     ''categorical_crossentropy'' ''sgd'' [''accuracy''])
     \<in> set (map Returned (y_network_calls example_framework))"
proof -
  note t1 = compiled_with_sgd[OF disjI1[OF refl] example_runs(1)]
  note t2 = compiled_with_sgd[OF disjI2[OF refl] example_runs(2)]
  have "times Compile (map Returned (cnn_mnist_calls example_framework)) = 1"
    using t1 by blast
  moreover have "times Compile (map Returned (y_network_calls example_framework)) = 1"
    using t2 by blast
  moreover have "Returned (Model_compile (Sequential (sequential_layers example_framework))
     ''categorical_crossentropy'' ''sgd'' [''accuracy''])
     \<in> set (map Returned (cnn_mnist_calls example_framework))"
    using t1 by blast
  moreover have "Returned (Model_compile (y_model example_framework)
     ''categorical_crossentropy'' ''sgd'' [''accuracy''])
     \<in> set (map Returned (y_network_calls example_framework))"
    using t2 by blast
  ultimately show ?thesis using example_runs by (intro conjI)
qed





section \<open>The construction loops\<close>

lemma left_branch_emits:
  "emits fw n (left_branch fw 64 3 3 [0..<3] x) (branch_tensor left_conv x)
     (branch_calls left_conv x)"
proof -
  have "\<exists>cs. emits fw n (left_branch fw 64 3 3 [0..<3] x) (branch_tensor left_conv x) cs \<and>
      cs = branch_calls left_conv x"
    unfolding left_branch_3 branch_tensor_def left_conv_def
    apply (rule exI, rule conjI)
     apply (rule emits_steps emits_invoke_Inr | simp only: prod.case)+
    apply (simp_all add: error_of_def branch_calls_def)
    done
  then show ?thesis by simp
qed

lemma right_branch_emits:
  "emits fw n (right_branch fw 64 3 3 [0..<3] x) (branch_tensor right_conv x)
     (branch_calls right_conv x)"
proof -
  have "\<exists>cs. emits fw n (right_branch fw 64 3 3 [0..<3] x) (branch_tensor right_conv x) cs \<and>
      cs = branch_calls right_conv x"
    unfolding right_branch_3 branch_tensor_def right_conv_def
    apply (rule exI, rule conjI)
     apply (rule emits_steps emits_invoke_Inr | simp only: prod.case)+
    apply (simp_all add: error_of_def branch_calls_def)
    done
  then show ?thesis by simp
qed

lemma branch_calls_facts:
  "length (branch_calls c x) = 10"
  "\<forall>c'\<in>set (branch_calls c x). own_error c' = None"
  by (simp_all add: branch_calls_def)

lemma branch_raised_by:
  assumes "k < 10"
  shows "raised_by fw i (branch_calls c x ! k) = raises fw i (branch_calls c x ! k)"
proof -
  from assms have "branch_calls c x ! k \<in> set (branch_calls c x)"
    by (simp add: branch_calls_facts(1))
  with branch_calls_facts(2) have "own_error (branch_calls c x ! k) = None" by blast
  then show ?thesis by (simp add: raised_by_def split: option.splits)
qed

lemma loop_outcome:
  assumes "outcome fw (length tr) (branch_tensor c x) (branch_calls c x) tr r tr'"
  shows "(r = Inr (branch_tensor c x) \<and> tr' = tr @ map Returned (branch_calls c x)) \<or>
         (\<exists>e k. k < 10 \<and> r = Inl e \<and>
            raises fw (length tr + k) (branch_calls c x ! k) = Some e \<and>
            tr' = tr @ map Returned (take k (branch_calls c x)) @
                    [Raised (branch_calls c x ! k) e])"
proof (cases r)
  case (Inr v)
  with assms show ?thesis by (simp add: outcome_Inr)
next
  case (Inl e)
  with assms have "outcome fw (length tr) (branch_tensor c x) (branch_calls c x) tr (Inl e) tr'"
    by simp
  then obtain k where k: "k < length (branch_calls c x)"
    and t: "tr' = tr @ map Returned (take k (branch_calls c x)) @
                    [Raised (branch_calls c x ! k) e]"
    and e: "raised_by fw (length tr + k) (branch_calls c x ! k) = Some e"
    by (rule outcome_InlE)
  from k have k10: "k < 10" by (simp add: branch_calls_facts(1))
  from e branch_raised_by[OF k10] have "raises fw (length tr + k) (branch_calls c x ! k) = Some e"
    by simp
  with k10 t Inl show ?thesis by blast
qed

lemma loop_returns:
  assumes "outcome fw (length tr) (branch_tensor c x) (branch_calls c x) tr (fst p) (snd p)"
    and "\<forall>k<10. raises fw (length tr + k) (branch_calls c x ! k) = None"
  shows "p = (Inr (branch_tensor c x), tr @ map Returned (branch_calls c x))"
  using loop_outcome[OF assms(1)] assms(2) by (cases p) auto

lemma y_new_model_in:
  "New_Model [InputT 12 (input_shape_of fw), InputT 23 (input_shape_of fw)] (outputs_of fw)
     ''Y_Network'' \<in> set (y_network_calls fw)"
  by (simp add: calls_defs left_inputs_of_def right_inputs_of_def)

text \<open>
  C4. Each construction loop of the Y-Network notebook, run with depth 3 on a tensor
  \<open>x\<close>, makes ten calls: it creates and applies a \<^verbatim>\<open>Conv2D\<close>, a \<^verbatim>\<open>MaxPooling2D\<close>, a
  \<^verbatim>\<open>Conv2D\<close>, a \<^verbatim>\<open>MaxPooling2D\<close> and a \<^verbatim>\<open>Conv2D\<close>. If none of these calls raises, the
  loop returns, and its result is \<open>x\<close> under exactly these five layers, in the order
  Conv, Pool, Conv, Pool, Conv, with no pooling after the third convolution; otherwise
  the loop ends in the exception of the call that raised. The left loop's convolutions
  have no dilation, the right loop's have \<^verbatim>\<open>dilation_rate=2\<close>. In a run of the notebook
  the model is made from one such branch on each of the two \<^verbatim>\<open>Input\<close>s, the two
  concatenated under \<^verbatim>\<open>Flatten\<close> and the output layer; a run in which no call raises ends
  normally, and a run that ends normally has made this model.
\<close>

theorem branch_layers:
  "(left_branch fw 64 3 3 [0..<3] x tr = (Inr t, tr') \<longrightarrow>
      chain t = chain x @
        [Conv2D 64 3 ''same'' ''relu'' None None, MaxPooling2D,
         Conv2D 64 3 ''same'' ''relu'' None None, MaxPooling2D,
         Conv2D 64 3 ''same'' ''relu'' None None] \<and> origin t = origin x) \<and>
   (right_branch fw 64 3 3 [0..<3] x tr = (Inr t, tr') \<longrightarrow>
      chain t = chain x @
        [Conv2D 64 3 ''same'' ''relu'' (Some 2) None, MaxPooling2D,
         Conv2D 64 3 ''same'' ''relu'' (Some 2) None, MaxPooling2D,
         Conv2D 64 3 ''same'' ''relu'' (Some 2) None] \<and> origin t = origin x) \<and>
   ((\<forall>k<10. raises fw (length tr + k) (branch_calls left_conv x ! k) = None) \<longrightarrow>
      left_branch fw 64 3 3 [0..<3] x tr =
        (Inr (branch_tensor left_conv x), tr @ map Returned (branch_calls left_conv x))) \<and>
   ((\<forall>k<10. raises fw (length tr + k) (branch_calls right_conv x ! k) = None) \<longrightarrow>
      right_branch fw 64 3 3 [0..<3] x tr =
        (Inr (branch_tensor right_conv x), tr @ map Returned (branch_calls right_conv x))) \<and>
   (left_branch fw 64 3 3 [0..<3] x tr = (rl, trl) \<longrightarrow>
      (rl = Inr (branch_tensor left_conv x) \<and>
       trl = tr @ map Returned (branch_calls left_conv x)) \<or>
      (\<exists>e k. k < 10 \<and> rl = Inl e \<and>
         raises fw (length tr + k) (branch_calls left_conv x ! k) = Some e \<and>
         trl = tr @ map Returned (take k (branch_calls left_conv x)) @
                 [Raised (branch_calls left_conv x ! k) e])) \<and>
   (right_branch fw 64 3 3 [0..<3] x tr = (rr, trr) \<longrightarrow>
      (rr = Inr (branch_tensor right_conv x) \<and>
       trr = tr @ map Returned (branch_calls right_conv x)) \<or>
      (\<exists>e k. k < 10 \<and> rr = Inl e \<and>
         raises fw (length tr + k) (branch_calls right_conv x ! k) = Some e \<and>
         trr = tr @ map Returned (take k (branch_calls right_conv x)) @
                 [Raised (branch_calls right_conv x ! k) e])) \<and>
   chain (branch_tensor left_conv x) = chain x @
     [Conv2D 64 3 ''same'' ''relu'' None None, MaxPooling2D,
      Conv2D 64 3 ''same'' ''relu'' None None, MaxPooling2D,
      Conv2D 64 3 ''same'' ''relu'' None None] \<and>
   chain (branch_tensor right_conv x) = chain x @
     [Conv2D 64 3 ''same'' ''relu'' (Some 2) None, MaxPooling2D,
      Conv2D 64 3 ''same'' ''relu'' (Some 2) None, MaxPooling2D,
      Conv2D 64 3 ''same'' ''relu'' (Some 2) None] \<and>
   map Returned (branch_calls left_conv x) =
     [Returned (New_layer left_conv), Returned (Call_layer left_conv x),
      Returned (New_layer MaxPooling2D), Returned (Call_layer MaxPooling2D (Apply left_conv x)),
      Returned (New_layer left_conv),
      Returned (Call_layer left_conv (Apply MaxPooling2D (Apply left_conv x))),
      Returned (New_layer MaxPooling2D),
      Returned (Call_layer MaxPooling2D
        (Apply left_conv (Apply MaxPooling2D (Apply left_conv x)))),
      Returned (New_layer left_conv),
      Returned (Call_layer left_conv
        (Apply MaxPooling2D (Apply left_conv (Apply MaxPooling2D (Apply left_conv x)))))] \<and>
   (run y_network fw = (r, trace) \<longrightarrow>
      (\<forall>ev\<in>set trace. \<forall>ins out name. call_of ev = New_Model ins out name \<longrightarrow>
         (\<exists>left right head.
            ins = [origin left, origin right] \<and>
            out = Apply head (Apply Flatten (Concat [left, right])) \<and>
            chain left =
              [Conv2D 64 3 ''same'' ''relu'' None None, MaxPooling2D,
               Conv2D 64 3 ''same'' ''relu'' None None, MaxPooling2D,
               Conv2D 64 3 ''same'' ''relu'' None None] \<and>
            chain right =
              [Conv2D 64 3 ''same'' ''relu'' (Some 2) None, MaxPooling2D,
               Conv2D 64 3 ''same'' ''relu'' (Some 2) None, MaxPooling2D,
               Conv2D 64 3 ''same'' ''relu'' (Some 2) None])) \<and>
      ((\<forall>i<length trace. raised_by fw i (call_of (trace ! i)) = None) \<longrightarrow> r = Inr ()) \<and>
      (r = Inr () \<longrightarrow>
         Returned (New_Model [InputT 12 (input_shape_of fw), InputT 23 (input_shape_of fw)]
           (outputs_of fw) ''Y_Network'') \<in> set trace))"
proof -
  have 1: "left_branch fw 64 3 3 [0..<3] x tr = (Inr t, tr') \<longrightarrow>
      chain t = chain x @
        [Conv2D 64 3 ''same'' ''relu'' None None, MaxPooling2D,
         Conv2D 64 3 ''same'' ''relu'' None None, MaxPooling2D,
         Conv2D 64 3 ''same'' ''relu'' None None] \<and> origin t = origin x"
  proof
    assume "left_branch fw 64 3 3 [0..<3] x tr = (Inr t, tr')"
    from left_branch_chain[OF this]
    show "chain t = chain x @
        [Conv2D 64 3 ''same'' ''relu'' None None, MaxPooling2D,
         Conv2D 64 3 ''same'' ''relu'' None None, MaxPooling2D,
         Conv2D 64 3 ''same'' ''relu'' None None] \<and> origin t = origin x"
      by (simp add: conv_pool_3)
  qed
  have 2: "right_branch fw 64 3 3 [0..<3] x tr = (Inr t, tr') \<longrightarrow>
      chain t = chain x @
        [Conv2D 64 3 ''same'' ''relu'' (Some 2) None, MaxPooling2D,
         Conv2D 64 3 ''same'' ''relu'' (Some 2) None, MaxPooling2D,
         Conv2D 64 3 ''same'' ''relu'' (Some 2) None] \<and> origin t = origin x"
  proof
    assume "right_branch fw 64 3 3 [0..<3] x tr = (Inr t, tr')"
    from right_branch_chain[OF this]
    show "chain t = chain x @
        [Conv2D 64 3 ''same'' ''relu'' (Some 2) None, MaxPooling2D,
         Conv2D 64 3 ''same'' ''relu'' (Some 2) None, MaxPooling2D,
         Conv2D 64 3 ''same'' ''relu'' (Some 2) None] \<and> origin t = origin x"
      by (simp add: conv_pool_3)
  qed
  have lo: "outcome fw (length tr) (branch_tensor left_conv x) (branch_calls left_conv x) tr
      (fst (left_branch fw 64 3 3 [0..<3] x tr)) (snd (left_branch fw 64 3 3 [0..<3] x tr))"
    by (rule emitsD[OF left_branch_emits refl]) simp
  have ro: "outcome fw (length tr) (branch_tensor right_conv x) (branch_calls right_conv x) tr
      (fst (right_branch fw 64 3 3 [0..<3] x tr)) (snd (right_branch fw 64 3 3 [0..<3] x tr))"
    by (rule emitsD[OF right_branch_emits refl]) simp
  have 3: "(\<forall>k<10. raises fw (length tr + k) (branch_calls left_conv x ! k) = None) \<longrightarrow>
      left_branch fw 64 3 3 [0..<3] x tr =
        (Inr (branch_tensor left_conv x), tr @ map Returned (branch_calls left_conv x))"
    using loop_returns[OF lo] by (rule impI)
  have 4: "(\<forall>k<10. raises fw (length tr + k) (branch_calls right_conv x ! k) = None) \<longrightarrow>
      right_branch fw 64 3 3 [0..<3] x tr =
        (Inr (branch_tensor right_conv x), tr @ map Returned (branch_calls right_conv x))"
    using loop_returns[OF ro] by (rule impI)
  have 5: "left_branch fw 64 3 3 [0..<3] x tr = (rl, trl) \<longrightarrow>
      (rl = Inr (branch_tensor left_conv x) \<and>
       trl = tr @ map Returned (branch_calls left_conv x)) \<or>
      (\<exists>e k. k < 10 \<and> rl = Inl e \<and>
         raises fw (length tr + k) (branch_calls left_conv x ! k) = Some e \<and>
         trl = tr @ map Returned (take k (branch_calls left_conv x)) @
                 [Raised (branch_calls left_conv x ! k) e])"
  proof
    assume "left_branch fw 64 3 3 [0..<3] x tr = (rl, trl)"
    with lo have "outcome fw (length tr) (branch_tensor left_conv x)
        (branch_calls left_conv x) tr rl trl" by simp
    then show "(rl = Inr (branch_tensor left_conv x) \<and>
       trl = tr @ map Returned (branch_calls left_conv x)) \<or>
      (\<exists>e k. k < 10 \<and> rl = Inl e \<and>
         raises fw (length tr + k) (branch_calls left_conv x ! k) = Some e \<and>
         trl = tr @ map Returned (take k (branch_calls left_conv x)) @
                 [Raised (branch_calls left_conv x ! k) e])"
      by (rule loop_outcome)
  qed
  have 6: "right_branch fw 64 3 3 [0..<3] x tr = (rr, trr) \<longrightarrow>
      (rr = Inr (branch_tensor right_conv x) \<and>
       trr = tr @ map Returned (branch_calls right_conv x)) \<or>
      (\<exists>e k. k < 10 \<and> rr = Inl e \<and>
         raises fw (length tr + k) (branch_calls right_conv x ! k) = Some e \<and>
         trr = tr @ map Returned (take k (branch_calls right_conv x)) @
                 [Raised (branch_calls right_conv x ! k) e])"
  proof
    assume "right_branch fw 64 3 3 [0..<3] x tr = (rr, trr)"
    with ro have "outcome fw (length tr) (branch_tensor right_conv x)
        (branch_calls right_conv x) tr rr trr" by simp
    then show "(rr = Inr (branch_tensor right_conv x) \<and>
       trr = tr @ map Returned (branch_calls right_conv x)) \<or>
      (\<exists>e k. k < 10 \<and> rr = Inl e \<and>
         raises fw (length tr + k) (branch_calls right_conv x ! k) = Some e \<and>
         trr = tr @ map Returned (take k (branch_calls right_conv x)) @
                 [Raised (branch_calls right_conv x ! k) e])"
      by (rule loop_outcome)
  qed
  have 7: "chain (branch_tensor left_conv x) = chain x @
     [Conv2D 64 3 ''same'' ''relu'' None None, MaxPooling2D,
      Conv2D 64 3 ''same'' ''relu'' None None, MaxPooling2D,
      Conv2D 64 3 ''same'' ''relu'' None None]"
    by (simp add: branch_tensor_chain left_conv_def)
  have 8: "chain (branch_tensor right_conv x) = chain x @
     [Conv2D 64 3 ''same'' ''relu'' (Some 2) None, MaxPooling2D,
      Conv2D 64 3 ''same'' ''relu'' (Some 2) None, MaxPooling2D,
      Conv2D 64 3 ''same'' ''relu'' (Some 2) None]"
    by (simp add: branch_tensor_chain right_conv_def)
  have 9: "map Returned (branch_calls left_conv x) =
     [Returned (New_layer left_conv), Returned (Call_layer left_conv x),
      Returned (New_layer MaxPooling2D), Returned (Call_layer MaxPooling2D (Apply left_conv x)),
      Returned (New_layer left_conv),
      Returned (Call_layer left_conv (Apply MaxPooling2D (Apply left_conv x))),
      Returned (New_layer MaxPooling2D),
      Returned (Call_layer MaxPooling2D
        (Apply left_conv (Apply MaxPooling2D (Apply left_conv x)))),
      Returned (New_layer left_conv),
      Returned (Call_layer left_conv
        (Apply MaxPooling2D (Apply left_conv (Apply MaxPooling2D (Apply left_conv x)))))]"
    by (simp add: branch_calls_def)
  have 10: "run y_network fw = (r, trace) \<longrightarrow>
      (\<forall>ev\<in>set trace. \<forall>ins out name. call_of ev = New_Model ins out name \<longrightarrow>
         (\<exists>left right head.
            ins = [origin left, origin right] \<and>
            out = Apply head (Apply Flatten (Concat [left, right])) \<and>
            chain left =
              [Conv2D 64 3 ''same'' ''relu'' None None, MaxPooling2D,
               Conv2D 64 3 ''same'' ''relu'' None None, MaxPooling2D,
               Conv2D 64 3 ''same'' ''relu'' None None] \<and>
            chain right =
              [Conv2D 64 3 ''same'' ''relu'' (Some 2) None, MaxPooling2D,
               Conv2D 64 3 ''same'' ''relu'' (Some 2) None, MaxPooling2D,
               Conv2D 64 3 ''same'' ''relu'' (Some 2) None])) \<and>
      ((\<forall>i<length trace. raised_by fw i (call_of (trace ! i)) = None) \<longrightarrow> r = Inr ()) \<and>
      (r = Inr () \<longrightarrow>
         Returned (New_Model [InputT 12 (input_shape_of fw), InputT 23 (input_shape_of fw)]
           (outputs_of fw) ''Y_Network'') \<in> set trace)"
  proof
    assume run: "run y_network fw = (r, trace)"
    have a: "\<forall>ev\<in>set trace. \<forall>ins out name. call_of ev = New_Model ins out name \<longrightarrow>
         (\<exists>left right head.
            ins = [origin left, origin right] \<and>
            out = Apply head (Apply Flatten (Concat [left, right])) \<and>
            chain left =
              [Conv2D 64 3 ''same'' ''relu'' None None, MaxPooling2D,
               Conv2D 64 3 ''same'' ''relu'' None None, MaxPooling2D,
               Conv2D 64 3 ''same'' ''relu'' None None] \<and>
            chain right =
              [Conv2D 64 3 ''same'' ''relu'' (Some 2) None, MaxPooling2D,
               Conv2D 64 3 ''same'' ''relu'' (Some 2) None, MaxPooling2D,
               Conv2D 64 3 ''same'' ''relu'' (Some 2) None])"
    proof (intro ballI allI impI)
      fix ev ins out name
      assume ev: "ev \<in> set trace" and c: "call_of ev = New_Model ins out name"
      let ?l = "branch_tensor left_conv (left_inputs_of fw)"
      let ?r = "branch_tensor right_conv (right_inputs_of fw)"
      from y_call_in[OF run ev] c y_model_calls
      have io: "ins = [left_inputs_of fw, right_inputs_of fw]" "out = outputs_of fw"
        by fastforce+
      have "ins = [origin ?l, origin ?r]"
        by (simp add: io branch_tensor_chain left_inputs_of_def right_inputs_of_def)
      moreover have "out = Apply (Dense (num_labels_of fw) (Some ''softmax''))
          (Apply Flatten (Concat [?l, ?r]))"
        by (simp add: io outputs_of_def merged_of_def)
      moreover have "chain ?l =
              [Conv2D 64 3 ''same'' ''relu'' None None, MaxPooling2D,
               Conv2D 64 3 ''same'' ''relu'' None None, MaxPooling2D,
               Conv2D 64 3 ''same'' ''relu'' None None]"
        by (simp add: branch_tensor_chain left_conv_def left_inputs_of_def)
      moreover have "chain ?r =
              [Conv2D 64 3 ''same'' ''relu'' (Some 2) None, MaxPooling2D,
               Conv2D 64 3 ''same'' ''relu'' (Some 2) None, MaxPooling2D,
               Conv2D 64 3 ''same'' ''relu'' (Some 2) None]"
        by (simp add: branch_tensor_chain right_conv_def right_inputs_of_def)
      ultimately show "\<exists>left right head.
            ins = [origin left, origin right] \<and>
            out = Apply head (Apply Flatten (Concat [left, right])) \<and>
            chain left =
              [Conv2D 64 3 ''same'' ''relu'' None None, MaxPooling2D,
               Conv2D 64 3 ''same'' ''relu'' None None, MaxPooling2D,
               Conv2D 64 3 ''same'' ''relu'' None None] \<and>
            chain right =
              [Conv2D 64 3 ''same'' ''relu'' (Some 2) None, MaxPooling2D,
               Conv2D 64 3 ''same'' ''relu'' (Some 2) None, MaxPooling2D,
               Conv2D 64 3 ''same'' ''relu'' (Some 2) None]"
        by blast
    qed
    have b: "(\<forall>i<length trace. raised_by fw i (call_of (trace ! i)) = None) \<longrightarrow> r = Inr ()"
      using run_ends_normally[OF disjI2[OF refl] run] by blast
    have c: "r = Inr () \<longrightarrow>
         Returned (New_Model [InputT 12 (input_shape_of fw), InputT 23 (input_shape_of fw)]
           (outputs_of fw) ''Y_Network'') \<in> set trace"
    proof
      assume "r = Inr ()"
      with run have "run y_network fw = (Inr (), trace)" by simp
      from run_success[OF y_network_emits this] y_new_model_in[of fw]
      show "Returned (New_Model [InputT 12 (input_shape_of fw), InputT 23 (input_shape_of fw)]
           (outputs_of fw) ''Y_Network'') \<in> set trace"
        by simp
    qed
    from a b c show "(\<forall>ev\<in>set trace. \<forall>ins out name. call_of ev = New_Model ins out name \<longrightarrow>
         (\<exists>left right head.
            ins = [origin left, origin right] \<and>
            out = Apply head (Apply Flatten (Concat [left, right])) \<and>
            chain left =
              [Conv2D 64 3 ''same'' ''relu'' None None, MaxPooling2D,
               Conv2D 64 3 ''same'' ''relu'' None None, MaxPooling2D,
               Conv2D 64 3 ''same'' ''relu'' None None] \<and>
            chain right =
              [Conv2D 64 3 ''same'' ''relu'' (Some 2) None, MaxPooling2D,
               Conv2D 64 3 ''same'' ''relu'' (Some 2) None, MaxPooling2D,
               Conv2D 64 3 ''same'' ''relu'' (Some 2) None])) \<and>
      ((\<forall>i<length trace. raised_by fw i (call_of (trace ! i)) = None) \<longrightarrow> r = Inr ()) \<and>
      (r = Inr () \<longrightarrow>
         Returned (New_Model [InputT 12 (input_shape_of fw), InputT 23 (input_shape_of fw)]
           (outputs_of fw) ''Y_Network'') \<in> set trace)"
      by (intro conjI)
  qed
  from 1 2 3 4 5 6 7 8 9 10 show ?thesis by (intro conjI)
qed

theorem branch_layers_witness:
  "left_branch example_framework 64 3 3 [0..<3] (InputT 12 (4, 4, 1)) [] =
     (Inr (branch_tensor left_conv (InputT 12 (4, 4, 1))),
      [] @ map Returned (branch_calls left_conv (InputT 12 (4, 4, 1)))) \<and>
   right_branch example_framework 64 3 3 [0..<3] (InputT 23 (4, 4, 1)) [] =
     (Inr (branch_tensor right_conv (InputT 23 (4, 4, 1))),
      [] @ map Returned (branch_calls right_conv (InputT 23 (4, 4, 1)))) \<and>
   chain (branch_tensor left_conv (InputT 12 (4, 4, 1))) = chain (InputT 12 (4, 4, 1)) @
     [Conv2D 64 3 ''same'' ''relu'' None None, MaxPooling2D,
      Conv2D 64 3 ''same'' ''relu'' None None, MaxPooling2D,
      Conv2D 64 3 ''same'' ''relu'' None None] \<and>
   chain (branch_tensor right_conv (InputT 23 (4, 4, 1))) = chain (InputT 23 (4, 4, 1)) @
     [Conv2D 64 3 ''same'' ''relu'' (Some 2) None, MaxPooling2D,
      Conv2D 64 3 ''same'' ''relu'' (Some 2) None, MaxPooling2D,
      Conv2D 64 3 ''same'' ''relu'' (Some 2) None] \<and>
   run y_network example_framework =
     (Inr (), map Returned (y_network_calls example_framework)) \<and>
   Returned (New_Model [InputT 12 (input_shape_of example_framework),
       InputT 23 (input_shape_of example_framework)]
     (outputs_of example_framework) ''Y_Network'')
     \<in> set (map Returned (y_network_calls example_framework))"
proof -
  have n: "\<forall>k<10. raises example_framework (length ([] :: event list) + k)
      (branch_calls c x ! k) = None" for c x
    by (simp add: example_framework_def)
  note tl = branch_layers[where fw = example_framework and x = "InputT 12 (4, 4, 1)"
      and tr = "[]" and r = "Inr ()"
      and trace = "map Returned (y_network_calls example_framework)"]
  note tr = branch_layers[where fw = example_framework and x = "InputT 23 (4, 4, 1)"
      and tr = "[]"]
  note l3 = tl[THEN conjunct2, THEN conjunct2, THEN conjunct1]
  note r4 = tr[THEN conjunct2, THEN conjunct2, THEN conjunct2, THEN conjunct1]
  note l7 = tl[THEN conjunct2, THEN conjunct2, THEN conjunct2, THEN conjunct2,
      THEN conjunct2, THEN conjunct2, THEN conjunct1]
  note r8 = tr[THEN conjunct2, THEN conjunct2, THEN conjunct2, THEN conjunct2,
      THEN conjunct2, THEN conjunct2, THEN conjunct2, THEN conjunct1]
  note y10 = tl[THEN conjunct2, THEN conjunct2, THEN conjunct2, THEN conjunct2,
      THEN conjunct2, THEN conjunct2, THEN conjunct2, THEN conjunct2, THEN conjunct2]
  have 1: "left_branch example_framework 64 3 3 [0..<3] (InputT 12 (4, 4, 1)) [] =
     (Inr (branch_tensor left_conv (InputT 12 (4, 4, 1))),
      [] @ map Returned (branch_calls left_conv (InputT 12 (4, 4, 1))))"
    by (rule l3[THEN mp, OF n])
  have 2: "right_branch example_framework 64 3 3 [0..<3] (InputT 23 (4, 4, 1)) [] =
     (Inr (branch_tensor right_conv (InputT 23 (4, 4, 1))),
      [] @ map Returned (branch_calls right_conv (InputT 23 (4, 4, 1))))"
    by (rule r4[THEN mp, OF n])
  have 5: "Returned (New_Model [InputT 12 (input_shape_of example_framework),
       InputT 23 (input_shape_of example_framework)]
     (outputs_of example_framework) ''Y_Network'')
     \<in> set (map Returned (y_network_calls example_framework))"
    by (rule y10[THEN mp, OF example_runs(2), THEN conjunct2, THEN conjunct2, THEN mp, OF refl])
  from 1 2 l7 r8 example_runs(2) 5 show ?thesis by (intro conjI)
qed

section \<open>The two notebooks side by side\<close>

lemma cnn_calls_split:
  "take 12 (cnn_mnist_calls fw) = preprocessing_calls fw"
  "drop 29 (cnn_mnist_calls fw) =
     [Model_summary (Sequential (sequential_layers fw)),
      Model_compile (Sequential (sequential_layers fw))
        ''categorical_crossentropy'' ''sgd'' [''accuracy''],
      Model_fit (Sequential (sequential_layers fw)) (Single (x_train_of fw)) (y_train_of fw)
        None 20 128,
      Model_evaluate (Sequential (sequential_layers fw)) (Single (x_test_of fw)) (y_test_of fw) 128,
      Unpack2 (evaluate_scores fw),
      Print_percent accuracy_format (snd (projr (unpack2 (evaluate_scores fw))))]"
  by (simp_all add: cnn_mnist_calls_def preprocessing_calls_def upt8 add_calls_def)

lemma y_calls_split:
  "take 12 (y_network_calls fw) = preprocessing_calls fw"
  "drop 40 (y_network_calls fw) =
     [Model_summary (y_model fw),
      Model_compile (y_model fw) ''categorical_crossentropy'' ''sgd'' [''accuracy''],
      Model_fit (y_model fw) (Multi [x_train_of fw, x_train_of fw]) (y_train_of fw)
        (Some (Multi [x_test_of fw, x_test_of fw], y_test_of fw)) 20 128,
      Model_evaluate (y_model fw) (Multi [x_test_of fw, x_test_of fw]) (y_test_of fw) 128,
      Subscript (evaluate_scores fw) 1,
      Print_percent accuracy_format (projr (subscript (evaluate_scores fw) 1))]"
  by (simp_all add: y_network_calls_def preprocessing_calls_def branch_calls_def)

lemma same_score:
  assumes "length xs = 2"
  shows "snd (projr (unpack2 xs)) = projr (subscript xs 1)"
proof -
  from assms obtain a b where "xs = [a, b]"
    by (cases xs; cases "tl xs"; cases "tl (tl xs)") auto
  then show ?thesis by (simp add: unpack2_def subscript_def)
qed

lemma head_fused:
  "fuse_activation (drop 5 (sequential_layers fw)) = chain (outputs_of fw)"
  by (simp add: stack_and_head)

lemma run_calls:
  assumes "notebook = cnn_mnist \<and> cs = cnn_mnist_calls fw \<or>
           notebook = y_network \<and> cs = y_network_calls fw"
    and "run notebook fw = (r, tr)"
  shows "map call_of tr = take (length tr) cs"
    and "r = Inr () \<longrightarrow> tr = map Returned cs"
    and "(\<forall>i<length tr. raised_by fw i (call_of (tr ! i)) = None) \<longrightarrow> r = Inr ()"
proof -
  have o: "outcome fw 0 () cs [] r tr"
    using assms(1)
  proof
    assume h: "notebook = cnn_mnist \<and> cs = cnn_mnist_calls fw"
    from assms(2) h have "run cnn_mnist fw = (r, tr)" by simp
    from run_outcome[OF cnn_mnist_emits this] h show ?thesis by simp
  next
    assume h: "notebook = y_network \<and> cs = y_network_calls fw"
    from assms(2) h have "run y_network fw = (r, tr)" by simp
    from run_outcome[OF y_network_emits this] h show ?thesis by simp
  qed
  show "map call_of tr = take (length tr) cs" by (rule outcome_calls(1)[OF o])
  show "r = Inr () \<longrightarrow> tr = map Returned cs"
  proof
    assume "r = Inr ()"
    with o show "tr = map Returned cs" by (simp add: outcome_Inr)
  qed
  show "(\<forall>i<length tr. raised_by fw i (call_of (tr ! i)) = None) \<longrightarrow> r = Inr ()"
    using outcome_no_raise[OF o] by simp
qed

lemma fit_calls_at:
  "cnn_mnist_calls fw ! 31 =
     Model_fit (Sequential (sequential_layers fw)) (Single (x_train_of fw)) (y_train_of fw)
       None 20 128"
  "y_network_calls fw ! 42 =
     Model_fit (y_model fw) (Multi [x_train_of fw, x_train_of fw]) (y_train_of fw)
       (Some (Multi [x_test_of fw, x_test_of fw], y_test_of fw)) 20 128"
proof -
  have "cnn_mnist_calls fw ! (29 + 2) = drop 29 (cnn_mnist_calls fw) ! 2"
    by (simp add: cnn_last_calls(2))
  then show "cnn_mnist_calls fw ! 31 =
     Model_fit (Sequential (sequential_layers fw)) (Single (x_train_of fw)) (y_train_of fw)
       None 20 128"
    by (simp add: cnn_calls_split(2))
  have "y_network_calls fw ! (40 + 2) = drop 40 (y_network_calls fw) ! 2"
    by (simp add: y_last_calls(2))
  then show "y_network_calls fw ! 42 =
     Model_fit (y_model fw) (Multi [x_train_of fw, x_train_of fw]) (y_train_of fw)
       (Some (Multi [x_test_of fw, x_test_of fw], y_test_of fw)) 20 128"
    by (simp add: y_calls_split(2))
qed

lemma right_branch_dilated:
  "\<not> list_all2 same_config
       (chain (model_branches (y_model fw) ! 1)) (take 5 (sequential_layers fw))"
  "map conv_dilation_rate
     (filter (\<lambda>l. l \<noteq> MaxPooling2D) (chain (model_branches (y_model fw) ! 1))) =
     [Some 2, Some 2, Some 2]"
  "map conv_dilation_rate
     (filter (\<lambda>l. l \<noteq> MaxPooling2D) (take 5 (sequential_layers fw))) = [None, None, None]"
  by (simp_all add: y_model_branches branch_tensor_chain right_inputs_of_def right_conv_def
      sequential_layers_def)

lemma run_fitted:
  "run cnn_mnist fw = (r1, tr1) \<Longrightarrow>
     \<forall>m\<in>set (fitted tr1). m = Sequential (sequential_layers fw)"
  "run y_network fw = (r2, tr2) \<Longrightarrow> \<forall>m\<in>set (fitted tr2). m = y_model fw"
proof -
  show "\<forall>m\<in>set (fitted tr1). m = Sequential (sequential_layers fw)"
    if run: "run cnn_mnist fw = (r1, tr1)"
  proof
    fix m assume "m \<in> set (fitted tr1)"
    then obtain ev where ev: "ev \<in> set tr1" and m: "m \<in> set (fitted_model (call_of ev))"
      by (auto simp: fitted_def)
    from m obtain x y v e b where "call_of ev = Model_fit m x y v e b"
      by (cases "call_of ev") simp_all
    with cnn_call_in[OF run ev] cnn_model_uses[of fw]
    show "m = Sequential (sequential_layers fw)" by fastforce
  qed
  show "\<forall>m\<in>set (fitted tr2). m = y_model fw"
    if run: "run y_network fw = (r2, tr2)"
  proof
    fix m assume "m \<in> set (fitted tr2)"
    then obtain ev where ev: "ev \<in> set tr2" and m: "m \<in> set (fitted_model (call_of ev))"
      by (auto simp: fitted_def)
    from m obtain x y v e b where "call_of ev = Model_fit m x y v e b"
      by (cases "call_of ev") simp_all
    with y_call_in[OF run ev] y_model_uses[of fw]
    show "m = y_model fw" by fastforce
  qed
qed

text \<open>
  C1, as the specification states it, does not hold. On a dataset of two 4 by 4 images
  both notebooks run to their end, and the models they have fitted differ in more than
  the number of branches and the concatenation: each \<^verbatim>\<open>Conv2D\<close> of the Y-Network's right
  branch has \<^verbatim>\<open>dilation_rate=2\<close>, while no \<^verbatim>\<open>Conv2D\<close> of the Sequential stack has a
  dilation, so the right branch does not have the stack's configuration. The calls of
  \<^verbatim>\<open>fit\<close> differ as well: only the Y-Network notebook passes \<^verbatim>\<open>validation_data\<close>.
\<close>

theorem identical_configuration_counterexample:
  "run cnn_mnist example_framework =
     (Inr (), map Returned (cnn_mnist_calls example_framework)) \<and>
   run y_network example_framework =
     (Inr (), map Returned (y_network_calls example_framework)) \<and>
   fitted (snd (run cnn_mnist example_framework)) =
     [Sequential (sequential_layers example_framework)] \<and>
   fitted (snd (run y_network example_framework)) = [y_model example_framework] \<and>
   \<not> list_all2 same_config
       (chain (model_branches (y_model example_framework) ! 1))
       (take 5 (sequential_layers example_framework)) \<and>
   map conv_dilation_rate
     (filter (\<lambda>l. l \<noteq> MaxPooling2D) (chain (model_branches (y_model example_framework) ! 1))) =
     [Some 2, Some 2, Some 2] \<and>
   map conv_dilation_rate
     (filter (\<lambda>l. l \<noteq> MaxPooling2D) (take 5 (sequential_layers example_framework))) =
     [None, None, None] \<and>
   call_of (snd (run cnn_mnist example_framework) ! 31) =
     Model_fit (Sequential (sequential_layers example_framework))
       (Single (x_train_of example_framework)) (y_train_of example_framework) None 20 128 \<and>
   call_of (snd (run y_network example_framework) ! 42) =
     Model_fit (y_model example_framework)
       (Multi [x_train_of example_framework, x_train_of example_framework])
       (y_train_of example_framework)
       (Some (Multi [x_test_of example_framework, x_test_of example_framework],
              y_test_of example_framework)) 20 128"
proof -
  have 1: "fitted (snd (run cnn_mnist example_framework)) =
     [Sequential (sequential_layers example_framework)]"
    by (simp add: example_runs cnn_fitted)
  have 2: "fitted (snd (run y_network example_framework)) = [y_model example_framework]"
    by (simp add: example_runs y_fitted)
  have 3: "call_of (snd (run cnn_mnist example_framework) ! 31) =
     Model_fit (Sequential (sequential_layers example_framework))
       (Single (x_train_of example_framework)) (y_train_of example_framework) None 20 128"
    by (simp add: example_runs cnn_last_calls(2) fit_calls_at)
  have 4: "call_of (snd (run y_network example_framework) ! 42) =
     Model_fit (y_model example_framework)
       (Multi [x_train_of example_framework, x_train_of example_framework])
       (y_train_of example_framework)
       (Some (Multi [x_test_of example_framework, x_test_of example_framework],
              y_test_of example_framework)) 20 128"
    by (simp add: example_runs y_last_calls(2) fit_calls_at)
  from example_runs 1 2 right_branch_dilated[of example_framework] 3 4
  show ?thesis by (intro conjI)
qed

text \<open>
  C1, amended. Both notebooks preprocess the data with the same twelve calls, compile
  with the same loss, optimizer and metric, and train for 20 epochs with batch size 128 on
  the same arrays and labels. Their layer graphs differ in that the Y-Network declares
  two branches on two \<^verbatim>\<open>Input\<close>s and concatenates them before the classification
  layers, and in the right branch's \<^verbatim>\<open>dilation_rate=2\<close>: the left branch has, layer by
  layer, the configuration of the Sequential stack's Conv-Pool-Conv-Pool-Conv section
  (filters, kernel size, padding, activation, no dilation, pooling after the first and
  second convolution), and the right branch is the left branch with \<^verbatim>\<open>dilation_rate=2\<close>
  on each \<^verbatim>\<open>Conv2D\<close>. Both graphs end in \<^verbatim>\<open>Flatten\<close> and a \<^verbatim>\<open>Dense(num_labels)\<close> with
  softmax, written as a separate \<^verbatim>\<open>Activation\<close> layer in the Sequential notebook and as
  the \<^verbatim>\<open>Dense\<close> layer's activation in the Y-Network. Outside the layer graph the
  Y-Network notebook passes each array twice, passes \<^verbatim>\<open>validation_data\<close> to \<^verbatim>\<open>fit\<close>, and
  reads the accuracy as \<^verbatim>\<open>score[1]\<close> where the Sequential notebook unpacks
  \<^verbatim>\<open>loss, acc\<close>; when \<^verbatim>\<open>evaluate\<close> returns two numbers both print the same one. Every run
  makes a prefix of these calls, all of them when it ends normally, and it ends normally
  when no call raises.
\<close>

theorem branches_and_stack:
  "list_all2 same_config
     (chain (model_branches (y_model fw) ! 0)) (take 5 (sequential_layers fw)) \<and>
   list_all2 same_config
     (map (with_dilation None) (chain (model_branches (y_model fw) ! 1)))
     (take 5 (sequential_layers fw)) \<and>
   chain (model_branches (y_model fw) ! 1) =
     map (with_dilation (Some 2)) (chain (model_branches (y_model fw) ! 0)) \<and>
   length (model_branches (y_model fw)) = 2 \<and>
   drop 5 (sequential_layers fw) =
     [Flatten, Dense (num_labels_of fw) None, Activation ''softmax''] \<and>
   chain (outputs_of fw) = [Flatten, Dense (num_labels_of fw) (Some ''softmax'')] \<and>
   origin (outputs_of fw) = Concat (model_branches (y_model fw)) \<and>
   fuse_activation (drop 5 (sequential_layers fw)) = chain (outputs_of fw) \<and>
   take 12 (cnn_mnist_calls fw) = take 12 (y_network_calls fw) \<and>
   drop 29 (cnn_mnist_calls fw) =
     [Model_summary (Sequential (sequential_layers fw)),
      Model_compile (Sequential (sequential_layers fw))
        ''categorical_crossentropy'' ''sgd'' [''accuracy''],
      Model_fit (Sequential (sequential_layers fw)) (Single (x_train_of fw)) (y_train_of fw)
        None 20 128,
      Model_evaluate (Sequential (sequential_layers fw)) (Single (x_test_of fw)) (y_test_of fw) 128,
      Unpack2 (evaluate_scores fw),
      Print_percent accuracy_format (snd (projr (unpack2 (evaluate_scores fw))))] \<and>
   drop 40 (y_network_calls fw) =
     [Model_summary (y_model fw),
      Model_compile (y_model fw) ''categorical_crossentropy'' ''sgd'' [''accuracy''],
      Model_fit (y_model fw) (Multi [x_train_of fw, x_train_of fw]) (y_train_of fw)
        (Some (Multi [x_test_of fw, x_test_of fw], y_test_of fw)) 20 128,
      Model_evaluate (y_model fw) (Multi [x_test_of fw, x_test_of fw]) (y_test_of fw) 128,
      Subscript (evaluate_scores fw) 1,
      Print_percent accuracy_format (projr (subscript (evaluate_scores fw) 1))] \<and>
   (length (evaluate_scores fw) = 2 \<longrightarrow>
      snd (projr (unpack2 (evaluate_scores fw))) = projr (subscript (evaluate_scores fw) 1)) \<and>
   (run cnn_mnist fw = (r1, tr1) \<longrightarrow>
      map call_of tr1 = take (length tr1) (cnn_mnist_calls fw) \<and>
      (r1 = Inr () \<longrightarrow> tr1 = map Returned (cnn_mnist_calls fw)) \<and>
      ((\<forall>i<length tr1. raised_by fw i (call_of (tr1 ! i)) = None) \<longrightarrow> r1 = Inr ()) \<and>
      (\<forall>m\<in>set (fitted tr1). m = Sequential (sequential_layers fw))) \<and>
   (run y_network fw = (r2, tr2) \<longrightarrow>
      map call_of tr2 = take (length tr2) (y_network_calls fw) \<and>
      (r2 = Inr () \<longrightarrow> tr2 = map Returned (y_network_calls fw)) \<and>
      ((\<forall>i<length tr2. raised_by fw i (call_of (tr2 ! i)) = None) \<longrightarrow> r2 = Inr ()) \<and>
      (\<forall>m\<in>set (fitted tr2). m = y_model fw))"
proof -
  have p: "take 12 (cnn_mnist_calls fw) = take 12 (y_network_calls fw)"
    by (simp only: cnn_calls_split(1) y_calls_split(1))
  have s: "length (evaluate_scores fw) = 2 \<longrightarrow>
      snd (projr (unpack2 (evaluate_scores fw))) = projr (subscript (evaluate_scores fw) 1)"
    using same_score by (rule impI)
  have g1: "run cnn_mnist fw = (r1, tr1) \<longrightarrow>
      map call_of tr1 = take (length tr1) (cnn_mnist_calls fw) \<and>
      (r1 = Inr () \<longrightarrow> tr1 = map Returned (cnn_mnist_calls fw)) \<and>
      ((\<forall>i<length tr1. raised_by fw i (call_of (tr1 ! i)) = None) \<longrightarrow> r1 = Inr ()) \<and>
      (\<forall>m\<in>set (fitted tr1). m = Sequential (sequential_layers fw))"
  proof
    assume run: "run cnn_mnist fw = (r1, tr1)"
    have c: "cnn_mnist = cnn_mnist \<and> cnn_mnist_calls fw = cnn_mnist_calls fw \<or>
        cnn_mnist = y_network \<and> cnn_mnist_calls fw = y_network_calls fw"
      by simp
    from run_calls[OF c run] run_fitted(1)[OF run]
    show "map call_of tr1 = take (length tr1) (cnn_mnist_calls fw) \<and>
      (r1 = Inr () \<longrightarrow> tr1 = map Returned (cnn_mnist_calls fw)) \<and>
      ((\<forall>i<length tr1. raised_by fw i (call_of (tr1 ! i)) = None) \<longrightarrow> r1 = Inr ()) \<and>
      (\<forall>m\<in>set (fitted tr1). m = Sequential (sequential_layers fw))"
      by (intro conjI)
  qed
  have g2: "run y_network fw = (r2, tr2) \<longrightarrow>
      map call_of tr2 = take (length tr2) (y_network_calls fw) \<and>
      (r2 = Inr () \<longrightarrow> tr2 = map Returned (y_network_calls fw)) \<and>
      ((\<forall>i<length tr2. raised_by fw i (call_of (tr2 ! i)) = None) \<longrightarrow> r2 = Inr ()) \<and>
      (\<forall>m\<in>set (fitted tr2). m = y_model fw)"
  proof
    assume run: "run y_network fw = (r2, tr2)"
    have c: "y_network = cnn_mnist \<and> y_network_calls fw = cnn_mnist_calls fw \<or>
        y_network = y_network \<and> y_network_calls fw = y_network_calls fw"
      by simp
    from run_calls[OF c run] run_fitted(2)[OF run]
    show "map call_of tr2 = take (length tr2) (y_network_calls fw) \<and>
      (r2 = Inr () \<longrightarrow> tr2 = map Returned (y_network_calls fw)) \<and>
      ((\<forall>i<length tr2. raised_by fw i (call_of (tr2 ! i)) = None) \<longrightarrow> r2 = Inr ()) \<and>
      (\<forall>m\<in>set (fitted tr2). m = y_model fw)"
      by (intro conjI)
  qed
  from stack_like_left[of fw] y_branch_chains(1)[of fw] y_branch_inputs(1)[of fw]
    stack_and_head[of fw] head_fused[of fw] p cnn_calls_split(2)[of fw] y_calls_split(2)[of fw]
    s g1 g2
  show ?thesis by (intro conjI)
qed

theorem branches_and_stack_witness:
  "run cnn_mnist example_framework =
     (Inr (), map Returned (cnn_mnist_calls example_framework)) \<and>
   run y_network example_framework =
     (Inr (), map Returned (y_network_calls example_framework)) \<and>
   list_all (\<lambda>m. m = Sequential (sequential_layers example_framework))
     (fitted (map Returned (cnn_mnist_calls example_framework))) \<and>
   list_all (\<lambda>m. m = y_model example_framework)
     (fitted (map Returned (y_network_calls example_framework))) \<and>
   length (evaluate_scores example_framework) = 2 \<and>
   snd (projr (unpack2 (evaluate_scores example_framework))) =
     projr (subscript (evaluate_scores example_framework) 1) \<and>
   list_all2 same_config
     (chain (model_branches (y_model example_framework) ! 0))
     (take 5 (sequential_layers example_framework))"
proof -
  note t = branches_and_stack[of example_framework "Inr ()"
      "map Returned (cnn_mnist_calls example_framework)" "Inr ()"
      "map Returned (y_network_calls example_framework)"]
  note t1 = t[THEN conjunct1]
  note t12 = t[THEN conjunct2, THEN conjunct2, THEN conjunct2, THEN conjunct2, THEN conjunct2,
      THEN conjunct2, THEN conjunct2, THEN conjunct2, THEN conjunct2, THEN conjunct2,
      THEN conjunct2]
  note ts = t12[THEN conjunct1]
  note tc = t12[THEN conjunct2, THEN conjunct1, THEN mp, OF example_runs(1)]
  note ty = t12[THEN conjunct2, THEN conjunct2, THEN mp, OF example_runs(2)]
  have len: "length (evaluate_scores example_framework) = 2"
    by (simp add: example_framework_def)
  have 1: "list_all (\<lambda>m. m = Sequential (sequential_layers example_framework))
     (fitted (map Returned (cnn_mnist_calls example_framework)))"
    unfolding list_all_iff
    by (rule tc[THEN conjunct2, THEN conjunct2, THEN conjunct2])
  have 2: "list_all (\<lambda>m. m = y_model example_framework)
     (fitted (map Returned (y_network_calls example_framework)))"
    unfolding list_all_iff
    by (rule ty[THEN conjunct2, THEN conjunct2, THEN conjunct2])
  from example_runs 1 2 len ts[THEN mp, OF len] t1 show ?thesis by (intro conjI)
qed

section \<open>The arrays and labels given to the model\<close>

lemma reshape_keeps_data:
  assumes "error_of (np_reshape x s) = None"
  shows "data (projr (np_reshape x s)) = data x"
  using assms by (auto simp: np_reshape_def Let_def error_of_def split: if_splits)

lemma preprocessing_at:
  "preprocessing_calls fw ! 6 =
     Np_reshape (train_images fw) [- 1, int (image_size_of fw), int (image_size_of fw), 1]"
  "preprocessing_calls fw ! 7 =
     Np_reshape (test_images fw) [- 1, int (image_size_of fw), int (image_size_of fw), 1]"
  "length (preprocessing_calls fw) = 12"
  "\<forall>c\<in>set (preprocessing_calls fw).
     (\<forall>m x y v e b. c \<noteq> Model_fit m x y v e b) \<and> (\<forall>m x y b. c \<noteq> Model_evaluate m x y b)"
  by (simp_all add: preprocessing_calls_def)

lemma preprocessed:
  assumes o: "outcome fw 0 () cs [] r tr" and p: "take 12 cs = preprocessing_calls fw"
    and ev: "ev \<in> set tr" and notin: "call_of ev \<notin> set (preprocessing_calls fw)"
  shows "data (reshaped fw (train_images fw)) = data (train_images fw)"
    and "data (reshaped fw (test_images fw)) = data (test_images fw)"
proof -
  from notin p have n: "call_of ev \<notin> set (take 12 cs)" by simp
  have len: "12 \<le> length cs"
    using arg_cong[OF p, of length] preprocessing_at(3)[of fw] by simp
  have at: "cs ! j = preprocessing_calls fw ! j" if "j < 12" for j
    using that p by (metis nth_take)
  have "own_error (cs ! 6) = None" by (rule outcome_earlier(2)[OF o ev n]) simp
  then have "error_of (np_reshape (train_images fw)
      [- 1, int (image_size_of fw), int (image_size_of fw), 1]) = None"
    by (simp add: at preprocessing_at)
  from reshape_keeps_data[OF this]
  show "data (reshaped fw (train_images fw)) = data (train_images fw)"
    by (simp add: reshaped_def)
  have "own_error (cs ! 7) = None" by (rule outcome_earlier(2)[OF o ev n]) simp
  then have "error_of (np_reshape (test_images fw)
      [- 1, int (image_size_of fw), int (image_size_of fw), 1]) = None"
    by (simp add: at preprocessing_at)
  from reshape_keeps_data[OF this]
  show "data (reshaped fw (test_images fw)) = data (test_images fw)"
    by (simp add: reshaped_def)
qed

lemma normalized_images:
  "data (x_train_of fw) =
     map (\<lambda>p. rn32 (of_nat (unat p) / 255)) (data (reshaped fw (train_images fw)))"
  "data (x_test_of fw) =
     map (\<lambda>p. rn32 (of_nat (unat p) / 255)) (data (reshaped fw (test_images fw)))"
  using normalized_data[of "reshaped fw (train_images fw)"]
    normalized_data[of "reshaped fw (test_images fw)"]
  by (simp_all add: x_train_of_def x_test_of_def)

lemma unit_interval_images:
  "\<forall>p\<in>set (data (x_train_of fw)). 0 \<le> p \<and> p \<le> 1"
  "\<forall>p\<in>set (data (x_test_of fw)). 0 \<le> p \<and> p \<le> 1"
  unfolding x_train_of_def x_test_of_def by (rule normalized_unit_interval)+

lemma data_calls_in:
  "Model_fit (Sequential (sequential_layers fw)) (Single (x_train_of fw)) (y_train_of fw)
     None 20 128 \<in> set (cnn_mnist_calls fw)"
  "Model_evaluate (Sequential (sequential_layers fw)) (Single (x_test_of fw)) (y_test_of fw) 128
     \<in> set (cnn_mnist_calls fw)"
  "Model_fit (y_model fw) (Multi [x_train_of fw, x_train_of fw]) (y_train_of fw)
     (Some (Multi [x_test_of fw, x_test_of fw], y_test_of fw)) 20 128
     \<in> set (y_network_calls fw)"
  "Model_evaluate (y_model fw) (Multi [x_test_of fw, x_test_of fw]) (y_test_of fw) 128
     \<in> set (y_network_calls fw)"
  by (simp_all add: cnn_mnist_calls_def y_network_calls_def)

lemma notebook_calls:
  assumes "notebook = cnn_mnist \<or> notebook = y_network" and "run notebook fw = (r, tr)"
  obtains cs where "outcome fw 0 () cs [] r tr" and "take 12 cs = preprocessing_calls fw"
    and "\<forall>c\<in>set cs.
      (\<forall>m x y v e b. c = Model_fit m x y v e b \<longrightarrow>
         arrays x \<noteq> [] \<and> (\<forall>a\<in>set (arrays x). a = x_train_of fw) \<and>
         (\<forall>vx vy. v = Some (vx, vy) \<longrightarrow> (\<forall>a\<in>set (arrays vx). a = x_test_of fw))) \<and>
      (\<forall>m x y b. c = Model_evaluate m x y b \<longrightarrow>
         arrays x \<noteq> [] \<and> (\<forall>a\<in>set (arrays x). a = x_test_of fw))"
    and "\<exists>m x y v e b. Model_fit m x y v e b \<in> set cs"
    and "\<exists>m x y b. Model_evaluate m x y b \<in> set cs"
  using assms(1)
proof
  assume nb: "notebook = cnn_mnist"
  show thesis
  proof (rule that)
    show "outcome fw 0 () (cnn_mnist_calls fw) [] r tr"
      by (rule run_outcome[OF cnn_mnist_emits assms(2)[unfolded nb]])
    show "take 12 (cnn_mnist_calls fw) = preprocessing_calls fw" by (rule cnn_calls_split(1))
    show "\<forall>c\<in>set (cnn_mnist_calls fw).
      (\<forall>m x y v e b. c = Model_fit m x y v e b \<longrightarrow>
         arrays x \<noteq> [] \<and> (\<forall>a\<in>set (arrays x). a = x_train_of fw) \<and>
         (\<forall>vx vy. v = Some (vx, vy) \<longrightarrow> (\<forall>a\<in>set (arrays vx). a = x_test_of fw))) \<and>
      (\<forall>m x y b. c = Model_evaluate m x y b \<longrightarrow>
         arrays x \<noteq> [] \<and> (\<forall>a\<in>set (arrays x). a = x_test_of fw))"
      using cnn_model_uses[of fw] by fastforce
    show "\<exists>m x y v e b. Model_fit m x y v e b \<in> set (cnn_mnist_calls fw)"
      using data_calls_in(1) by blast
    show "\<exists>m x y b. Model_evaluate m x y b \<in> set (cnn_mnist_calls fw)"
      using data_calls_in(2) by blast
  qed
next
  assume nb: "notebook = y_network"
  show thesis
  proof (rule that)
    show "outcome fw 0 () (y_network_calls fw) [] r tr"
      by (rule run_outcome[OF y_network_emits assms(2)[unfolded nb]])
    show "take 12 (y_network_calls fw) = preprocessing_calls fw" by (rule y_calls_split(1))
    show "\<forall>c\<in>set (y_network_calls fw).
      (\<forall>m x y v e b. c = Model_fit m x y v e b \<longrightarrow>
         arrays x \<noteq> [] \<and> (\<forall>a\<in>set (arrays x). a = x_train_of fw) \<and>
         (\<forall>vx vy. v = Some (vx, vy) \<longrightarrow> (\<forall>a\<in>set (arrays vx). a = x_test_of fw))) \<and>
      (\<forall>m x y b. c = Model_evaluate m x y b \<longrightarrow>
         arrays x \<noteq> [] \<and> (\<forall>a\<in>set (arrays x). a = x_test_of fw))"
      using y_model_uses[of fw] by fastforce
    show "\<exists>m x y v e b. Model_fit m x y v e b \<in> set (y_network_calls fw)"
      using data_calls_in(3) by blast
    show "\<exists>m x y b. Model_evaluate m x y b \<in> set (y_network_calls fw)"
      using data_calls_in(4) by blast
  qed
qed

lemma rn32_values:
  "rn32 (of_nat (unat (0 :: uint8)) / 255) = 0"
  "rn32 (of_nat (unat (128 :: uint8)) / 255) = 8421505 / 16777216"
  "rn32 (of_nat (unat (255 :: uint8)) / 255) = 1"
  by code_simp+

lemma example_first_pixels:
  "take 3 (data (train_images example_framework)) = [0, 128, 255]"
  by (simp add: example_framework_def)

text \<open>
  C9. In every run of either notebook, the arrays passed to \<^verbatim>\<open>fit\<close> (as input and, in
  the Y-Network, as validation input) and to \<^verbatim>\<open>evaluate\<close> are \<^verbatim>\<open>x_train\<close> and \<^verbatim>\<open>x_test\<close>
  as the preprocessing left them: the bytes of the loaded images, each cast to float32
  and divided by 255 in float32 arithmetic, with nothing done to them in between. Every
  element of these arrays lies in the closed interval from 0 to 1. A run in which no call
  raises ends normally, and a run that ends normally has called \<^verbatim>\<open>fit\<close> and \<^verbatim>\<open>evaluate\<close>.
\<close>

theorem pixels_in_unit_interval:
  assumes "notebook = cnn_mnist \<or> notebook = y_network"
    and "run notebook fw = (r, tr)"
  shows "(\<forall>ev\<in>set tr.
            (\<forall>m x y v e b. call_of ev = Model_fit m x y v e b \<longrightarrow>
               arrays x \<noteq> [] \<and> (\<forall>a\<in>set (arrays x). a = x_train_of fw) \<and>
               (\<forall>vx vy. v = Some (vx, vy) \<longrightarrow> (\<forall>a\<in>set (arrays vx). a = x_test_of fw)) \<and>
               data (x_train_of fw) =
                 map (\<lambda>p. rn32 (of_nat (unat p) / 255)) (data (train_images fw)) \<and>
               data (x_test_of fw) =
                 map (\<lambda>p. rn32 (of_nat (unat p) / 255)) (data (test_images fw))) \<and>
            (\<forall>m x y b. call_of ev = Model_evaluate m x y b \<longrightarrow>
               arrays x \<noteq> [] \<and> (\<forall>a\<in>set (arrays x). a = x_test_of fw) \<and>
               data (x_test_of fw) =
                 map (\<lambda>p. rn32 (of_nat (unat p) / 255)) (data (test_images fw)))) \<and>
         (\<forall>p\<in>set (data (x_train_of fw)). 0 \<le> p \<and> p \<le> 1) \<and>
         (\<forall>p\<in>set (data (x_test_of fw)). 0 \<le> p \<and> p \<le> 1) \<and>
         ((\<forall>i<length tr. raised_by fw i (call_of (tr ! i)) = None) \<longrightarrow> r = Inr ()) \<and>
         (r = Inr () \<longrightarrow>
            (\<exists>m x y v e b. Returned (Model_fit m x y v e b) \<in> set tr) \<and>
            (\<exists>m x y b. Returned (Model_evaluate m x y b) \<in> set tr))"
proof -
  from assms obtain cs where o: "outcome fw 0 () cs [] r tr"
    and p: "take 12 cs = preprocessing_calls fw"
    and u: "\<forall>c\<in>set cs.
      (\<forall>m x y v e b. c = Model_fit m x y v e b \<longrightarrow>
         arrays x \<noteq> [] \<and> (\<forall>a\<in>set (arrays x). a = x_train_of fw) \<and>
         (\<forall>vx vy. v = Some (vx, vy) \<longrightarrow> (\<forall>a\<in>set (arrays vx). a = x_test_of fw))) \<and>
      (\<forall>m x y b. c = Model_evaluate m x y b \<longrightarrow>
         arrays x \<noteq> [] \<and> (\<forall>a\<in>set (arrays x). a = x_test_of fw))"
    and f: "\<exists>m x y v e b. Model_fit m x y v e b \<in> set cs"
    and e: "\<exists>m x y b. Model_evaluate m x y b \<in> set cs"
    by (rule notebook_calls)
  have 1: "\<forall>ev\<in>set tr.
            (\<forall>m x y v e b. call_of ev = Model_fit m x y v e b \<longrightarrow>
               arrays x \<noteq> [] \<and> (\<forall>a\<in>set (arrays x). a = x_train_of fw) \<and>
               (\<forall>vx vy. v = Some (vx, vy) \<longrightarrow> (\<forall>a\<in>set (arrays vx). a = x_test_of fw)) \<and>
               data (x_train_of fw) =
                 map (\<lambda>p. rn32 (of_nat (unat p) / 255)) (data (train_images fw)) \<and>
               data (x_test_of fw) =
                 map (\<lambda>p. rn32 (of_nat (unat p) / 255)) (data (test_images fw))) \<and>
            (\<forall>m x y b. call_of ev = Model_evaluate m x y b \<longrightarrow>
               arrays x \<noteq> [] \<and> (\<forall>a\<in>set (arrays x). a = x_test_of fw) \<and>
               data (x_test_of fw) =
                 map (\<lambda>p. rn32 (of_nat (unat p) / 255)) (data (test_images fw)))"
  proof (rule ballI)
    fix ev assume ev: "ev \<in> set tr"
    from outcome_call_in[OF o ev] have in_cs: "call_of ev \<in> set cs" .
    show "(\<forall>m x y v e b. call_of ev = Model_fit m x y v e b \<longrightarrow>
               arrays x \<noteq> [] \<and> (\<forall>a\<in>set (arrays x). a = x_train_of fw) \<and>
               (\<forall>vx vy. v = Some (vx, vy) \<longrightarrow> (\<forall>a\<in>set (arrays vx). a = x_test_of fw)) \<and>
               data (x_train_of fw) =
                 map (\<lambda>p. rn32 (of_nat (unat p) / 255)) (data (train_images fw)) \<and>
               data (x_test_of fw) =
                 map (\<lambda>p. rn32 (of_nat (unat p) / 255)) (data (test_images fw))) \<and>
            (\<forall>m x y b. call_of ev = Model_evaluate m x y b \<longrightarrow>
               arrays x \<noteq> [] \<and> (\<forall>a\<in>set (arrays x). a = x_test_of fw) \<and>
               data (x_test_of fw) =
                 map (\<lambda>p. rn32 (of_nat (unat p) / 255)) (data (test_images fw)))"
    proof (intro conjI allI impI)
      fix m x y v e b
      assume c: "call_of ev = Model_fit m x y v e b"
      from c preprocessing_at(4)[of fw]
      have notin: "call_of ev \<notin> set (preprocessing_calls fw)" by auto
      note d = preprocessed[OF o p ev notin]
      from in_cs c u
      have a: "arrays x \<noteq> [] \<and> (\<forall>a\<in>set (arrays x). a = x_train_of fw) \<and>
           (\<forall>vx vy. v = Some (vx, vy) \<longrightarrow> (\<forall>a\<in>set (arrays vx). a = x_test_of fw))"
        by simp
      from a show "arrays x \<noteq> []" by (rule conjunct1)
      from a show "\<forall>a\<in>set (arrays x). a = x_train_of fw" by simp
      show "data (x_train_of fw) =
          map (\<lambda>p. rn32 (of_nat (unat p) / 255)) (data (train_images fw))"
        by (simp only: normalized_images(1) d(1))
      show "data (x_test_of fw) =
          map (\<lambda>p. rn32 (of_nat (unat p) / 255)) (data (test_images fw))"
        by (simp only: normalized_images(2) d(2))
      fix vx vy assume "v = Some (vx, vy)"
      with a show "\<forall>a\<in>set (arrays vx). a = x_test_of fw" by simp
    next
      fix m x y b
      assume c: "call_of ev = Model_evaluate m x y b"
      from c preprocessing_at(4)[of fw]
      have notin: "call_of ev \<notin> set (preprocessing_calls fw)" by auto
      note d = preprocessed[OF o p ev notin]
      from in_cs c u
      have a: "arrays x \<noteq> [] \<and> (\<forall>a\<in>set (arrays x). a = x_test_of fw)"
        by simp
      from a show "arrays x \<noteq> []" by (rule conjunct1)
      from a show "\<forall>a\<in>set (arrays x). a = x_test_of fw" by simp
      show "data (x_test_of fw) =
          map (\<lambda>p. rn32 (of_nat (unat p) / 255)) (data (test_images fw))"
        by (simp only: normalized_images(2) d(2))
    qed
  qed
  have 4: "(\<forall>i<length tr. raised_by fw i (call_of (tr ! i)) = None) \<longrightarrow> r = Inr ()"
    using run_ends_normally[OF assms] by blast
  have 5: "r = Inr () \<longrightarrow>
            (\<exists>m x y v e b. Returned (Model_fit m x y v e b) \<in> set tr) \<and>
            (\<exists>m x y b. Returned (Model_evaluate m x y b) \<in> set tr)"
  proof
    assume "r = Inr ()"
    with o have t: "tr = map Returned cs" by (simp add: outcome_Inr)
    from f obtain m x y v e b where "Model_fit m x y v e b \<in> set cs" by blast
    then have "Returned (Model_fit m x y v e b) \<in> set tr" unfolding t by simp
    then have a: "\<exists>m x y v e b. Returned (Model_fit m x y v e b) \<in> set tr" by blast
    from e obtain m x y b where "Model_evaluate m x y b \<in> set cs" by blast
    then have "Returned (Model_evaluate m x y b) \<in> set tr" unfolding t by simp
    then have b: "\<exists>m x y b. Returned (Model_evaluate m x y b) \<in> set tr" by blast
    from a b show "(\<exists>m x y v e b. Returned (Model_fit m x y v e b) \<in> set tr) \<and>
            (\<exists>m x y b. Returned (Model_evaluate m x y b) \<in> set tr)" by (rule conjI)
  qed
  from 1 unit_interval_images[of fw] 4 5 show ?thesis by (intro conjI)
qed

theorem pixels_in_unit_interval_witness:
  "run cnn_mnist example_framework =
     (Inr (), map Returned (cnn_mnist_calls example_framework)) \<and>
   run y_network example_framework =
     (Inr (), map Returned (y_network_calls example_framework)) \<and>
   list_all (\<lambda>p. 0 \<le> p \<and> p \<le> 1) (data (x_train_of example_framework)) \<and>
   list_all (\<lambda>p. 0 \<le> p \<and> p \<le> 1) (data (x_test_of example_framework)) \<and>
   take 3 (data (train_images example_framework)) = [0, 128, 255] \<and>
   take 3 (data (x_train_of example_framework)) = [0, 8421505 / 16777216, 1] \<and>
   length (data (x_train_of example_framework)) = 32"
proof -
  note t1 = pixels_in_unit_interval[OF disjI1[OF refl] example_runs(1)]
  note t2 = pixels_in_unit_interval[OF disjI2[OF refl] example_runs(2)]
  have 1: "list_all (\<lambda>p. 0 \<le> p \<and> p \<le> 1) (data (x_train_of example_framework))"
    unfolding list_all_iff by (rule t1[THEN conjunct2, THEN conjunct1])
  have 2: "list_all (\<lambda>p. 0 \<le> p \<and> p \<le> 1) (data (x_test_of example_framework))"
    unfolding list_all_iff by (rule t2[THEN conjunct2, THEN conjunct2, THEN conjunct1])
  have ev: "Returned (Model_fit (y_model example_framework)
      (Multi [x_train_of example_framework, x_train_of example_framework])
      (y_train_of example_framework)
      (Some (Multi [x_test_of example_framework, x_test_of example_framework],
             y_test_of example_framework)) 20 128)
     \<in> set (map Returned (y_network_calls example_framework))"
    using data_calls_in(3)[of example_framework] by simp
  from t2[THEN conjunct1, rule_format, OF ev, THEN conjunct1, rule_format, OF call_of.simps(1)]
  have d: "data (x_train_of example_framework) =
      map (\<lambda>p. rn32 (of_nat (unat p) / 255)) (data (train_images example_framework))"
    by simp
  have "take 3 (data (x_train_of example_framework)) =
      map (\<lambda>p. rn32 (of_nat (unat p) / 255)) (take 3 (data (train_images example_framework)))"
    unfolding d by (rule take_map)
  then have 3: "take 3 (data (x_train_of example_framework)) = [0, 8421505 / 16777216, 1]"
    by (simp only: example_first_pixels list.map rn32_values)
  have 4: "length (data (x_train_of example_framework)) = 32"
    unfolding d by (simp add: example_framework_def)
  from example_runs 1 2 example_first_pixels 3 4 show ?thesis by (intro conjI)
qed

lemma length_one_hot: "length (one_hot w c) = w"
  by (simp add: one_hot_def)

lemma chunks_concat:
  assumes "0 < w"
  shows "chunks w (concat (map (one_hot w) ys)) = map (one_hot w) ys"
proof (induction ys)
  case Nil
  show ?case by (simp add: chunks.simps)
next
  case (Cons c ys)
  have ne: "one_hot w c \<noteq> []" using assms length_one_hot[of w c] by auto
  have "chunks w (one_hot w c @ concat (map (one_hot w) ys)) =
      take w (one_hot w c @ concat (map (one_hot w) ys)) #
      chunks w (drop w (one_hot w c @ concat (map (one_hot w) ys)))"
    using assms ne by (subst chunks.simps) simp
  also have "\<dots> = one_hot w c # chunks w (concat (map (one_hot w) ys))"
    by (simp add: length_one_hot)
  finally show ?case using Cons.IH by simp
qed

lemma filter_eq_upt: "filter (\<lambda>j. j = c) [0..<w] = (if c < w then [c] else [])"
  by (induction w) auto

lemma count_one_hot:
  assumes "c < w"
  shows "count_list (one_hot w c) 1 = 1" and "count_list (one_hot w c) 0 = w - 1"
proof -
  have one: "length (filter (\<lambda>j. j = c) [0..<w]) = 1"
    using assms by (simp add: filter_eq_upt)
  have "count_list (one_hot w c) 1 = length (filter (\<lambda>j. j = c) [0..<w])"
    by (simp add: count_list_eq_length_filter one_hot_def filter_map comp_def)
  with one show "count_list (one_hot w c) 1 = 1" by simp
  have "count_list (one_hot w c) 0 = length (filter (\<lambda>j. j \<noteq> c) [0..<w])"
    by (simp add: count_list_eq_length_filter one_hot_def filter_map comp_def)
  moreover have "length (filter (\<lambda>j. j = c) [0..<w]) + length (filter (\<lambda>j. j \<noteq> c) [0..<w]) = w"
    using sum_length_filter_compl[of "\<lambda>j. j = c" "[0..<w]"] by simp
  ultimately show "count_list (one_hot w c) 0 = w - 1" using one by simp
qed

lemma amax_Max: "amax ys = Max (insert 0 (set ys))"
  using Max.set_eq_fold[of 0 ys] by (simp add: amax_def)

lemma amax_ge: "c \<in> set ys \<Longrightarrow> c \<le> amax ys"
  by (simp add: amax_Max)

lemma to_categorical_encoding:
  assumes "to_categorical labels = Inr a"
  shows "one_hot_encoding labels a"
    and "last (shape a) = amax (map unat (data labels)) + 1"
    and "data labels \<noteq> []"
proof -
  let ?ys = "map unat (data labels)"
  let ?w = "amax ?ys + 1"
  from assms show ne: "data labels \<noteq> []"
    by (auto simp: to_categorical_def split: if_splits)
  with assms obtain s where a: "a = NDArray (s @ [?w]) (concat (map (one_hot ?w) ?ys))"
    by (auto simp: to_categorical_def Let_def split: if_splits)
  show w: "last (shape a) = ?w" by (simp add: a)
  have d: "data a = concat (map (one_hot ?w) ?ys)" by (simp only: a ndarray.sel)
  have "chunks ?w (concat (map (one_hot ?w) ?ys)) = map (one_hot ?w) ?ys"
    by (rule chunks_concat) simp
  then have r: "rows a = map (one_hot ?w) ?ys"
    by (simp only: rows_def w d)
  have lt: "unat c < ?w" if "c \<in> set (data labels)" for c
    using amax_ge[of "unat c" ?ys] that by simp
  have 1: "rows a = map (\<lambda>c. one_hot (last (shape a)) (unat c)) (data labels)"
    by (simp add: r w comp_def)
  have 2: "list_all (\<lambda>c. unat c < last (shape a)) (data labels)"
    unfolding list_all_iff w using lt by blast
  have 3: "list_all (\<lambda>row. length row = last (shape a) \<and> count_list row 1 = 1 \<and>
                 count_list row 0 = length row - 1) (rows a)"
    unfolding list_all_iff w r
  proof
    fix row assume "row \<in> set (map (one_hot ?w) ?ys)"
    then obtain c where c: "c \<in> set (data labels)" and row: "row = one_hot ?w (unat c)"
      by auto
    from count_one_hot[OF lt[OF c]] length_one_hot[of ?w "unat c"]
    show "length row = ?w \<and> count_list row 1 = 1 \<and> count_list row 0 = length row - 1"
      by (simp add: row)
  qed
  from 1 2 3 show "one_hot_encoding labels a" unfolding one_hot_encoding_def by (intro conjI)
qed

lemma classes_width:
  assumes "label_classes labels = [0..<k]" and "data labels \<noteq> []"
  shows "amax (map unat (data labels)) + 1 = k"
proof -
  have "set (label_classes labels) = set (map unat (data labels))"
    by (simp add: label_classes_def)
  with assms(1) have s: "set (map unat (data labels)) = {0..<k}" by simp
  from assms(2) have "set (map unat (data labels)) \<noteq> {}" by simp
  with s have "0 < k" by auto
  then obtain k' where k: "k = Suc k'" by (cases k) simp_all
  have "insert 0 {0..<k} = {0..k'}" unfolding k by auto
  then have "Max (insert 0 (set (map unat (data labels)))) = Max {0..k'}"
    by (simp only: s)
  then have "amax (map unat (data labels)) = Max {0..k'}"
    by (simp only: amax_Max)
  moreover have "Max {0..k'} = k'" by (rule Max_eqI) auto
  ultimately show ?thesis by (simp add: k)
qed

lemma classes_num_labels:
  assumes "label_classes (train_labels fw) = [0..<k]"
  shows "num_labels_of fw = k"
proof -
  let ?d = "data (train_labels fw)"
  have "num_labels_of fw = length (remdups ?d)"
    by (simp add: num_labels_of_def np_unique_def len_def Let_def)
  also have "\<dots> = card (set ?d)" by (rule length_remdups_card_conv)
  also have "\<dots> = card (unat ` set ?d)"
    by (rule card_image[symmetric], rule inj_onI) (simp add: word_unat_eq_iff)
  also have "\<dots> = card (set (map unat ?d))" by simp
  also have "\<dots> = length (remdups (map unat ?d))" by (rule length_remdups_card_conv[symmetric])
  also have "\<dots> = length (label_classes (train_labels fw))" by (simp add: label_classes_def)
  also have "\<dots> = k" by (simp add: assms)
  finally show ?thesis .
qed

lemma preprocessing_labels_at:
  "preprocessing_calls fw ! 3 = To_categorical (train_labels fw)"
  "preprocessing_calls fw ! 4 = To_categorical (test_labels fw)"
  by (simp_all add: preprocessing_calls_def)

lemma labels_converted:
  assumes o: "outcome fw 0 () cs [] r tr" and p: "take 12 cs = preprocessing_calls fw"
    and ev: "ev \<in> set tr" and notin: "call_of ev \<notin> set (preprocessing_calls fw)"
  shows "to_categorical (train_labels fw) = Inr (y_train_of fw)"
    and "to_categorical (test_labels fw) = Inr (y_test_of fw)"
    and "4 < length tr"
    and "tr ! 3 = Returned (To_categorical (train_labels fw))"
    and "tr ! 4 = Returned (To_categorical (test_labels fw))"
proof -
  from notin p have n: "call_of ev \<notin> set (take 12 cs)" by simp
  have at: "cs ! j = preprocessing_calls fw ! j" if "j < 12" for j
    using that p by (metis nth_take)
  have "own_error (cs ! 3) = None" by (rule outcome_earlier(2)[OF o ev n]) simp
  then have "error_of (to_categorical (train_labels fw)) = None"
    by (simp add: at preprocessing_labels_at)
  from error_of_None[OF this] show "to_categorical (train_labels fw) = Inr (y_train_of fw)"
    by (simp add: y_train_of_def)
  have "own_error (cs ! 4) = None" by (rule outcome_earlier(2)[OF o ev n]) simp
  then have "error_of (to_categorical (test_labels fw)) = None"
    by (simp add: at preprocessing_labels_at)
  from error_of_None[OF this] show "to_categorical (test_labels fw) = Inr (y_test_of fw)"
    by (simp add: y_test_of_def)
  from ev obtain i where i: "i < length tr" "tr ! i = ev" by (auto simp: in_set_conv_nth)
  have ilen: "i < length cs" using i(1) outcome_calls(2)[OF o] by simp
  have "call_of ev = cs ! i" using outcome_nth_call[OF o i(1)] i(2) by simp
  with n have "cs ! i \<notin> set (take 12 cs)" by simp
  with ilen have i12: "12 \<le> i" by (rule nth_not_in_take)
  with i(1) show "4 < length tr" by simp
  have ret: "tr ! j = Returned (cs ! j)" if "j < i" for j
  proof (cases r)
    case (Inr x)
    with o have "tr = map Returned cs" by (simp add: outcome_Inr)
    with that ilen show ?thesis by simp
  next
    case (Inl e)
    from o[unfolded Inl] obtain k where k: "k < length cs"
      "tr = [] @ map Returned (take k cs) @ [Raised (cs ! k) e]"
      by (rule outcome_InlE)
    have "length tr = Suc k" using k by simp
    with i(1) that have "j < k" by simp
    with k show ?thesis by (simp add: nth_append)
  qed
  from ret[of 3] i12 show "tr ! 3 = Returned (To_categorical (train_labels fw))"
    by (simp add: at preprocessing_labels_at)
  from ret[of 4] i12 show "tr ! 4 = Returned (To_categorical (test_labels fw))"
    by (simp add: at preprocessing_labels_at)
qed

lemma example_labels:
  "label_classes (train_labels example_framework) = [0..<2]"
  "label_classes (test_labels example_framework) = [0..<2]"
  "data (train_labels example_framework) = [0, 1]"
  "data (test_labels example_framework) = [1, 0]"
  by (simp_all add: label_classes_def example_framework_def upt_rec)

lemma encoding_rows:
  assumes "one_hot_encoding labels a" and "last (shape a) = 2"
  shows "rows a = map (\<lambda>c. [if unat c = 0 then 1 else 0, if unat c = 1 then 1 else 0])
           (data labels)"
proof -
  have "[0..<2] = [0, Suc 0]" by (simp add: upt_rec)
  then have "one_hot 2 c = [if c = 0 then 1 else 0, if c = 1 then 1 else 0]" for c
    by (auto simp: one_hot_def)
  with assms show ?thesis by (simp add: one_hot_encoding_def)
qed

text \<open>
  C5. In every run of either notebook, the labels passed to \<^verbatim>\<open>fit\<close> (also as
  validation labels, in the Y-Network) and to \<^verbatim>\<open>evaluate\<close> are what \<^verbatim>\<open>to_categorical\<close>
  returned for the loaded training and test labels, in the fourth and fifth call of the
  run, before any layer or model is made. They are one-hot: row \<open>i\<close> is all zeros but for
  a one at the column of label \<open>i\<close>, so every row has exactly one entry equal to 1 and
  all other entries equal to 0. The row width is the largest label plus one; when the
  labels are the classes 0, 1, ..., k-1, as the ten digits of MNIST are, the width is k,
  the number of distinct training labels that the notebook computes as \<^verbatim>\<open>num_labels\<close>.
  A run in which no call raises ends normally, and a run that ends normally has called
  \<^verbatim>\<open>fit\<close> and \<^verbatim>\<open>evaluate\<close>.
\<close>

theorem labels_one_hot:
  assumes "notebook = cnn_mnist \<or> notebook = y_network"
    and "run notebook fw = (r, tr)"
  shows "(\<forall>ev\<in>set tr.
            (\<forall>m x y v e b. call_of ev = Model_fit m x y v e b \<longrightarrow>
               to_categorical (train_labels fw) = Inr y \<and>
               one_hot_encoding (train_labels fw) y \<and>
               last (shape y) = amax (map unat (data (train_labels fw))) + 1 \<and>
               (label_classes (train_labels fw) = [0..<k] \<longrightarrow>
                  last (shape y) = k \<and> num_labels_of fw = k) \<and>
               (\<forall>vx vy. v = Some (vx, vy) \<longrightarrow>
                  to_categorical (test_labels fw) = Inr vy \<and>
                  one_hot_encoding (test_labels fw) vy \<and>
                  (label_classes (test_labels fw) = [0..<k] \<longrightarrow> last (shape vy) = k)) \<and>
               4 < length tr \<and>
               tr ! 3 = Returned (To_categorical (train_labels fw)) \<and>
               tr ! 4 = Returned (To_categorical (test_labels fw))) \<and>
            (\<forall>m x y b. call_of ev = Model_evaluate m x y b \<longrightarrow>
               to_categorical (test_labels fw) = Inr y \<and>
               one_hot_encoding (test_labels fw) y \<and>
               last (shape y) = amax (map unat (data (test_labels fw))) + 1 \<and>
               (label_classes (test_labels fw) = [0..<k] \<longrightarrow> last (shape y) = k))) \<and>
         ((\<forall>i<length tr. raised_by fw i (call_of (tr ! i)) = None) \<longrightarrow> r = Inr ()) \<and>
         (r = Inr () \<longrightarrow>
            (\<exists>m x y v e b. Returned (Model_fit m x y v e b) \<in> set tr) \<and>
            (\<exists>m x y b. Returned (Model_evaluate m x y b) \<in> set tr))"
proof -
  have uses: "\<forall>c\<in>set cs.
      (\<forall>m x y v e b. c = Model_fit m x y v e b \<longrightarrow>
         y = y_train_of fw \<and> (\<forall>vx vy. v = Some (vx, vy) \<longrightarrow> vy = y_test_of fw)) \<and>
      (\<forall>m x y b. c = Model_evaluate m x y b \<longrightarrow> y = y_test_of fw)"
    if "cs = cnn_mnist_calls fw \<or> cs = y_network_calls fw" for cs
    using that cnn_model_uses[of fw] y_model_uses[of fw] by fastforce
  from assms obtain cs where o: "outcome fw 0 () cs [] r tr"
    and p: "take 12 cs = preprocessing_calls fw"
    and f: "\<exists>m x y v e b. Model_fit m x y v e b \<in> set cs"
    and e: "\<exists>m x y b. Model_evaluate m x y b \<in> set cs"
    and cs: "cs = cnn_mnist_calls fw \<or> cs = y_network_calls fw"
  proof -
    from assms(1) show thesis
    proof
      assume nb: "notebook = cnn_mnist"
      show thesis
      proof (rule that)
        show "outcome fw 0 () (cnn_mnist_calls fw) [] r tr"
          by (rule run_outcome[OF cnn_mnist_emits assms(2)[unfolded nb]])
        show "take 12 (cnn_mnist_calls fw) = preprocessing_calls fw"
          by (rule cnn_calls_split(1))
        show "\<exists>m x y v e b. Model_fit m x y v e b \<in> set (cnn_mnist_calls fw)"
          using data_calls_in(1) by blast
        show "\<exists>m x y b. Model_evaluate m x y b \<in> set (cnn_mnist_calls fw)"
          using data_calls_in(2) by blast
        show "cnn_mnist_calls fw = cnn_mnist_calls fw \<or> cnn_mnist_calls fw = y_network_calls fw"
          by simp
      qed
    next
      assume nb: "notebook = y_network"
      show thesis
      proof (rule that)
        show "outcome fw 0 () (y_network_calls fw) [] r tr"
          by (rule run_outcome[OF y_network_emits assms(2)[unfolded nb]])
        show "take 12 (y_network_calls fw) = preprocessing_calls fw"
          by (rule y_calls_split(1))
        show "\<exists>m x y v e b. Model_fit m x y v e b \<in> set (y_network_calls fw)"
          using data_calls_in(3) by blast
        show "\<exists>m x y b. Model_evaluate m x y b \<in> set (y_network_calls fw)"
          using data_calls_in(4) by blast
        show "y_network_calls fw = cnn_mnist_calls fw \<or> y_network_calls fw = y_network_calls fw"
          by simp
      qed
    qed
  qed
  note u = uses[OF cs]
  have tests: "to_categorical (test_labels fw) = Inr y \<Longrightarrow>
      one_hot_encoding (test_labels fw) y \<and>
      last (shape y) = amax (map unat (data (test_labels fw))) + 1 \<and>
      (label_classes (test_labels fw) = [0..<k] \<longrightarrow> last (shape y) = k)" for y
    using to_categorical_encoding[of "test_labels fw" y]
      classes_width[of "test_labels fw" k] by simp
  have trains: "to_categorical (train_labels fw) = Inr y \<Longrightarrow>
      one_hot_encoding (train_labels fw) y \<and>
      last (shape y) = amax (map unat (data (train_labels fw))) + 1 \<and>
      (label_classes (train_labels fw) = [0..<k] \<longrightarrow>
         last (shape y) = k \<and> num_labels_of fw = k)" for y
    using to_categorical_encoding[of "train_labels fw" y]
      classes_width[of "train_labels fw" k] classes_num_labels[of fw k] by simp
  have 1: "\<forall>ev\<in>set tr.
            (\<forall>m x y v e b. call_of ev = Model_fit m x y v e b \<longrightarrow>
               to_categorical (train_labels fw) = Inr y \<and>
               one_hot_encoding (train_labels fw) y \<and>
               last (shape y) = amax (map unat (data (train_labels fw))) + 1 \<and>
               (label_classes (train_labels fw) = [0..<k] \<longrightarrow>
                  last (shape y) = k \<and> num_labels_of fw = k) \<and>
               (\<forall>vx vy. v = Some (vx, vy) \<longrightarrow>
                  to_categorical (test_labels fw) = Inr vy \<and>
                  one_hot_encoding (test_labels fw) vy \<and>
                  (label_classes (test_labels fw) = [0..<k] \<longrightarrow> last (shape vy) = k)) \<and>
               4 < length tr \<and>
               tr ! 3 = Returned (To_categorical (train_labels fw)) \<and>
               tr ! 4 = Returned (To_categorical (test_labels fw))) \<and>
            (\<forall>m x y b. call_of ev = Model_evaluate m x y b \<longrightarrow>
               to_categorical (test_labels fw) = Inr y \<and>
               one_hot_encoding (test_labels fw) y \<and>
               last (shape y) = amax (map unat (data (test_labels fw))) + 1 \<and>
               (label_classes (test_labels fw) = [0..<k] \<longrightarrow> last (shape y) = k))"
  proof (rule ballI)
    fix ev assume ev: "ev \<in> set tr"
    from outcome_call_in[OF o ev] have in_cs: "call_of ev \<in> set cs" .
    show "(\<forall>m x y v e b. call_of ev = Model_fit m x y v e b \<longrightarrow>
               to_categorical (train_labels fw) = Inr y \<and>
               one_hot_encoding (train_labels fw) y \<and>
               last (shape y) = amax (map unat (data (train_labels fw))) + 1 \<and>
               (label_classes (train_labels fw) = [0..<k] \<longrightarrow>
                  last (shape y) = k \<and> num_labels_of fw = k) \<and>
               (\<forall>vx vy. v = Some (vx, vy) \<longrightarrow>
                  to_categorical (test_labels fw) = Inr vy \<and>
                  one_hot_encoding (test_labels fw) vy \<and>
                  (label_classes (test_labels fw) = [0..<k] \<longrightarrow> last (shape vy) = k)) \<and>
               4 < length tr \<and>
               tr ! 3 = Returned (To_categorical (train_labels fw)) \<and>
               tr ! 4 = Returned (To_categorical (test_labels fw))) \<and>
            (\<forall>m x y b. call_of ev = Model_evaluate m x y b \<longrightarrow>
               to_categorical (test_labels fw) = Inr y \<and>
               one_hot_encoding (test_labels fw) y \<and>
               last (shape y) = amax (map unat (data (test_labels fw))) + 1 \<and>
               (label_classes (test_labels fw) = [0..<k] \<longrightarrow> last (shape y) = k))"
    proof (rule conjI; intro allI; rule impI)
      fix m x y v e b
      assume c: "call_of ev = Model_fit m x y v e b"
      from c preprocessing_at(4)[of fw]
      have notin: "call_of ev \<notin> set (preprocessing_calls fw)" by auto
      note d = labels_converted[OF o p ev notin]
      from in_cs c u have y: "y = y_train_of fw"
        and vy: "\<forall>vx vy. v = Some (vx, vy) \<longrightarrow> vy = y_test_of fw" by auto
      have a: "to_categorical (train_labels fw) = Inr y" using d(1) y by simp
      have b: "\<forall>vx vy. v = Some (vx, vy) \<longrightarrow>
                  to_categorical (test_labels fw) = Inr vy \<and>
                  one_hot_encoding (test_labels fw) vy \<and>
                  (label_classes (test_labels fw) = [0..<k] \<longrightarrow> last (shape vy) = k)"
      proof (intro allI impI)
        fix vx vy' assume "v = Some (vx, vy')"
        with vy have "vy' = y_test_of fw" by simp
        with d(2) have t: "to_categorical (test_labels fw) = Inr vy'" by simp
        note te = tests[OF t]
        from t te[THEN conjunct1] te[THEN conjunct2, THEN conjunct2]
        show "to_categorical (test_labels fw) = Inr vy' \<and>
                  one_hot_encoding (test_labels fw) vy' \<and>
                  (label_classes (test_labels fw) = [0..<k] \<longrightarrow> last (shape vy') = k)"
          by (intro conjI)
      qed
      note tr = trains[OF a]
      from a tr[THEN conjunct1] tr[THEN conjunct2, THEN conjunct1]
        tr[THEN conjunct2, THEN conjunct2] b d(3) d(4) d(5)
      show "to_categorical (train_labels fw) = Inr y \<and>
               one_hot_encoding (train_labels fw) y \<and>
               last (shape y) = amax (map unat (data (train_labels fw))) + 1 \<and>
               (label_classes (train_labels fw) = [0..<k] \<longrightarrow>
                  last (shape y) = k \<and> num_labels_of fw = k) \<and>
               (\<forall>vx vy. v = Some (vx, vy) \<longrightarrow>
                  to_categorical (test_labels fw) = Inr vy \<and>
                  one_hot_encoding (test_labels fw) vy \<and>
                  (label_classes (test_labels fw) = [0..<k] \<longrightarrow> last (shape vy) = k)) \<and>
               4 < length tr \<and>
               tr ! 3 = Returned (To_categorical (train_labels fw)) \<and>
               tr ! 4 = Returned (To_categorical (test_labels fw))"
        by (intro conjI)
    next
      fix m x y b
      assume c: "call_of ev = Model_evaluate m x y b"
      from c preprocessing_at(4)[of fw]
      have notin: "call_of ev \<notin> set (preprocessing_calls fw)" by auto
      note d = labels_converted[OF o p ev notin]
      from in_cs c u have y: "y = y_test_of fw" by auto
      have a: "to_categorical (test_labels fw) = Inr y" using d(2) y by simp
      note te = tests[OF a]
      from a te[THEN conjunct1] te[THEN conjunct2, THEN conjunct1]
        te[THEN conjunct2, THEN conjunct2]
      show "to_categorical (test_labels fw) = Inr y \<and>
               one_hot_encoding (test_labels fw) y \<and>
               last (shape y) = amax (map unat (data (test_labels fw))) + 1 \<and>
               (label_classes (test_labels fw) = [0..<k] \<longrightarrow> last (shape y) = k)"
        by (intro conjI)
    qed
  qed
  have 2: "(\<forall>i<length tr. raised_by fw i (call_of (tr ! i)) = None) \<longrightarrow> r = Inr ()"
    using run_ends_normally[OF assms] by blast
  have 3: "r = Inr () \<longrightarrow>
            (\<exists>m x y v e b. Returned (Model_fit m x y v e b) \<in> set tr) \<and>
            (\<exists>m x y b. Returned (Model_evaluate m x y b) \<in> set tr)"
  proof
    assume "r = Inr ()"
    with o have t: "tr = map Returned cs" by (simp add: outcome_Inr)
    from f obtain m x y v e b where "Model_fit m x y v e b \<in> set cs" by blast
    then have "Returned (Model_fit m x y v e b) \<in> set tr" unfolding t by simp
    then have a: "\<exists>m x y v e b. Returned (Model_fit m x y v e b) \<in> set tr" by blast
    from e obtain m x y b where "Model_evaluate m x y b \<in> set cs" by blast
    then have "Returned (Model_evaluate m x y b) \<in> set tr" unfolding t by simp
    then have b: "\<exists>m x y b. Returned (Model_evaluate m x y b) \<in> set tr" by blast
    from a b show "(\<exists>m x y v e b. Returned (Model_fit m x y v e b) \<in> set tr) \<and>
            (\<exists>m x y b. Returned (Model_evaluate m x y b) \<in> set tr)" by (rule conjI)
  qed
  from 1 2 3 show ?thesis by (intro conjI)
qed

theorem labels_one_hot_witness:
  "run cnn_mnist example_framework =
     (Inr (), map Returned (cnn_mnist_calls example_framework)) \<and>
   run y_network example_framework =
     (Inr (), map Returned (y_network_calls example_framework)) \<and>
   label_classes (train_labels example_framework) = [0..<2] \<and>
   label_classes (test_labels example_framework) = [0..<2] \<and>
   to_categorical (train_labels example_framework) = Inr (y_train_of example_framework) \<and>
   to_categorical (test_labels example_framework) = Inr (y_test_of example_framework) \<and>
   one_hot_encoding (train_labels example_framework) (y_train_of example_framework) \<and>
   one_hot_encoding (test_labels example_framework) (y_test_of example_framework) \<and>
   last (shape (y_train_of example_framework)) = 2 \<and>
   last (shape (y_test_of example_framework)) = 2 \<and>
   num_labels_of example_framework = 2 \<and>
   rows (y_train_of example_framework) = [[1, 0], [0, 1]] \<and>
   rows (y_test_of example_framework) = [[0, 1], [1, 0]]"
proof -
  note t1 = labels_one_hot[OF disjI1[OF refl] example_runs(1), of 2]
  note t2 = labels_one_hot[OF disjI2[OF refl] example_runs(2), of 2]
  have fit: "Returned (Model_fit (y_model example_framework)
      (Multi [x_train_of example_framework, x_train_of example_framework])
      (y_train_of example_framework)
      (Some (Multi [x_test_of example_framework, x_test_of example_framework],
             y_test_of example_framework)) 20 128)
     \<in> set (map Returned (y_network_calls example_framework))"
    using data_calls_in(3)[of example_framework] by simp
  have ev: "Returned (Model_evaluate (Sequential (sequential_layers example_framework))
      (Single (x_test_of example_framework)) (y_test_of example_framework) 128)
     \<in> set (map Returned (cnn_mnist_calls example_framework))"
    using data_calls_in(2)[of example_framework] by simp
  note a = t2[THEN conjunct1, rule_format, OF fit, THEN conjunct1, rule_format,
      OF call_of.simps(1)]
  note b = t1[THEN conjunct1, rule_format, OF ev, THEN conjunct2, rule_format,
      OF call_of.simps(1)]
  note a1 = a[THEN conjunct1]
  note a2 = a[THEN conjunct2, THEN conjunct1]
  note a4 = a[THEN conjunct2, THEN conjunct2, THEN conjunct2, THEN conjunct1, THEN mp,
      OF example_labels(1)]
  note b1 = b[THEN conjunct1]
  note b2 = b[THEN conjunct2, THEN conjunct1]
  note b4 = b[THEN conjunct2, THEN conjunct2, THEN conjunct2, THEN mp, OF example_labels(2)]
  have r1: "rows (y_train_of example_framework) = [[1, 0], [0, 1]]"
    using encoding_rows[OF a2 a4[THEN conjunct1]] by (simp add: example_labels)
  have r2: "rows (y_test_of example_framework) = [[0, 1], [1, 0]]"
    using encoding_rows[OF b2 b4] by (simp add: example_labels)
  from example_runs example_labels(1,2) a1 b1 a2 b2 a4[THEN conjunct1] b4
    a4[THEN conjunct2] r1 r2
  show ?thesis by (intro conjI)
qed

end
